(* ===== verification/Tunnel_Prelude.thy ===== *)
theory Tunnel_Prelude
  imports Main "HOL-Library.Word"
begin

text \<open>
  Shared vocabulary of the development: the machine types of the C sources, the sizes of
  \<^verbatim>\<open>src/src/common.h\<close>, the scan loops over an array prefix, big-endian fields, and the two
  interface locales that several components instantiate (\<open>codec\<close> for encode/decode pairs and
  \<open>inv_machine\<close> for step functions with an invariant).
\<close>

unbundle bit_operations_syntax

section \<open>Machine types\<close>

type_synonym byte = "8 word"
type_synonym u32 = "32 word"
type_synonym u64 = "64 word"
type_synonym bytes = "byte list"

text \<open>Definitions that only name a constant of the sources; \<open>simp add: const_defs\<close> evaluates them.\<close>

named_theorems const_defs

text \<open>Invariant preservation facts, one per state-changing operation.\<close>

named_theorems preserves

section \<open>Sizes\<close>

definition CRYPTO_KEY_LEN :: nat where [const_defs]: "CRYPTO_KEY_LEN = 32"
definition CRYPTO_IV_LEN :: nat where [const_defs]: "CRYPTO_IV_LEN = 12"
definition CRYPTO_TAG_LEN :: nat where [const_defs]: "CRYPTO_TAG_LEN = 16"
definition CRYPTO_OVERHEAD :: nat where
  [const_defs]: "CRYPTO_OVERHEAD = CRYPTO_IV_LEN + CRYPTO_TAG_LEN"
definition HEADER_SIZE :: nat where [const_defs]: "HEADER_SIZE = 8"
definition SEQ_SIZE :: nat where [const_defs]: "SEQ_SIZE = 8"
definition WIRE_OVERHEAD :: nat where
  [const_defs]: "WIRE_OVERHEAD = HEADER_SIZE + SEQ_SIZE + CRYPTO_OVERHEAD"
definition TUN_MTU :: nat where [const_defs]: "TUN_MTU = 1500 - 20 - 8 - WIRE_OVERHEAD"
definition BUFFER_SIZE :: nat where [const_defs]: "BUFFER_SIZE = 2048"
definition DH_PUBKEY_LEN :: nat where [const_defs]: "DH_PUBKEY_LEN = 32"
definition HMAC_LEN :: nat where [const_defs]: "HMAC_LEN = 32"
definition HS_ENCRYPTED_PUB_LEN :: nat where
  [const_defs]: "HS_ENCRYPTED_PUB_LEN = DH_PUBKEY_LEN + CRYPTO_TAG_LEN"

definition pkt_header :: bytes where
  "pkt_header = [0xde, 0xad, 0xbe, 0xef, 0xca, 0xfe, 0xba, 0xbe]"

lemma length_pkt_header [simp]: "length pkt_header = HEADER_SIZE"
  by (simp add: pkt_header_def const_defs)

section \<open>Scan loops\<close>

text \<open>
  \<open>first_idx P n\<close> is the C idiom \<^verbatim>\<open>for (i = 0; i < n; i++) if (P(i)) return &a[i]; return NULL\<close>:
  the least index below \<open>n\<close> that satisfies \<open>P\<close>.
\<close>

definition first_idx :: "(nat \<Rightarrow> bool) \<Rightarrow> nat \<Rightarrow> nat option" where
  "first_idx P n = find P [0..<n]"

lemma first_idx_None_iff [simp]: "first_idx P n = None \<longleftrightarrow> (\<forall>i < n. \<not> P i)"
  by (auto simp: first_idx_def find_None_iff)

lemma first_idx_SomeD:
  assumes "first_idx P n = Some i"
  shows "i < n" and "P i" and "\<And>j. j < i \<Longrightarrow> \<not> P j"
proof -
  from assms obtain k where k: "k < n" "P k" "i = k" "\<forall>j < k. \<not> P j"
    by (auto simp: first_idx_def find_Some_iff)
  then show "i < n" and "P i" and "\<And>j. j < i \<Longrightarrow> \<not> P j" by auto
qed

lemma first_idx_exI: "P i \<Longrightarrow> i < n \<Longrightarrow> \<exists>j. first_idx P n = Some j"
  using first_idx_None_iff [of P n] by (cases "first_idx P n") auto

lemma first_idx_Some_iff: "first_idx P n = Some i \<longleftrightarrow> i < n \<and> P i \<and> (\<forall>j < i. \<not> P j)"
  by (auto simp: first_idx_def find_Some_iff)

lemma first_idx_cong:
  "(\<And>i. i < n \<Longrightarrow> P i = Q i) \<Longrightarrow> first_idx P n = first_idx Q n"
  unfolding first_idx_def by (rule find_cong) auto

lemma first_idx_unique:
  "P i \<Longrightarrow> i < n \<Longrightarrow> (\<And>j. j < n \<Longrightarrow> P j \<Longrightarrow> j = i) \<Longrightarrow> first_idx P n = Some i"
  by (metis first_idx_SomeD(1,2) first_idx_exI)

section \<open>Interface: encode/decode pairs\<close>

text \<open>
  A codec promises that decoding undoes encoding on the valid values. What a client needs is
  proved once here: encodings of different values differ, and a decoded value is the one sent.
\<close>

locale codec =
  fixes enc :: "'a \<Rightarrow> 'b"
    and dec :: "'b \<Rightarrow> 'a option"
    and ok :: "'a \<Rightarrow> bool"
  assumes dec_enc: "ok x \<Longrightarrow> dec (enc x) = Some x"
begin

lemma enc_inj: "inj_on enc {x. ok x}"
  by (rule inj_onI) (metis dec_enc mem_Collect_eq option.inject)

lemma dec_enc_iff: "ok x \<Longrightarrow> dec (enc x) = Some y \<longleftrightarrow> y = x"
  by (auto simp: dec_enc)

end

section \<open>Interface: step functions with an invariant\<close>

fun run_steps :: "('s \<Rightarrow> 'e \<Rightarrow> 's) \<Rightarrow> 's \<Rightarrow> 'e list \<Rightarrow> 's" where
  "run_steps step s [] = s"
| "run_steps step s (e # es) = run_steps step (step s e) es"

lemma run_steps_append [simp]:
  "run_steps step s (xs @ ys) = run_steps step (run_steps step s xs) ys"
  by (induction xs arbitrary: s) auto

locale inv_machine =
  fixes step :: "'s \<Rightarrow> 'e \<Rightarrow> 's"
    and inv :: "'s \<Rightarrow> bool"
  assumes step_inv: "inv s \<Longrightarrow> inv (step s e)"
begin

lemma run_inv: "inv s \<Longrightarrow> inv (run_steps step s es)"
  by (induction es arbitrary: s) (auto intro: step_inv)

lemma run_prefix_inv: "inv s \<Longrightarrow> inv (run_steps step s (take n es))"
  by (rule run_inv)

end

section \<open>Big-endian fields\<close>

text \<open>\<open>be_bytes n v\<close> is the \<open>n\<close>-byte network order image of \<open>v\<close>, \<open>be_value\<close> reads it back.\<close>

fun be_bytes :: "nat \<Rightarrow> nat \<Rightarrow> bytes" where
  "be_bytes 0 v = []"
| "be_bytes (Suc n) v = be_bytes n (v div 256) @ [word_of_nat v]"

definition be_value :: "bytes \<Rightarrow> nat" where
  "be_value bs = foldl (\<lambda>acc b. 256 * acc + unat b) 0 bs"

lemma length_be_bytes [simp]: "length (be_bytes n v) = n"
  by (induction n arbitrary: v) auto

lemma be_value_Nil [simp]: "be_value [] = 0"
  by (simp add: be_value_def)

lemma be_value_snoc [simp]: "be_value (bs @ [b]) = 256 * be_value bs + unat b"
  by (simp add: be_value_def)

lemma be_value_be_bytes: "v < 256 ^ n \<Longrightarrow> be_value (be_bytes n v) = v"
proof (induction n arbitrary: v)
  case 0
  then show ?case by simp
next
  case (Suc n)
  then have "v div 256 < 256 ^ n" by (simp add: less_mult_imp_div_less mult.commute)
  then have "be_value (be_bytes n (v div 256)) = v div 256" by (rule Suc.IH)
  moreover have "unat (word_of_nat v :: byte) = v mod 256"
    by (simp add: unat_of_nat)
  ultimately show ?case by simp
qed

lemma be_bytes_inject: "a < 256 ^ n \<Longrightarrow> b < 256 ^ n \<Longrightarrow> be_bytes n a = be_bytes n b \<longleftrightarrow> a = b"
  by (metis be_value_be_bytes)

lemma be_bytes_mod: "be_bytes n (v mod 256 ^ n) = be_bytes n v"
proof (induction n arbitrary: v)
  case 0
  then show ?case by simp
next
  case (Suc n)
  have "v mod 256 ^ Suc n div 256 = v div 256 mod 256 ^ n"
    by (simp add: mod_mult2_eq)
  moreover have "v mod 256 ^ Suc n mod 256 = v mod 256" by (rule mod_mod_cancel) simp
  then have "(word_of_nat (v mod 256 ^ Suc n) :: byte) = word_of_nat v"
    by (simp only: word_of_nat_eq_iff take_bit_eq_mod) simp
  ultimately show ?case using Suc.IH [of "v div 256"] by simp
qed

lemma be_value_bound: "be_value bs < 256 ^ length bs"
proof (induction bs rule: rev_induct)
  case Nil
  then show ?case by simp
next
  case (snoc b bs)
  have "unat b < 256" by (rule order_less_le_trans [OF unsigned_less]) simp
  with snoc show ?case by simp
qed

lemma be_value_be_bytes_mod: "be_value (be_bytes n v) = v mod 256 ^ n"
  using be_value_be_bytes [of "v mod 256 ^ n" n] by (simp add: be_bytes_mod)

lemma be_bytes_mult_mod: "be_bytes n (a * be_value (be_bytes n b)) = be_bytes n (a * b)"
  by (metis be_bytes_mod be_value_be_bytes_mod mod_mult_right_eq)

definition htobe64 :: "u64 \<Rightarrow> bytes" where
  "htobe64 w = be_bytes 8 (unat w)"

definition be64toh :: "bytes \<Rightarrow> u64" where
  "be64toh bs = word_of_nat (be_value bs)"

definition ntohl :: "bytes \<Rightarrow> u32" where
  "ntohl bs = word_of_nat (be_value bs)"

lemma length_htobe64 [simp]: "length (htobe64 w) = SEQ_SIZE"
  by (simp add: htobe64_def const_defs)

lemma be64toh_htobe64 [simp]: "be64toh (htobe64 w) = w"
proof -
  have "unat w < 256 ^ 8" using unsigned_less [of w] by simp
  then show ?thesis by (simp add: htobe64_def be64toh_def be_value_be_bytes)
qed

lemma be_bytes_be_value: "be_bytes (length bs) (be_value bs) = bs"
proof (induction bs rule: rev_induct)
  case (snoc b bs)
  have b: "unat b < 256" by (rule order_less_le_trans [OF unsigned_less]) simp
  then have "(256 * be_value bs + unat b) div 256 = be_value bs" by simp
  moreover have z: "(256 :: byte) = 0" by simp
  have "(word_of_nat (256 * be_value bs + unat b) :: byte) = 256 * word_of_nat (be_value bs) + b" by simp
  then have "(word_of_nat (256 * be_value bs + unat b) :: byte) = b"
    by (simp only: z mult_zero_left add_0)
  ultimately show ?case using snoc by simp
qed simp

lemma htobe64_be64toh: "length bs = SEQ_SIZE \<Longrightarrow> htobe64 (be64toh bs) = bs"
proof -
  assume l: "length bs = SEQ_SIZE"
  then have "be_value bs < 2 ^ 64" using be_value_bound [of bs] by (simp add: const_defs)
  then have "unat (be64toh bs) = be_value bs"
    by (simp add: be64toh_def unsigned_of_nat take_bit_eq_mod)
  then show ?thesis using be_bytes_be_value [of bs] l by (simp add: htobe64_def const_defs)
qed

interpretation seq_codec: codec htobe64 "\<lambda>bs. Some (be64toh bs)" "\<lambda>_. True"
  by unfold_locales simp

section \<open>Byte slices\<close>

text \<open>\<open>sub_bytes off n bs\<close> is \<open>n\<close> bytes at offset \<open>off\<close>, as \<^verbatim>\<open>memcpy(dst, bs + off, n)\<close> copies them.\<close>

definition sub_bytes :: "nat \<Rightarrow> nat \<Rightarrow> 'a list \<Rightarrow> 'a list" where
  "sub_bytes off n bs = take n (drop off bs)"

lemma length_sub_bytes [simp]: "length (sub_bytes off n bs) = min n (length bs - off)"
  by (simp add: sub_bytes_def min.commute)

lemma sub_bytes_mid:
  "length xs = off \<Longrightarrow> length ys = n \<Longrightarrow> sub_bytes off n (xs @ ys @ zs) = ys"
  by (simp add: sub_bytes_def)

lemma sub_bytes_prefix: "length xs = n \<Longrightarrow> sub_bytes 0 n (xs @ ys) = xs"
  by (simp add: sub_bytes_def)

lemma sub_bytes_suffix: "length xs = off \<Longrightarrow> length ys = n \<Longrightarrow> sub_bytes off n (xs @ ys) = ys"
  by (simp add: sub_bytes_def)

end
