(* ===== verification/Replay.thy ===== *)
theory Replay
  imports Tunnel_Prelude
begin

text \<open>
  The sliding replay window of \<^verbatim>\<open>src/src/common.h\<close> (\<open>check_replay\<close>): a highest sequence number
  and 32 words of 64 bits, bit \<open>k\<close> of the window standing for sequence number \<open>highest - k\<close>.
  The in-place shift loop is kept as the code has it. The theory shows that the window
  implements the abstract filter ``accept exactly the unseen numbers above \<open>highest - 2048\<close>'', states that
  contract as a locale, and derives from it that no number is ever accepted twice.
\<close>

section \<open>The code\<close>

definition REPLAY_WINDOW_WORDS :: nat where [const_defs]: "REPLAY_WINDOW_WORDS = 32"

definition shifted_word :: "nat \<Rightarrow> nat \<Rightarrow> u64 list \<Rightarrow> nat \<Rightarrow> u64" where
  "shifted_word wn bn w i =
     (let lo_src = int i - int wn;
          hi_src = lo_src - 1;
          lo = (if lo_src \<ge> 0 then w ! nat lo_src else 0);
          hi = (if bn > 0 \<and> hi_src \<ge> 0 then w ! nat hi_src else 0)
      in if bn > 0 then push_bit bn lo OR drop_bit (64 - bn) hi else lo)"

text \<open>The loop \<^verbatim>\<open>for (i = WORDS - 1; i >= 0; i--)\<close>: it overwrites the array while it reads it.\<close>

fun shift_window :: "nat \<Rightarrow> nat \<Rightarrow> nat \<Rightarrow> u64 list \<Rightarrow> u64 list" where
  "shift_window wn bn 0 w = w"
| "shift_window wn bn (Suc i) w = shift_window wn bn i (w[i := shifted_word wn bn w i])"

text \<open>The result is the return code and the new contents of \<open>*highest\<close> and \<open>window\<close>.\<close>

definition check_replay :: "u64 \<Rightarrow> u64 \<Rightarrow> u64 list \<Rightarrow> int \<times> u64 \<times> u64 list" where
  "check_replay seq highest window =
     (if seq > highest then
        let diff = seq - highest;
            w = (if diff \<ge> of_nat (REPLAY_WINDOW_WORDS * 64)
                 then replicate REPLAY_WINDOW_WORDS 0
                 else shift_window (unat (diff div 64)) (unat (diff mod 64)) REPLAY_WINDOW_WORDS window)
        in (0, seq, w[0 := w ! 0 OR 1])
      else
        let diff = highest - seq
        in if diff \<ge> of_nat (REPLAY_WINDOW_WORDS * 64) then (-1, highest, window)
           else
             let wd = unat (diff div 64);
                 b = unat (diff mod 64)
             in if window ! wd AND push_bit b 1 \<noteq> 0 then (-1, highest, window)
                else (0, highest, window[wd := window ! wd OR push_bit b 1]))"

section \<open>Bits of the window\<close>

text \<open>Bit \<open>k\<close> of the window, as the header comment numbers them.\<close>

definition wbit :: "u64 list \<Rightarrow> nat \<Rightarrow> bool" where
  "wbit w k \<longleftrightarrow> bit (w ! (k div 64)) (k mod 64)"

lemma length_shift_window [simp]: "length (shift_window wn bn n w) = length w"
  by (induction n arbitrary: w) auto

text \<open>A word is computed from words at or below its own index, which the loop has not yet written.\<close>

lemma shifted_word_upd:
  "i < j \<Longrightarrow> shifted_word wn bn (w[j := x]) i = shifted_word wn bn w i"
  by (auto simp: shifted_word_def Let_def nth_list_update)

lemma shift_window_nth:
  "n \<le> length w \<Longrightarrow> i < length w \<Longrightarrow>
     shift_window wn bn n w ! i = (if i < n then shifted_word wn bn w i else w ! i)"
proof (induction n arbitrary: w)
  case 0
  then show ?case by simp
next
  case (Suc n)
  let ?w = "w[n := shifted_word wn bn w n]"
  have "shift_window wn bn n ?w ! i = (if i < n then shifted_word wn bn ?w i else ?w ! i)"
    using Suc.prems by (intro Suc.IH) auto
  then show ?case
    using Suc.prems by (auto simp: shifted_word_upd nth_list_update less_Suc_eq)
qed

lemma bit_word_bound: "bit (w :: u64) n \<Longrightarrow> n < 64"
  using bit_imp_le_length [of w n] by simp

lemma div_mod_block:
  fixes a x :: nat
  assumes "x < 64"
  shows "(64 * a + x) div 64 = a" and "(64 * a + x) mod 64 = x"
  using assms by auto

text \<open>One word of the shifted window, bit by bit, in terms of the bits of the old window.\<close>

lemma bit_shifted_word:
  assumes "bn < 64" "r < 64"
  shows "bit (shifted_word wn bn w i) r \<longleftrightarrow>
           64 * wn + bn \<le> 64 * i + r \<and> wbit w (64 * i + r - (64 * wn + bn))"
proof (cases "bn \<le> r")
  case True
  show ?thesis
  proof (cases "wn \<le> i")
    case le: True
    have e: "64 * i + r - (64 * wn + bn) = 64 * (i - wn) + (r - bn)"
      using True le by (simp add: diff_mult_distrib2)
    have "r - bn < 64" using assms by simp
    note d = div_mod_block(1) [OF this, of "i - wn"] and m = div_mod_block(2) [OF this, of "i - wn"]
    have hi: "\<not> bit (drop_bit (64 - bn) (x :: u64)) r" if "0 < bn" for x
    proof -
      have "\<not> bit x (64 - bn + r)" using True assms that bit_word_bound [of x "64 - bn + r"] by auto
      then show ?thesis by (simp add: bit_simps)
    qed
    from le have n: "nat (int i - int wn) = i - wn" by simp
    show ?thesis
      using True le assms hi unfolding wbit_def e d m
      by (cases "bn = 0") (auto simp: shifted_word_def Let_def n bit_or_iff bit_push_bit_iff)
  next
    case gt: False
    then have "64 * i + r < 64 * wn + bn" using assms by linarith
    with gt show ?thesis
      by (auto simp: shifted_word_def Let_def)
  qed
next
  case False
  then have bn: "0 < bn" by simp
  show ?thesis
  proof (cases "wn < i")
    case lt: True
    have e: "64 * i + r - (64 * wn + bn) = 64 * (i - wn - 1) + (64 + r - bn)"
      using False lt assms by (simp add: diff_mult_distrib2)
    have "64 + r - bn < 64" using False by simp
    note d = div_mod_block(1) [OF this, of "i - wn - 1"]
      and m = div_mod_block(2) [OF this, of "i - wn - 1"]
    have n: "nat (int i - int wn - 1) = i - wn - 1" using lt by simp
    have le: "64 * wn + bn \<le> 64 * i + r" using lt assms by linarith
    have a: "64 - bn + r = 64 + r - bn" using assms by simp
    show ?thesis
      using False lt bn le assms unfolding wbit_def e d m
      by (simp add: shifted_word_def Let_def n bit_simps a)
  next
    case ge: False
    then have "64 * i + r < 64 * wn + bn" using False assms by linarith
    with ge False bn show ?thesis
      by (auto simp: shifted_word_def Let_def bit_simps)
  qed
qed

text \<open>The loop as a whole: the window is shifted by \<open>64 * wn + bn\<close> bits, no bit is lost or invented.\<close>

lemma wbit_shift_window:
  assumes "length w = 32" "k < 2048" "bn < 64"
  shows "wbit (shift_window wn bn 32 w) k \<longleftrightarrow> 64 * wn + bn \<le> k \<and> wbit w (k - (64 * wn + bn))"
proof -
  have i: "k div 64 < 32" using assms by simp
  have "shift_window wn bn 32 w ! (k div 64) = shifted_word wn bn w (k div 64)"
    using i assms by (simp add: shift_window_nth)
  then show ?thesis
    using bit_shifted_word [OF assms(3), of "k mod 64" wn w "k div 64"]
    by (simp add: wbit_def [of "shift_window wn bn 32 w"])
qed

lemma wbit_or_upd:
  assumes "length w = 32" "k < 2048" "j < 2048"
  shows "wbit (w[j div 64 := w ! (j div 64) OR push_bit (j mod 64) 1]) k \<longleftrightarrow> wbit w k \<or> k = j"
proof (cases "k div 64 = j div 64")
  case True
  then have "k = j \<longleftrightarrow> k mod 64 = j mod 64"
    by (metis div_mult_mod_eq)
  moreover have "bit (push_bit (j mod 64) 1 :: u64) (k mod 64) \<longleftrightarrow> k mod 64 = j mod 64"
    by (auto simp: bit_simps)
  ultimately show ?thesis
    using True assms by (auto simp: wbit_def bit_or_iff)
next
  case False
  then show ?thesis using assms by (auto simp: wbit_def)
qed

lemma wbit_zero [simp]: "k < 2048 \<Longrightarrow> \<not> wbit (replicate 32 0) k"
  by (simp add: wbit_def)

section \<open>The abstract filter\<close>

text \<open>The sequence numbers the window remembers.\<close>

definition seen :: "u64 \<Rightarrow> u64 list \<Rightarrow> int set" where
  "seen highest w = {uint highest - int k | k. k < 2048 \<and> wbit w k}"

text \<open>
  The specification, on unbounded numbers and a set: a number above the top moves the top and forgets
  what falls more than 2047 below it; a number at or below the top is accepted if it is unseen
  and less than 2048 below the top.
\<close>

definition replay_spec :: "int \<Rightarrow> int \<times> int set \<Rightarrow> bool \<times> int \<times> int set" where
  "replay_spec x st =
     (let (top, S) = st
      in if x > top then (True, x, {y \<in> insert x S. x - 2048 < y})
         else if x \<le> top - 2048 \<or> x \<in> S then (False, top, S)
         else (True, top, insert x S))"

definition replay_abs :: "int \<times> u64 \<times> u64 list \<Rightarrow> bool \<times> int \<times> int set" where
  "replay_abs r = (case r of (rc, h, w) \<Rightarrow> (rc = 0, uint h, seen h w))"

lemma seen_iff: "y \<in> seen h w \<longleftrightarrow> (uint h - 2048 < y \<and> y \<le> uint h \<and> wbit w (nat (uint h - y)))"
  by (auto simp: seen_def intro!: exI [of _ "nat (uint h - y)"])

lemma uint_diff_word: "(b :: u64) \<le> a \<Longrightarrow> uint (a - b) = uint a - uint b"
  by (simp add: uint_minus_simple_alt [THEN iffD1] word_le_def)

lemma unat_block:
  "64 * unat (d div 64 :: u64) + unat (d mod 64) = unat d" "unat (d mod 64 :: u64) < 64"
  "unat (d div 64 :: u64) = unat d div 64" "unat (d mod 64 :: u64) = unat d mod 64"
  by (simp_all add: unat_div unat_mod)

lemma window_size: "(of_nat (REPLAY_WINDOW_WORDS * 64) :: u64) = 2048" "REPLAY_WINDOW_WORDS = 32"
  by (simp_all add: const_defs)

lemma ge_2048: "(2048 :: u64) \<le> d \<longleftrightarrow> 2048 \<le> unat d"
  by (simp add: word_le_nat_alt)

lemma seen_advance:
  assumes "length w = 32" "length w' = 32" "h < s"
    and w': "\<And>k. k < 2048 \<Longrightarrow> wbit w' k \<longleftrightarrow> unat (s - h) \<le> k \<and> wbit w (k - unat (s - h))"
  shows "seen s (w'[0 := w' ! 0 OR 1]) = {y \<in> insert (uint s) (seen h w). uint s - 2048 < y}"
proof -
  have d: "int (unat (s - h)) = uint s - uint h"
    using assms(3) by (simp add: uint_diff_word)
  have lt: "uint h < uint s" using assms(3) by (simp add: word_less_def)
  have bits: "wbit (w'[0 := w' ! 0 OR 1]) k \<longleftrightarrow> wbit w' k \<or> k = 0" if "k < 2048" for k
    using wbit_or_upd [of w' k 0] assms(2) that by simp
  show ?thesis
  proof (rule set_eqI)
    fix y
    show "y \<in> seen s (w'[0 := w' ! 0 OR 1]) \<longleftrightarrow> y \<in> {y \<in> insert (uint s) (seen h w). uint s - 2048 < y}"
    proof (cases "uint s - 2048 < y \<and> y \<le> uint s")
      case True
      define k where "k = nat (uint s - y)"
      have k: "k < 2048" "y = uint s - int k" using True by (auto simp: k_def)
      have "unat (s - h) \<le> k \<longleftrightarrow> y \<le> uint h" using d k by linarith
      moreover have "k - unat (s - h) = nat (uint h - y)" if "y \<le> uint h"
        using d k that by linarith
      moreover have "k = 0 \<longleftrightarrow> y = uint s" using k by auto
      ultimately show ?thesis
        using True k bits [of k] w' [of k] lt by (auto simp: seen_iff k_def [symmetric])
    next
      case False
      then show ?thesis using lt by (auto simp: seen_iff)
    qed
  qed
qed

lemma check_replay_advance:
  assumes "length w = 32" "h < s"
  shows "\<exists>w'. check_replay s h w = (0, s, w') \<and> length w' = 32
           \<and> seen s w' = {y \<in> insert (uint s) (seen h w). uint s - 2048 < y}"
proof (cases "unat (s - h) \<ge> 2048")
  case True
  let ?w = "replicate 32 0 :: u64 list"
  have "check_replay s h w = (0, s, ?w[0 := ?w ! 0 OR 1])"
    using assms True by (simp add: check_replay_def Let_def window_size ge_2048)
  moreover have "seen s (?w[0 := ?w ! 0 OR 1]) = {y \<in> insert (uint s) (seen h w). uint s - 2048 < y}"
    using assms True by (intro seen_advance) auto
  ultimately show ?thesis by (simp add: length_list_update)
next
  case False
  let ?w = "shift_window (unat ((s - h) div 64)) (unat ((s - h) mod 64)) 32 w"
  have "check_replay s h w = (0, s, ?w[0 := ?w ! 0 OR 1])"
    using assms False by (simp add: check_replay_def Let_def window_size ge_2048)
  moreover have "seen s (?w[0 := ?w ! 0 OR 1]) = {y \<in> insert (uint s) (seen h w). uint s - 2048 < y}"
    using assms by (intro seen_advance) (simp_all add: wbit_shift_window unat_block)
  ultimately show ?thesis using assms by simp
qed

lemma check_replay_behind:
  assumes "length w = 32" "s \<le> h"
  shows "check_replay s h w =
           (if uint s \<le> uint h - 2048 \<or> uint s \<in> seen h w then (-1, h, w)
            else (0, h, w[unat (h - s) div 64 := w ! (unat (h - s) div 64) OR push_bit (unat (h - s) mod 64) 1]))"
proof -
  have d: "int (unat (h - s)) = uint h - uint s"
    using assms(2) by (simp add: uint_diff_word)
  have "uint s \<in> seen h w \<longleftrightarrow> bit (w ! (unat (h - s) div 64)) (unat (h - s) mod 64)"
    if "unat (h - s) < 2048"
  proof -
    have "uint h - 2048 < uint s" "uint s \<le> uint h" "nat (uint h - uint s) = unat (h - s)"
      using d that by linarith+
    then show ?thesis by (simp only: seen_iff wbit_def simp_thms)
  qed
  moreover have "uint s \<le> uint h - 2048 \<longleftrightarrow> 2048 \<le> unat (h - s)" using d by linarith
  moreover have "\<not> h < s" using assms(2) by simp
  ultimately show ?thesis
    by (simp add: check_replay_def Let_def window_size ge_2048 unat_block(3,4)
          bit_iff_and_push_bit_not_eq_0 [symmetric] del: push_bit_of_1)
qed

lemma seen_mark:
  assumes "length w = 32" "s \<le> h" "unat (h - s) < 2048"
  shows "seen h (w[unat (h - s) div 64 := w ! (unat (h - s) div 64) OR push_bit (unat (h - s) mod 64) 1])
           = insert (uint s) (seen h w)"
proof -
  define j where "j = unat (h - s)"
  have j: "j < 2048" "uint s = uint h - int j"
    using assms(2,3) by (simp_all add: j_def uint_diff_word)
  have "wbit (w[j div 64 := w ! (j div 64) OR push_bit (j mod 64) 1]) k \<longleftrightarrow> wbit w k \<or> k = j"
    if "k < 2048" for k
    using assms(1) that j(1) by (rule wbit_or_upd)
  then show ?thesis
    using j unfolding j_def [symmetric] seen_def by (auto simp del: push_bit_of_1)
qed

text \<open>Both branches together: a call of the code is a call of the specification.\<close>

lemma check_replay_refines:
  assumes "length w = 32"
  shows "replay_abs (check_replay s h w) = replay_spec (uint s) (uint h, seen h w)"
proof (cases "h < s")
  case True
  then have "uint h < uint s" by (simp add: word_less_def)
  moreover obtain w' where "check_replay s h w = (0, s, w')"
    and "seen s w' = {y \<in> insert (uint s) (seen h w). uint s - 2048 < y}"
    using check_replay_advance [OF assms True] by blast
  ultimately show ?thesis by (simp only: replay_abs_def replay_spec_def prod.case if_True Let_def simp_thms)
next
  case False
  then have le: "s \<le> h" and le': "\<not> uint h < uint s" by (simp_all add: word_less_def word_le_def)
  show ?thesis
  proof (cases "uint s \<le> uint h - 2048 \<or> uint s \<in> seen h w")
    case True
    then show ?thesis
      using le' by (simp add: check_replay_behind [OF assms le] replay_abs_def replay_spec_def)
  next
    case new: False
    have "int (unat (h - s)) = uint h - uint s"
      using le by (simp add: uint_diff_word)
    then have "unat (h - s) < 2048" using new by linarith
    from seen_mark [OF assms le this] show ?thesis
      using new le' by (simp add: check_replay_behind [OF assms le] replay_abs_def replay_spec_def)
  qed
qed

lemma check_replay_length:
  assumes "length w = 32" "check_replay s h w = (rc, h', w')"
  shows "length w' = 32"
proof (cases "h < s")
  case True
  then show ?thesis using check_replay_advance [OF assms(1) True] assms(2) by auto
next
  case False
  then show ?thesis
    using assms check_replay_behind [OF assms(1), of s h] by (auto split: if_splits)
qed

section \<open>Interface: a replay filter\<close>

text \<open>
  What the packet path relies on. \<open>check\<close> decides and updates; \<open>top\<close> and \<open>mem\<close> are what it remembers.
  The lemmas hold for any filter that keeps the three laws.
\<close>

fun filter_run :: "('n \<Rightarrow> 's \<Rightarrow> bool \<times> 's) \<Rightarrow> 's \<Rightarrow> 'n list \<Rightarrow> 'n list \<times> 's" where
  "filter_run check s [] = ([], s)"
| "filter_run check s (x # xs) =
     (case check x s of (ok, s') \<Rightarrow>
        (case filter_run check s' xs of (acc, s'') \<Rightarrow> (if ok then x # acc else acc, s'')))"

locale replay_filter =
  fixes check :: "'n \<Rightarrow> 's \<Rightarrow> bool \<times> 's"
    and num :: "'n \<Rightarrow> int"
    and top :: "'s \<Rightarrow> int"
    and mem :: "'s \<Rightarrow> int set"
    and inv :: "'s \<Rightarrow> bool"
  assumes inv_check: "inv s \<Longrightarrow> inv (snd (check x s))"
    and check_spec: "inv s \<Longrightarrow>
      (fst (check x s), top (snd (check x s)), mem (snd (check x s))) = replay_spec (num x) (top s, mem s)"
begin

text \<open>\<open>past A s\<close>: \<open>s\<close> remembers every number of \<open>A\<close> that is still inside the window, and nothing else.\<close>

definition past :: "int set \<Rightarrow> 's \<Rightarrow> bool" where
  "past A s \<longleftrightarrow> inv s \<and> mem s = {y \<in> A. top s - 2048 < y} \<and> (\<forall>y \<in> A. y \<le> top s)"

lemma accepts_iff:
  assumes "past A s"
  shows "fst (check x s) \<longleftrightarrow> num x \<notin> A \<and> top s - 2048 < num x"
  using check_spec [of s x] assms
  by (auto simp: past_def replay_spec_def split: if_splits)

lemma accepted_once:
  assumes "inv s" "fst (check x s)"
  shows "\<not> fst (check x (snd (check x s)))"
proof -
  note 1 = check_spec [OF assms(1), of x] and 2 = check_spec [OF inv_check [OF assms(1)], of x x]
  from 1 assms(2) have "num x \<in> mem (snd (check x s))" "num x \<le> top (snd (check x s))"
    by (auto simp: replay_spec_def split: if_splits)
  with 2 show ?thesis by (auto simp: replay_spec_def)
qed

lemma past_step:
  assumes "past A s"
  shows "past (if fst (check x s) then insert (num x) A else A) (snd (check x s))"
proof (cases "top s < num x")
  case True
  have i: "inv s" using assms by (simp add: past_def)
  have "num x \<notin> A" using assms True by (auto simp: past_def)
  then show ?thesis
    using check_spec [OF i, of x] inv_check [OF i, of x] assms True
    by (auto simp: past_def replay_spec_def)
next
  case False
  have i: "inv s" using assms by (simp add: past_def)
  then show ?thesis
    using check_spec [OF i, of x] inv_check [OF i, of x] assms False
    by (auto simp: past_def replay_spec_def split: if_splits)
qed

lemma run_sound:
  assumes "past A s"
  shows "num ` set (fst (filter_run check s xs)) \<inter> A = {}
         \<and> distinct (map num (fst (filter_run check s xs)))
         \<and> past (A \<union> num ` set (fst (filter_run check s xs))) (snd (filter_run check s xs))"
  using assms
proof (induction xs arbitrary: A s)
  case Nil
  then show ?case by simp
next
  case (Cons x xs)
  obtain ok s' where c: "check x s = (ok, s')" by (cases "check x s")
  let ?A = "if ok then insert (num x) A else A"
  have p: "past ?A s'" using past_step [OF Cons.prems, of x] c by simp
  obtain acc s'' where r: "filter_run check s' xs = (acc, s'')" by (cases "filter_run check s' xs")
  from Cons.IH [OF p] r
  have IH: "num ` set acc \<inter> ?A = {}" "distinct (map num acc)" "past (?A \<union> num ` set acc) s''"
    by auto
  have new: "ok \<Longrightarrow> num x \<notin> A" using accepts_iff [OF Cons.prems, of x] c by simp
  show ?case
  proof (cases ok)
    case True
    then show ?thesis using IH new c r by (auto simp: insert_commute)
  next
    case False
    then show ?thesis using IH c r by auto
  qed
qed

end

section \<open>The window as a filter\<close>

text \<open>The state of a session that the window uses, and the accept decision of the packet path.\<close>

type_synonym replay_state = "u64 \<times> u64 list"

definition replay_accept :: "u64 \<Rightarrow> replay_state \<Rightarrow> bool \<times> replay_state" where
  "replay_accept seq st = (case check_replay seq (fst st) (snd st) of (rc, h, w) \<Rightarrow> (\<not> rc < 0, (h, w)))"

definition replay_init :: replay_state where
  "replay_init = (0, replicate REPLAY_WINDOW_WORDS 0)"

lemma check_replay_rc: "fst (check_replay s h w) = 0 \<or> fst (check_replay s h w) = -1"
  by (auto simp: check_replay_def Let_def)

interpretation win: replay_filter replay_accept uint "\<lambda>st. uint (fst st)" "\<lambda>st. seen (fst st) (snd st)"
  "\<lambda>st. length (snd st) = 32"
proof
  fix st x
  assume "length (snd (st :: replay_state)) = 32"
  then show "length (snd (snd (replay_accept x st))) = 32"
    by (auto simp: replay_accept_def split: prod.splits dest: check_replay_length)
next
  fix st :: replay_state and x
  assume l: "length (snd st) = 32"
  obtain rc h w where c: "check_replay x (fst st) (snd st) = (rc, h, w)"
    by (cases "check_replay x (fst st) (snd st)")
  then have "rc = 0 \<or> rc = -1" using check_replay_rc [of x "fst st" "snd st"] by simp
  then have "(\<not> rc < 0) = (rc = 0)" by auto
  then show "(fst (replay_accept x st), uint (fst (snd (replay_accept x st))),
              seen (fst (snd (replay_accept x st))) (snd (snd (replay_accept x st))))
             = replay_spec (uint x) (uint (fst st), seen (fst st) (snd st))"
    using check_replay_refines [OF l, of x "fst st"] c by (simp add: replay_accept_def replay_abs_def)
qed

lemma check_replay_again:
  assumes "length w = REPLAY_WINDOW_WORDS" "check_replay x h w = (0, h', w')"
  shows "fst (check_replay x h' w') = -1"
proof -
  have "\<not> fst (replay_accept x (h', w'))"
    using win.accepted_once [of "(h, w)" x] assms by (simp add: replay_accept_def window_size)
  then show ?thesis
    using check_replay_rc [of x h' w'] by (auto simp: replay_accept_def split: prod.splits)
qed

lemma seen_clear: "seen h (replicate 32 0) = {}"
  by (auto simp: seen_def)

lemma win_past_init: "win.past {} replay_init"
  by (simp add: win.past_def replay_init_def window_size seen_clear)

section \<open>Properties\<close>

text \<open>C4. The bitmap window implements the abstract filter: for every window of 32 words, every
  \<open>highest\<close> and every \<open>seq\<close>, the return code, the new \<open>highest\<close> and the set of remembered
  numbers after \<open>check_replay\<close> are those of \<open>replay_spec\<close>.\<close>

theorem replay_window_refines:
  assumes "length window = REPLAY_WINDOW_WORDS"
  shows "replay_abs (check_replay seq highest window)
           = replay_spec (uint seq) (uint highest, seen highest window)"
  using assms by (intro check_replay_refines) (simp add: window_size)

theorem replay_window_refines_witness:
  "length (replicate 32 0 :: u64 list) = REPLAY_WINDOW_WORDS
   \<and> replay_abs (check_replay 70 3 (replicate 32 0))
       = replay_spec (uint (70 :: u64)) (uint (3 :: u64), seen 3 (replicate 32 0))
   \<and> fst (check_replay 70 3 (replicate 32 0)) = 0"
proof -
  have l: "length (replicate 32 0 :: u64 list) = REPLAY_WINDOW_WORDS" by (simp add: window_size)
  have "fst (check_replay 70 3 (replicate 32 0)) = 0" by (simp add: check_replay_def Let_def)
  with l replay_window_refines [OF l, of 70 3] show ?thesis by simp
qed

text \<open>C8. A fresh session never accepts a sequence number twice: whatever numbers arrive, in any
  order and with any repetitions, the accepted ones are pairwise different.\<close>

theorem replay_never_twice:
  "distinct (fst (filter_run replay_accept replay_init seqs))"
  using win.run_sound [OF win_past_init, of seqs] by (simp add: distinct_map)

text \<open>No packet inside the window is lost to the filter: after any history, a number is accepted
  exactly when it was not accepted before and lies above \<open>highest - 2048\<close>, and \<open>highest\<close> is an upper
  bound of everything accepted so far.\<close>

theorem replay_accept_exact:
  "(fst (replay_accept x (snd (filter_run replay_accept replay_init seqs))) \<longleftrightarrow>
      x \<notin> set (fst (filter_run replay_accept replay_init seqs))
      \<and> uint (fst (snd (filter_run replay_accept replay_init seqs))) - 2048 < uint x)
   \<and> set (fst (filter_run replay_accept replay_init seqs))
       \<subseteq> {y. y \<le> fst (snd (filter_run replay_accept replay_init seqs))}"
proof -
  have p: "win.past (uint ` set (fst (filter_run replay_accept replay_init seqs)))
             (snd (filter_run replay_accept replay_init seqs))"
    using win.run_sound [OF win_past_init, of seqs] by simp
  have m: "uint x \<in> uint ` A \<longleftrightarrow> x \<in> A" for A :: "u64 set"
    by (auto simp: image_iff unsigned_word_eqI dest: unsigned_word_eqI)
  from p have "set (fst (filter_run replay_accept replay_init seqs))
       \<subseteq> {y. y \<le> fst (snd (filter_run replay_accept replay_init seqs))}"
    by (auto simp: win.past_def word_le_def)
  with win.accepts_iff [OF p, of x] show ?thesis by (simp add: m)
qed

text \<open>C27. The in-place loop over the words is one left shift of the 2048-bit window: bit \<open>k\<close> of the
  result is bit \<open>k - d\<close> of the old window when \<open>d \<le> k\<close> and clear otherwise, for every distance
  \<open>d = 64 * wn + bn\<close> the caller passes.\<close>

theorem shift_loop_is_shift:
  assumes "length window = REPLAY_WINDOW_WORDS" and "bn < 64" and "k < REPLAY_WINDOW_WORDS * 64"
  shows "wbit (shift_window wn bn REPLAY_WINDOW_WORDS window) k
           \<longleftrightarrow> 64 * wn + bn \<le> k \<and> wbit window (k - (64 * wn + bn))"
  using assms wbit_shift_window by (simp add: window_size)

theorem shift_loop_is_shift_witness:
  "wbit (shift_window 1 3 REPLAY_WINDOW_WORDS (1 # replicate 31 0)) 67
     \<longleftrightarrow> 64 * 1 + 3 \<le> (67 :: nat) \<and> wbit (1 # replicate 31 0) (67 - (64 * 1 + 3))"
  by (rule shift_loop_is_shift) (simp_all add: window_size)

end
