(* ===== verification/Hex.thy ===== *)
theory Hex
  imports Tunnel_Prelude
begin

text \<open>
  The hexadecimal key format of \<^verbatim>\<open>src/src/common.c\<close>: \<open>bytes_to_hex\<close> prints bytes with
  \<^verbatim>\<open>%02x\<close>, \<open>hex_to_bytes\<close> reads them back with \<^verbatim>\<open>sscanf("%02x%n")\<close>. The directive is modelled as
  the C library specifies it (leading white space is skipped, a sign is taken), since
  the callers pass configuration text. C libraries differ on a field that is just \<^verbatim>\<open>0x\<close>: the
  standard calls it a matching failure, older GNU libraries read 0; the flag \<open>bare0x\<close> of the
  model selects the behaviour, and the lemmas hold for both.
\<close>

section \<open>The code\<close>

definition hexdigit :: "nat \<Rightarrow> char" where
  "hexdigit n = ''0123456789abcdef'' ! n"

definition sprintf_02x :: "byte \<Rightarrow> string" where
  "sprintf_02x b = [hexdigit (unat b div 16), hexdigit (unat b mod 16)]"

definition bytes_to_hex :: "bytes \<Rightarrow> nat \<Rightarrow> string" where
  "bytes_to_hex bs len = concat (map (\<lambda>i. sprintf_02x (bs ! i)) [0..<len])"

definition hexval :: "char \<Rightarrow> nat option" where
  "hexval c =
     (let n = of_char c :: nat
      in if 48 \<le> n \<and> n \<le> 57 then Some (n - 48)
         else if 97 \<le> n \<and> n \<le> 102 then Some (n - 87)
         else if 65 \<le> n \<and> n \<le> 70 then Some (n - 55)
         else None)"

definition c_isspace :: "char \<Rightarrow> bool" where
  "c_isspace c = (let n = of_char c :: nat in n = 32 \<or> 9 \<le> n \<and> n \<le> 13)"

fun hexnum :: "nat \<Rightarrow> string \<Rightarrow> nat" where
  "hexnum acc [] = acc"
| "hexnum acc (c # cs) = (case hexval c of Some d \<Rightarrow> hexnum (16 * acc + d) cs | None \<Rightarrow> acc)"

text \<open>
  \<^verbatim>\<open>sscanf(s, "%02x%n", &byte, &n)\<close>: \<open>None\<close> when it does not return 1, otherwise the converted
  \<^verbatim>\<open>unsigned int\<close> and \<open>n\<close>, the number of characters consumed.
\<close>

definition scan_02x :: "bool \<Rightarrow> string \<Rightarrow> (u32 \<times> nat) option" where
  "scan_02x bare0x s =
     (let ws = length (takeWhile c_isspace s);
          fld = take 2 (drop ws s)
      in case fld of
           [] \<Rightarrow> None
         | c # cs \<Rightarrow>
             if c = CHR ''-'' \<or> c = CHR ''+'' then
               (case takeWhile (\<lambda>d. hexval d \<noteq> None) cs of
                  [] \<Rightarrow> None
                | ds \<Rightarrow> Some (if c = CHR ''-'' then - word_of_nat (hexnum 0 ds) else word_of_nat (hexnum 0 ds),
                              ws + 1 + length ds))
             else if c = CHR ''0'' \<and> (cs = ''x'' \<or> cs = ''X'') then
               (if bare0x then Some (0, ws + 2) else None)
             else
               (case takeWhile (\<lambda>d. hexval d \<noteq> None) (c # cs) of
                  [] \<Rightarrow> None
                | ds \<Rightarrow> Some (word_of_nat (hexnum 0 ds), ws + length ds)))"

text \<open>The loop of \<open>hex_to_bytes\<close>, with the number of bytes still expected; \<open>None\<close> is the result -1.\<close>

fun hex_scan :: "bool \<Rightarrow> string \<Rightarrow> nat \<Rightarrow> bytes option" where
  "hex_scan bare0x hex 0 = Some []"
| "hex_scan bare0x hex (Suc n) =
     (case scan_02x bare0x hex of
        None \<Rightarrow> None
      | Some (v, k) \<Rightarrow>
          if k \<noteq> 2 then None
          else map_option (\<lambda>bs. ucast v # bs) (hex_scan bare0x (drop 2 hex) n))"

definition hex_to_bytes :: "bool \<Rightarrow> string \<Rightarrow> nat \<Rightarrow> bytes option" where
  "hex_to_bytes bare0x hex expected_len =
     (if length hex \<noteq> expected_len * 2 then None else hex_scan bare0x hex expected_len)"

section \<open>Digits\<close>

lemma hexval_hexdigit: "n < 16 \<Longrightarrow> hexval (hexdigit n) = Some n"
proof -
  assume "n < 16"
  then have "n \<in> set [0..<16]" by simp
  moreover have "\<forall>k \<in> set [0..<16]. hexval (hexdigit k) = Some k" by code_simp
  ultimately show ?thesis by blast
qed

lemma hexval_bound: "hexval c = Some d \<Longrightarrow> d < 16"
  by (auto simp: hexval_def Let_def split: if_splits)

text \<open>A hexadecimal digit is neither white space nor a sign nor the \<^verbatim>\<open>x\<close> of a prefix.\<close>

lemma hexval_Some_not_special:
  assumes "hexval c = Some d"
  shows "\<not> c_isspace c" "c \<noteq> CHR ''-''" "c \<noteq> CHR ''+''" "c \<noteq> CHR ''x''" "c \<noteq> CHR ''X''"
  using assms by (auto simp: hexval_def c_isspace_def Let_def split: if_splits)

lemma scan_02x_digits:
  assumes "hexval a = Some x" "hexval b = Some y"
  shows "scan_02x l (a # b # s) = Some (word_of_nat (16 * x + y), 2)"
  using assms hexval_Some_not_special [OF assms(1)] hexval_Some_not_special [OF assms(2)]
  by (simp add: scan_02x_def Let_def)

lemma ucast_of_nat_byte: "ucast (word_of_nat n :: u32) = (word_of_nat n :: byte)"
  by (rule bit_word_eqI) (simp add: bit_simps)

text \<open>The prefix of a string of digits is converted byte by byte.\<close>

fun hex_pairs :: "string \<Rightarrow> bytes" where
  "hex_pairs (a # b # s) = word_of_nat (16 * the (hexval a) + the (hexval b)) # hex_pairs s"
| "hex_pairs s = []"

lemma hex_scan_digits:
  "length hex = 2 * n \<Longrightarrow> \<forall>c \<in> set hex. hexval c \<noteq> None \<Longrightarrow> hex_scan l hex n = Some (hex_pairs hex)"
proof (induction n arbitrary: hex)
  case 0
  then show ?case by simp
next
  case (Suc n)
  then obtain a b s where hex: "hex = a # b # s" by (cases hex; cases "tl hex") auto
  obtain x y where xy: "hexval a = Some x" "hexval b = Some y" using Suc.prems(2) hex by auto
  have "hex_scan l s n = Some (hex_pairs s)" using Suc hex by auto
  then show ?case
    by (simp add: hex scan_02x_digits [OF xy] xy ucast_of_nat_byte del: of_nat_add of_nat_mult)
qed

lemma hex_scan_length: "hex_scan l hex n = Some bs \<Longrightarrow> length bs = n"
  by (induction n arbitrary: hex bs) (auto split: option.splits if_splits)

lemma bytes_to_hex_Suc:
  "bytes_to_hex (b # bs) (Suc n) = sprintf_02x b @ bytes_to_hex bs n"
proof -
  have "[0..<Suc n] = 0 # map Suc [0..<n]" by (simp add: upt_conv_Cons map_Suc_upt)
  then show ?thesis by (simp add: bytes_to_hex_def comp_def del: upt_Suc)
qed

lemma bytes_to_hex_0 [simp]: "bytes_to_hex bs 0 = []"
  by (simp add: bytes_to_hex_def)

lemma unat_byte_digits: "unat (b :: byte) div 16 < 16" "unat (b :: byte) mod 16 < 16"
proof -
  have "unat b < 256" by (rule order_less_le_trans [OF unsigned_less]) simp
  then show "unat b div 16 < 16" by (simp add: less_mult_imp_div_less)
qed simp

lemma bytes_to_hex_facts:
  "len \<le> length bs \<Longrightarrow>
     length (bytes_to_hex bs len) = 2 * len
     \<and> (\<forall>c \<in> set (bytes_to_hex bs len). hexval c \<noteq> None)
     \<and> hex_pairs (bytes_to_hex bs len) = take len bs"
proof (induction bs arbitrary: len)
  case Nil
  then show ?case by simp
next
  case (Cons b bs)
  show ?case
  proof (cases len)
    case 0
    then show ?thesis by simp
  next
    case (Suc n)
    with Cons.prems have "n \<le> length bs" by simp
    from Cons.IH [OF this] show ?thesis
      by (auto simp: Suc bytes_to_hex_Suc sprintf_02x_def hexval_hexdigit unat_byte_digits)
  qed
qed

interpretation hexc: codec "\<lambda>bs. bytes_to_hex bs (length bs)"
  "\<lambda>s. hex_to_bytes l s (length s div 2)" "\<lambda>_. True" for l
  by unfold_locales
    (simp add: hex_to_bytes_def hex_scan_digits bytes_to_hex_facts [OF order_refl])

section \<open>Properties\<close>

text \<open>C29. Reading back a printed key gives the key: \<open>hex_to_bytes\<close> inverts \<open>bytes_to_hex\<close> on every
  byte array, whatever the C library does with a bare \<^verbatim>\<open>0x\<close>.\<close>

theorem hex_roundtrip:
  assumes "len \<le> length bs"
  shows "hex_to_bytes bare0x (bytes_to_hex bs len) len = Some (take len bs)"
  using bytes_to_hex_facts [OF assms] by (simp add: hex_to_bytes_def hex_scan_digits)

theorem hex_roundtrip_witness:
  "bytes_to_hex [0xde, 0xad, 0xbe, 0xef] 4 = ''deadbeef''
   \<and> hex_to_bytes True (bytes_to_hex [0xde, 0xad, 0xbe, 0xef] 4) 4 = Some [0xde, 0xad, 0xbe, 0xef]"
proof -
  have "bytes_to_hex [0xde, 0xad, 0xbe, 0xef] 4 = ''deadbeef''" by code_simp
  with hex_roundtrip [of 4 "[0xde, 0xad, 0xbe, 0xef]" True] show ?thesis by simp
qed

text \<open>\<open>hex_to_bytes\<close> accepts every digit string of the right length, in either case, with the value
  of its digit pairs, and it rejects every string of another length.\<close>

theorem hex_to_bytes_digits:
  "(length hex = 2 * n \<and> list_all (\<lambda>c. hexval c \<noteq> None) hex \<longrightarrow>
      hex_to_bytes bare0x hex n = Some (hex_pairs hex))
   \<and> (length hex \<noteq> 2 * n \<longrightarrow> hex_to_bytes bare0x hex n = None)"
  by (auto simp: hex_to_bytes_def hex_scan_digits list_all_iff mult.commute)

theorem hex_to_bytes_digits_witness:
  "hex_to_bytes False ''DEadbeEF'' 4 = Some [0xde, 0xad, 0xbe, 0xef] \<and> hex_to_bytes False ''dead'' 4 = None"
proof -
  have "list_all (\<lambda>c. hexval c \<noteq> None) ''DEadbeEF''"
    and p: "hex_pairs ''DEadbeEF'' = [0xde, 0xad, 0xbe, 0xef]" by code_simp+
  then show ?thesis
    using hex_to_bytes_digits [of "''DEadbeEF''" 4 False] hex_to_bytes_digits [of "''dead''" 4 False]
    by simp
qed

text \<open>The check on the digits is weaker than ``two hexadecimal digits per byte'': the conversion
  also takes a sign or one leading blank, so \<^verbatim>\<open>-a\<close>, \<^verbatim>\<open>+a\<close> and \<^verbatim>\<open> a\<close> are accepted as bytes.\<close>

theorem hex_to_bytes_lax:
  "hex_to_bytes bare0x ''-a'' 1 = Some [0xf6]
   \<and> hex_to_bytes bare0x ''+a'' 1 = Some [0x0a]
   \<and> hex_to_bytes bare0x '' a'' 1 = Some [0x0a]"
  by (cases bare0x) (code_simp, code_simp)

end
