(* ===== verification/Env.thy ===== *)
theory Env
  imports Tunnel_Prelude
begin

text \<open>
  The world outside the program. OpenSSL, the clock, the sockets and the resolver are not part of the
  repository: they are the fields of the record \<open>env\<close>, an argument of every definition that uses
  them. Calls whose answer can change from one call to the next (time, random bytes, key generation,
  \<open>sendto\<close>, the resolver) take the number of the call, kept in the \<open>world\<close> record, so that
  nothing is assumed about their sequence of answers. What the program sends is the \<open>trace\<close> of
  the world. The documented laws of the cryptographic functions are named predicates on \<open>env\<close>;
  theorems that need one have it as a hypothesis.
\<close>

section \<open>Addresses\<close>

text \<open>
  \<open>sin_addr\<close> and \<open>sin_port\<close> are stored in network order by the code and only ever compared,
  copied and printed; the model stores the numbers themselves, so \<open>htons\<close> and \<open>ntohl\<close> on these
  fields are the identity.
\<close>

record sockaddr_in =
  s_addr :: u32
  sin_port :: "16 word"

text \<open>The comparison all lookups by address use.\<close>

definition same_addr :: "sockaddr_in \<Rightarrow> sockaddr_in \<Rightarrow> bool" where
  "same_addr a b \<longleftrightarrow> s_addr a = s_addr b \<and> sin_port a = sin_port b"

lemma same_addr_eq [simp]: "same_addr a b \<longleftrightarrow> a = b"
  by (auto simp: same_addr_def)

section \<open>The environment\<close>

text \<open>
  \<open>'k\<close> is the type of key objects (\<^verbatim>\<open>EVP_PKEY\<close>), \<open>'c\<close> of cipher contexts, \<open>'p\<close> of derivation
  contexts. \<open>None\<close> is the failure return of a call.
\<close>

record ('k, 'c, 'p) env =
  SHA256 :: "bytes \<Rightarrow> bytes"
  HMAC_sha256 :: "bytes \<Rightarrow> bytes \<Rightarrow> bytes option"
  EVP_EncryptInit_ex :: "bytes \<Rightarrow> bytes \<Rightarrow> 'c option"
  EVP_EncryptUpdate :: "'c \<Rightarrow> bytes \<Rightarrow> ('c \<times> bytes) option"
  EVP_EncryptFinal_ex :: "'c \<Rightarrow> ('c \<times> bytes) option"
  GCM_GET_TAG :: "'c \<Rightarrow> nat \<Rightarrow> bytes option"
  EVP_DecryptInit_ex :: "bytes \<Rightarrow> bytes \<Rightarrow> 'c option"
  EVP_DecryptUpdate :: "'c \<Rightarrow> bytes \<Rightarrow> ('c \<times> bytes) option"
  GCM_SET_TAG :: "'c \<Rightarrow> bytes \<Rightarrow> 'c option"
  EVP_DecryptFinal_ex :: "'c \<Rightarrow> bytes option"
  EVP_PKEY_get_raw_public_key :: "'k \<Rightarrow> bytes option"
  EVP_PKEY_new_raw_public_key :: "bytes \<Rightarrow> 'k option"
  EVP_PKEY_get_raw_private_key :: "'k \<Rightarrow> bytes option"
  EVP_PKEY_new_raw_private_key :: "bytes \<Rightarrow> 'k option"
  PEM_read_PrivateKey :: "bytes \<Rightarrow> 'k option"
  PEM_read_PUBKEY :: "bytes \<Rightarrow> 'k option"
  EVP_PKEY_CTX_new :: "'k \<Rightarrow> 'p option"
  EVP_PKEY_derive_init :: "'p \<Rightarrow> 'p option"
  EVP_PKEY_derive_set_peer :: "'p \<Rightarrow> 'k \<Rightarrow> 'p option"
  EVP_PKEY_derive :: "'p \<Rightarrow> bytes option"
  os_cipher_ctx :: "nat \<Rightarrow> bool"
  os_keygen :: "nat \<Rightarrow> 'k option"
  os_rand :: "nat \<Rightarrow> nat \<Rightarrow> bytes option"
  os_time :: "nat \<Rightarrow> int"
  os_sendto :: "nat \<Rightarrow> bool"
  os_write :: "nat \<Rightarrow> bool"
  os_fopen :: "nat \<Rightarrow> bool"
  os_fwrite :: "nat \<Rightarrow> nat \<Rightarrow> nat"
  os_getaddrinfo :: "nat \<Rightarrow> string \<Rightarrow> int \<Rightarrow> sockaddr_in option"

datatype out_event = Udp_Out sockaddr_in bytes | Tun_Out bytes

record world =
  calls :: nat
  trace :: "out_event list"
  files :: "string \<rightharpoonup> bytes"

definition fresh_world :: world where
  "fresh_world = \<lparr>calls = 0, trace = [], files = Map.empty\<rparr>"

section \<open>System calls\<close>

definition sys_time :: "('k, 'c, 'p) env \<Rightarrow> world \<Rightarrow> int \<times> world" where
  "sys_time E w = (os_time E (calls w), w\<lparr>calls := Suc (calls w)\<rparr>)"

definition sys_rand :: "('k, 'c, 'p) env \<Rightarrow> nat \<Rightarrow> world \<Rightarrow> bytes option \<times> world" where
  "sys_rand E n w = (os_rand E (calls w) n, w\<lparr>calls := Suc (calls w)\<rparr>)"

definition sys_keygen :: "('k, 'c, 'p) env \<Rightarrow> world \<Rightarrow> 'k option \<times> world" where
  "sys_keygen E w = (os_keygen E (calls w), w\<lparr>calls := Suc (calls w)\<rparr>)"

definition sys_cipher_ctx :: "('k, 'c, 'p) env \<Rightarrow> world \<Rightarrow> bool \<times> world" where
  "sys_cipher_ctx E w = (os_cipher_ctx E (calls w), w\<lparr>calls := Suc (calls w)\<rparr>)"

definition sys_getaddrinfo ::
    "('k, 'c, 'p) env \<Rightarrow> string \<Rightarrow> int \<Rightarrow> world \<Rightarrow> sockaddr_in option \<times> world" where
  "sys_getaddrinfo E host port w = (os_getaddrinfo E (calls w) host port, w\<lparr>calls := Suc (calls w)\<rparr>)"

text \<open>\<open>sendto\<close> and \<open>write\<close> return whether the call succeeded; what left the program is on the trace.\<close>

definition sys_sendto :: "('k, 'c, 'p) env \<Rightarrow> sockaddr_in \<Rightarrow> bytes \<Rightarrow> world \<Rightarrow> bool \<times> world" where
  "sys_sendto E a bs w =
     (let ok = os_sendto E (calls w)
      in (ok, w\<lparr>calls := Suc (calls w), trace := (if ok then trace w @ [Udp_Out a bs] else trace w)\<rparr>))"

definition sys_write :: "('k, 'c, 'p) env \<Rightarrow> bytes \<Rightarrow> world \<Rightarrow> bool \<times> world" where
  "sys_write E bs w =
     (let ok = os_write E (calls w)
      in (ok, w\<lparr>calls := Suc (calls w), trace := (if ok then trace w @ [Tun_Out bs] else trace w)\<rparr>))"

text \<open>
  \<open>fopen\<close> for reading needs the file; for writing it truncates or creates it. \<open>fwrite\<close> stores a prefix
  of the data (the code does not look at how much was stored).
\<close>

definition sys_fopen_rb :: "('k, 'c, 'p) env \<Rightarrow> string \<Rightarrow> world \<Rightarrow> bytes option \<times> world" where
  "sys_fopen_rb E path w =
     (if os_fopen E (calls w) then files w path else None, w\<lparr>calls := Suc (calls w)\<rparr>)"

definition sys_fopen_wb :: "('k, 'c, 'p) env \<Rightarrow> string \<Rightarrow> world \<Rightarrow> bool \<times> world" where
  "sys_fopen_wb E path w =
     (let ok = os_fopen E (calls w)
      in (ok, w\<lparr>calls := Suc (calls w), files := (if ok then (files w)(path \<mapsto> []) else files w)\<rparr>))"

definition sys_fwrite :: "('k, 'c, 'p) env \<Rightarrow> string \<Rightarrow> bytes \<Rightarrow> world \<Rightarrow> world" where
  "sys_fwrite E path bs w =
     w\<lparr>calls := Suc (calls w), files := (files w)(path \<mapsto> take (os_fwrite E (calls w) (length bs)) bs)\<rparr>"

lemmas sys_defs =
  sys_fopen_rb_def sys_fopen_wb_def sys_fwrite_def sys_time_def sys_rand_def sys_keygen_def sys_cipher_ctx_def sys_getaddrinfo_def
  sys_sendto_def sys_write_def

section \<open>Laws of the cryptographic functions\<close>

text \<open>The chain of calls by which the code encrypts and decrypts one message with AES-256-GCM.\<close>

definition gcm_seal :: "('k, 'c, 'p) env \<Rightarrow> bytes \<Rightarrow> bytes \<Rightarrow> bytes \<Rightarrow> (bytes \<times> bytes \<times> bytes) option" where
  "gcm_seal E key iv plain =
     (case EVP_EncryptInit_ex E key iv of None \<Rightarrow> None | Some c0 \<Rightarrow>
      case EVP_EncryptUpdate E c0 plain of None \<Rightarrow> None | Some (c1, o1) \<Rightarrow>
      case EVP_EncryptFinal_ex E c1 of None \<Rightarrow> None | Some (c2, o2) \<Rightarrow>
      case GCM_GET_TAG E c2 CRYPTO_TAG_LEN of None \<Rightarrow> None | Some tag \<Rightarrow> Some (o1, o2, tag))"

definition gcm_open :: "('k, 'c, 'p) env \<Rightarrow> bytes \<Rightarrow> bytes \<Rightarrow> bytes \<Rightarrow> bytes \<Rightarrow> (bytes \<times> bytes) option" where
  "gcm_open E key iv ct tag =
     (case EVP_DecryptInit_ex E key iv of None \<Rightarrow> None | Some c0 \<Rightarrow>
      case EVP_DecryptUpdate E c0 ct of None \<Rightarrow> None | Some (c1, o1) \<Rightarrow>
      case GCM_SET_TAG E c1 tag of None \<Rightarrow> None | Some c2 \<Rightarrow>
      case EVP_DecryptFinal_ex E c2 of None \<Rightarrow> None | Some o2 \<Rightarrow> Some (o1, o2))"

text \<open>
  GCM preserves length, yields a 16-byte tag, and opens what it sealed under the same key and IV.
\<close>

definition gcm_correct :: "('k, 'c, 'p) env \<Rightarrow> bool" where
  "gcm_correct E \<longleftrightarrow>
     (\<forall>key iv plain o1 o2 tag. gcm_seal E key iv plain = Some (o1, o2, tag) \<longrightarrow>
        length (o1 @ o2) = length plain \<and> length tag = CRYPTO_TAG_LEN
        \<and> (\<exists>p1 p2. gcm_open E key iv (o1 @ o2) tag = Some (p1, p2) \<and> p1 @ p2 = plain))"

text \<open>
  GCM is deterministic and its tag is checked on decryption: what opens is exactly what sealing the
  plaintext under that key and IV gives.
\<close>

definition gcm_authentic :: "('k, 'c, 'p) env \<Rightarrow> bool" where
  "gcm_authentic E \<longleftrightarrow>
     (\<forall>key iv ct tag p1 p2. gcm_open E key iv ct tag = Some (p1, p2) \<longrightarrow>
        (\<exists>o1 o2. gcm_seal E key iv (p1 @ p2) = Some (o1, o2, tag) \<and> o1 @ o2 = ct))"

text \<open>\<open>RAND_bytes\<close> fills the buffer it is given.\<close>

definition rand_fills :: "('k, 'c, 'p) env \<Rightarrow> bool" where
  "rand_fills E \<longleftrightarrow> (\<forall>i n bs. os_rand E i n = Some bs \<longrightarrow> length bs = n)"

lemma gcm_correctD:
  assumes "gcm_correct E" "gcm_seal E key iv plain = Some (o1, o2, tag)"
  shows "length o1 + length o2 = length plain" "length tag = CRYPTO_TAG_LEN"
    and "\<exists>p1 p2. gcm_open E key iv (o1 @ o2) tag = Some (p1, p2) \<and> p1 @ p2 = plain"
  using assms by (auto simp: gcm_correct_def)

lemma gcm_authenticD:
  assumes "gcm_authentic E" "gcm_open E key iv ct tag = Some (p1, p2)"
  shows "\<exists>o1 o2. gcm_seal E key iv (p1 @ p2) = Some (o1, o2, tag) \<and> o1 @ o2 = ct"
  using assms by (auto simp: gcm_authentic_def)

end
