(* ===== verification/Crypto.thy ===== *)
theory Crypto
  imports Env
begin

text \<open>
  The cryptographic routines of \<^verbatim>\<open>src/src/common.c\<close>: packet encryption, identity encryption, the
  X25519 exchange, the key schedule, and the handling of key files. Each function keeps the order of
  the OpenSSL calls and every failure exit; a failure (-1) is \<open>None\<close>.
\<close>

section \<open>The code\<close>

definition derive_key :: "('k, 'c, 'p) env \<Rightarrow> string \<Rightarrow> bytes" where
  "derive_key E psk = SHA256 E (map of_char psk)"

definition encrypt_packet ::
    "('k, 'c, 'p) env \<Rightarrow> bytes \<Rightarrow> bytes \<Rightarrow> world \<Rightarrow> bytes option \<times> world" where
  "encrypt_packet E key plain w =
     (case sys_rand E CRYPTO_IV_LEN w of
        (None, w1) \<Rightarrow> (None, w1)
      | (Some iv, w1) \<Rightarrow>
          (case gcm_seal E key iv plain of
             None \<Rightarrow> (None, w1)
           | Some (o1, o2, tag) \<Rightarrow> (Some (iv @ o1 @ o2 @ tag), w1)))"

definition decrypt_packet :: "('k, 'c, 'p) env \<Rightarrow> bytes \<Rightarrow> bytes \<Rightarrow> bytes option" where
  "decrypt_packet E key inp =
     (if length inp < CRYPTO_OVERHEAD then None
      else
        let iv = take CRYPTO_IV_LEN inp;
            ciphertext_len = length inp - CRYPTO_OVERHEAD;
            ciphertext = sub_bytes CRYPTO_IV_LEN ciphertext_len inp;
            tag = drop (length inp - CRYPTO_TAG_LEN) inp
        in (case gcm_open E key iv ciphertext tag of
              None \<Rightarrow> None
            | Some (o1, o2) \<Rightarrow> Some (o1 @ o2)))"

definition generate_eph_keypair ::
    "('k, 'c, 'p) env \<Rightarrow> world \<Rightarrow> ('k \<times> bytes) option \<times> world" where
  "generate_eph_keypair E w =
     (case sys_keygen E w of
        (None, w1) \<Rightarrow> (None, w1)
      | (Some pkey, w1) \<Rightarrow>
          (case EVP_PKEY_get_raw_public_key E pkey of
             None \<Rightarrow> (None, w1)
           | Some pub \<Rightarrow> (Some (pkey, pub), w1)))"

definition load_or_generate_static_key ::
    "('k, 'c, 'p) env \<Rightarrow> string \<Rightarrow> world \<Rightarrow> ('k \<times> bytes) option \<times> world" where
  "load_or_generate_static_key E path w =
     (case sys_fopen_rb E path w of
        (Some content, w1) \<Rightarrow>
          (let priv = take DH_PUBKEY_LEN content
           in if length priv = DH_PUBKEY_LEN then
                (case EVP_PKEY_new_raw_private_key E priv of
                   None \<Rightarrow> (None, w1)
                 | Some pkey \<Rightarrow>
                     (case EVP_PKEY_get_raw_public_key E pkey of
                        None \<Rightarrow> (None, w1)
                      | Some pub \<Rightarrow> (Some (pkey, pub), w1)))
              else (None, w1))
      | (None, w1) \<Rightarrow>
          (case generate_eph_keypair E w1 of
             (None, w2) \<Rightarrow> (None, w2)
           | (Some (pkey, pub), w2) \<Rightarrow>
               (case EVP_PKEY_get_raw_private_key E pkey of
                  None \<Rightarrow> (None, w2)
                | Some priv \<Rightarrow>
                    (case sys_fopen_wb E path w2 of
                       (False, w3) \<Rightarrow> (None, w3)
                     | (True, w3) \<Rightarrow> (Some (pkey, pub), sys_fwrite E path priv w3)))))"

definition load_public_key :: "('k, 'c, 'p) env \<Rightarrow> string \<Rightarrow> world \<Rightarrow> bytes option \<times> world" where
  "load_public_key E path w =
     (case sys_fopen_rb E path w of
        (None, w1) \<Rightarrow> (None, w1)
      | (Some content, w1) \<Rightarrow>
          (case PEM_read_PUBKEY E content of
             None \<Rightarrow> (None, w1)
           | Some pkey \<Rightarrow> (EVP_PKEY_get_raw_public_key E pkey, w1)))"

definition load_static_key ::
    "('k, 'c, 'p) env \<Rightarrow> string \<Rightarrow> world \<Rightarrow> ('k \<times> bytes) option \<times> world" where
  "load_static_key E path w =
     (case sys_fopen_rb E path w of
        (None, w1) \<Rightarrow> (None, w1)
      | (Some content, w1) \<Rightarrow>
          (case PEM_read_PrivateKey E content of
             None \<Rightarrow> (None, w1)
           | Some pkey \<Rightarrow>
               (case EVP_PKEY_get_raw_public_key E pkey of
                  None \<Rightarrow> (None, w1)
                | Some pub \<Rightarrow> (Some (pkey, pub), w1))))"

definition x25519_shared_secret :: "('k, 'c, 'p) env \<Rightarrow> 'k \<Rightarrow> bytes \<Rightarrow> bytes option" where
  "x25519_shared_secret E my_key peer_pub =
     (case EVP_PKEY_new_raw_public_key E peer_pub of
        None \<Rightarrow> None
      | Some peer_key \<Rightarrow>
          (case EVP_PKEY_CTX_new E my_key of
             None \<Rightarrow> None
           | Some c0 \<Rightarrow>
               (case EVP_PKEY_derive_init E c0 of
                  None \<Rightarrow> None
                | Some c1 \<Rightarrow>
                    (case EVP_PKEY_derive_set_peer E c1 peer_key of
                       None \<Rightarrow> None
                     | Some c2 \<Rightarrow> EVP_PKEY_derive E c2))))"

definition derive_session_key ::
    "('k, 'c, 'p) env \<Rightarrow> bytes \<Rightarrow> bytes \<Rightarrow> bytes \<Rightarrow> bytes \<Rightarrow> bytes \<Rightarrow> bytes \<Rightarrow> bytes \<Rightarrow> bytes" where
  "derive_session_key E ecdh_eph ecdh_sc_es ecdh_ec_ss client_eph_pub server_eph_pub
       client_static_pub server_static_pub =
     SHA256 E (ecdh_eph @ ecdh_sc_es @ ecdh_ec_ss @ client_eph_pub @ server_eph_pub
               @ client_static_pub @ server_static_pub)"

definition compute_hmac :: "('k, 'c, 'p) env \<Rightarrow> bytes \<Rightarrow> bytes \<Rightarrow> bytes option" where
  "compute_hmac E psk_key msg = HMAC_sha256 E psk_key msg"

text \<open>\<open>put_at out off bs\<close>: bytes written into an array at an offset.\<close>

definition put_at :: "bytes \<Rightarrow> nat \<Rightarrow> bytes \<Rightarrow> bytes" where
  "put_at out off bs = take off out @ bs @ drop (off + length bs) out"

text \<open>\<open>out\<close> is the caller's array before the call.\<close>

definition encrypt_identity ::
    "('k, 'c, 'p) env \<Rightarrow> bytes \<Rightarrow> bytes \<Rightarrow> bytes \<Rightarrow> world \<Rightarrow> bytes option \<times> world" where
  "encrypt_identity E key_material pub out w =
     (let key = SHA256 E key_material;
          iv = replicate CRYPTO_IV_LEN 0
      in case sys_cipher_ctx E w of
           (False, w1) \<Rightarrow> (None, w1)
         | (True, w1) \<Rightarrow>
             (case gcm_seal E key iv pub of
                None \<Rightarrow> (None, w1)
              | Some (o1, o2, tag) \<Rightarrow>
                  (Some (put_at (put_at (put_at out 0 o1) (length o1) o2) DH_PUBKEY_LEN tag), w1)))"

definition decrypt_identity ::
    "('k, 'c, 'p) env \<Rightarrow> bytes \<Rightarrow> bytes \<Rightarrow> bytes \<Rightarrow> world \<Rightarrow> bytes option \<times> world" where
  "decrypt_identity E key_material inp pub_out w =
     (let key = SHA256 E key_material;
          iv = replicate CRYPTO_IV_LEN 0;
          tag = sub_bytes DH_PUBKEY_LEN CRYPTO_TAG_LEN inp
      in case sys_cipher_ctx E w of
           (False, w1) \<Rightarrow> (None, w1)
         | (True, w1) \<Rightarrow>
             (case gcm_open E key iv (take DH_PUBKEY_LEN inp) tag of
                None \<Rightarrow> (None, w1)
              | Some (o1, o2) \<Rightarrow> (Some (put_at (put_at pub_out 0 o1) (length o1) o2), w1)))"

section \<open>Packets\<close>

lemma encrypt_packet_SomeD:
  assumes "encrypt_packet E key plain w = (Some out, w')"
  obtains iv o1 o2 tag where "os_rand E (calls w) CRYPTO_IV_LEN = Some iv"
    "gcm_seal E key iv plain = Some (o1, o2, tag)" "out = iv @ o1 @ o2 @ tag"
  using assms by (auto simp: encrypt_packet_def sys_rand_def split: option.splits)

lemma encrypt_packet_world:
  "snd (encrypt_packet E key plain w) = w\<lparr>calls := Suc (calls w)\<rparr>"
  by (auto simp: encrypt_packet_def sys_rand_def split: option.splits)

text \<open>A frame is cut back into IV, ciphertext and tag.\<close>

lemma decrypt_packet_frame:
  assumes "length iv = CRYPTO_IV_LEN" "length tag = CRYPTO_TAG_LEN"
  shows "decrypt_packet E key (iv @ ct @ tag) =
           (case gcm_open E key iv ct tag of None \<Rightarrow> None | Some (o1, o2) \<Rightarrow> Some (o1 @ o2))"
  using assms by (simp add: decrypt_packet_def Let_def sub_bytes_def CRYPTO_OVERHEAD_def)

lemma frame_split:
  assumes "CRYPTO_OVERHEAD \<le> length inp"
  shows "inp = take CRYPTO_IV_LEN inp @ sub_bytes CRYPTO_IV_LEN (length inp - CRYPTO_OVERHEAD) inp
                 @ drop (length inp - CRYPTO_TAG_LEN) inp"
proof -
  have "drop (length inp - CRYPTO_TAG_LEN) inp
          = drop (length inp - CRYPTO_OVERHEAD) (drop CRYPTO_IV_LEN inp)"
    using assms by (simp add: CRYPTO_OVERHEAD_def)
  then show ?thesis
    by (metis append_take_drop_id sub_bytes_def)
qed

lemma decrypt_packet_SomeD:
  assumes "decrypt_packet E key inp = Some plain"
  obtains iv ct tag p1 p2 where "inp = iv @ ct @ tag" "length iv = CRYPTO_IV_LEN"
    "length tag = CRYPTO_TAG_LEN" "gcm_open E key iv ct tag = Some (p1, p2)" "plain = p1 @ p2"
proof -
  have len: "CRYPTO_OVERHEAD \<le> length inp"
    using assms by (auto simp: decrypt_packet_def split: if_splits)
  then obtain p1 p2 where
    "gcm_open E key (take CRYPTO_IV_LEN inp) (sub_bytes CRYPTO_IV_LEN (length inp - CRYPTO_OVERHEAD) inp)
       (drop (length inp - CRYPTO_TAG_LEN) inp) = Some (p1, p2)" "plain = p1 @ p2"
    using assms by (auto simp: decrypt_packet_def Let_def split: if_splits option.splits)
  then show ?thesis
    using len by (intro that [OF frame_split [OF len]]) (auto simp: CRYPTO_OVERHEAD_def)
qed

lemma decrypt_encrypt_packet:
  assumes "gcm_correct E" "rand_fills E" "encrypt_packet E key plain w = (Some out, w')"
  shows "decrypt_packet E key out = Some plain" and "length out = length plain + CRYPTO_OVERHEAD"
proof -
  from assms(3) obtain iv o1 o2 tag where iv: "os_rand E (calls w) CRYPTO_IV_LEN = Some iv"
    and seal: "gcm_seal E key iv plain = Some (o1, o2, tag)" and out: "out = iv @ o1 @ o2 @ tag"
    by (rule encrypt_packet_SomeD)
  have l: "length iv = CRYPTO_IV_LEN" using assms(2) iv by (auto simp: rand_fills_def)
  note c = gcm_correctD [OF assms(1) seal]
  show "length out = length plain + CRYPTO_OVERHEAD"
    using l c(1,2) by (simp add: out CRYPTO_OVERHEAD_def)
  have "out = iv @ (o1 @ o2) @ tag" by (simp add: out)
  then show "decrypt_packet E key out = Some plain"
    using c(3) decrypt_packet_frame [OF l c(2), of E key "o1 @ o2"] by auto
qed

lemma decrypt_packet_sealed:
  assumes "gcm_authentic E" "decrypt_packet E key inp = Some plain"
  obtains iv o1 o2 tag where "inp = iv @ o1 @ o2 @ tag" "length iv = CRYPTO_IV_LEN"
    "length tag = CRYPTO_TAG_LEN" "gcm_seal E key iv plain = Some (o1, o2, tag)"
proof -
  from assms(2) obtain iv ct tag p1 p2 where d: "inp = iv @ ct @ tag" "length iv = CRYPTO_IV_LEN"
      "length tag = CRYPTO_TAG_LEN" "gcm_open E key iv ct tag = Some (p1, p2)" "plain = p1 @ p2"
    by (rule decrypt_packet_SomeD)
  from gcm_authenticD [OF assms(1) d(4)] obtain o1 o2
    where "gcm_seal E key iv plain = Some (o1, o2, tag)" "o1 @ o2 = ct"
    using d(5) by auto
  with d that show ?thesis by auto
qed

lemma decrypt_packet_length:
  assumes "gcm_correct E" "gcm_authentic E" "decrypt_packet E key inp = Some plain"
  shows "length inp = length plain + CRYPTO_OVERHEAD"
proof -
  from assms(2,3) obtain iv o1 o2 tag where d: "inp = iv @ o1 @ o2 @ tag" "length iv = CRYPTO_IV_LEN"
    "length tag = CRYPTO_TAG_LEN" "gcm_seal E key iv plain = Some (o1, o2, tag)"
    by (rule decrypt_packet_sealed)
  from gcm_correctD(1) [OF assms(1) d(4)] d show ?thesis by (simp add: CRYPTO_OVERHEAD_def)
qed

section \<open>Identities\<close>

lemma put_at_length: "off + length bs \<le> length out \<Longrightarrow> length (put_at out off bs) = length out"
  by (simp add: put_at_def)

text \<open>Under the lengths GCM guarantees, every byte of the caller's array is overwritten.\<close>

lemma put_at_cover:
  assumes "length o1 + length o2 = DH_PUBKEY_LEN" "length tag = CRYPTO_TAG_LEN"
    and "length out = HS_ENCRYPTED_PUB_LEN"
  shows "put_at (put_at (put_at out 0 o1) (length o1) o2) DH_PUBKEY_LEN tag = o1 @ o2 @ tag"
  using assms by (simp add: put_at_def HS_ENCRYPTED_PUB_LEN_def flip: assms(1))

lemma encrypt_identity_SomeD:
  assumes "gcm_correct E" "length pub = DH_PUBKEY_LEN" "length out = HS_ENCRYPTED_PUB_LEN"
    and "encrypt_identity E km pub out w = (Some enc, w')"
  obtains ct tag where "enc = ct @ tag" "length ct = DH_PUBKEY_LEN" "length tag = CRYPTO_TAG_LEN"
    "\<exists>p1 p2. gcm_open E (SHA256 E km) (replicate CRYPTO_IV_LEN 0) ct tag = Some (p1, p2) \<and> p1 @ p2 = pub"
    "w' = w\<lparr>calls := Suc (calls w)\<rparr>"
proof -
  from assms(4) obtain o1 o2 tag where
      seal: "gcm_seal E (SHA256 E km) (replicate CRYPTO_IV_LEN 0) pub = Some (o1, o2, tag)"
    and enc: "enc = put_at (put_at (put_at out 0 o1) (length o1) o2) DH_PUBKEY_LEN tag"
    and w: "w' = w\<lparr>calls := Suc (calls w)\<rparr>"
    by (auto simp: encrypt_identity_def Let_def sys_cipher_ctx_def split: option.splits bool.splits)
  note c = gcm_correctD [OF assms(1) seal]
  have "enc = (o1 @ o2) @ tag"
    using put_at_cover [of o1 o2 tag out] c(1,2) assms(2,3) enc by simp
  then show ?thesis
    using c(1,2) assms(2) w by (intro that [OF _ _ _ c(3)]) auto
qed

text \<open>What one side encrypts under a shared secret the other side decrypts to the same public key.\<close>

lemma decrypt_encrypt_identity:
  assumes "gcm_correct E" "length pub = DH_PUBKEY_LEN" "length out = HS_ENCRYPTED_PUB_LEN"
    and "length pub_out = DH_PUBKEY_LEN"
    and "encrypt_identity E km pub out w = (Some enc, w')"
    and "os_cipher_ctx E (calls v)"
  shows "decrypt_identity E km enc pub_out v = (Some pub, v\<lparr>calls := Suc (calls v)\<rparr>)"
    and "length enc = HS_ENCRYPTED_PUB_LEN"
proof -
  from assms(1,2,3,5) obtain ct tag where enc: "enc = ct @ tag" "length ct = DH_PUBKEY_LEN"
      "length tag = CRYPTO_TAG_LEN"
    and op: "\<exists>p1 p2. gcm_open E (SHA256 E km) (replicate CRYPTO_IV_LEN 0) ct tag = Some (p1, p2)
               \<and> p1 @ p2 = pub"
    by (rule encrypt_identity_SomeD)
  from op obtain p1 p2 where p: "p1 @ p2 = pub"
    and o: "gcm_open E (SHA256 E km) (replicate CRYPTO_IV_LEN 0) ct tag = Some (p1, p2)" by auto
  have "length p1 + length p2 = DH_PUBKEY_LEN" using p assms(2) by (metis length_append)
  then have "put_at (put_at pub_out 0 p1) (length p1) p2 = pub"
    using assms(4) p by (simp add: put_at_def)
  then show "decrypt_identity E km enc pub_out v = (Some pub, v\<lparr>calls := Suc (calls v)\<rparr>)"
    using enc o assms(6)
    by (simp add: decrypt_identity_def Let_def sys_cipher_ctx_def sub_bytes_suffix)
  show "length enc = HS_ENCRYPTED_PUB_LEN"
    using enc by (simp add: HS_ENCRYPTED_PUB_LEN_def)
qed

end
