(* ===== verification/Sample_Env.thy ===== *)
theory Sample_Env
  imports Crypto
begin

text \<open>
  A concrete environment that satisfies the laws of \<open>Env\<close>, used to evaluate the definitions on
  concrete inputs: a cipher that leaves the data in place and appends a checked tag, key objects that
  are numbers with multiplication as the shared secret, and system calls that always succeed.
  It is only an instance on which the hypotheses of the theorems hold together.
\<close>

definition pad32 :: "bytes \<Rightarrow> bytes" where
  "pad32 bs = take 32 (bs @ replicate 32 0)"

definition sample_tag :: "bytes \<Rightarrow> bytes \<Rightarrow> bytes \<Rightarrow> bytes" where
  "sample_tag key iv ct = replicate 16 (sum_list key + sum_list iv + sum_list ct)"

type_synonym sample_ctx = "bytes \<times> bytes \<times> bytes \<times> bytes"

definition sample_env :: "(nat, sample_ctx, nat \<times> nat) env" where
  "sample_env = \<lparr>
     SHA256 = pad32,
     HMAC_sha256 = (\<lambda>k m. Some (pad32 (sum_list m # k))),
     EVP_EncryptInit_ex = (\<lambda>key iv. Some (key, iv, [], [])),
     EVP_EncryptUpdate = (\<lambda>(key, iv, d, t) bs. Some ((key, iv, bs, t), bs)),
     EVP_EncryptFinal_ex = (\<lambda>c. Some (c, [])),
     GCM_GET_TAG = (\<lambda>(key, iv, d, t) n. Some (sample_tag key iv d)),
     EVP_DecryptInit_ex = (\<lambda>key iv. Some (key, iv, [], [])),
     EVP_DecryptUpdate = (\<lambda>(key, iv, d, t) bs. Some ((key, iv, bs, t), bs)),
     GCM_SET_TAG = (\<lambda>(key, iv, d, t) tag. Some (key, iv, d, tag)),
     EVP_DecryptFinal_ex = (\<lambda>(key, iv, d, t). if t = sample_tag key iv d then Some [] else None),
     EVP_PKEY_get_raw_public_key = (\<lambda>k. Some (be_bytes 32 k)),
     EVP_PKEY_new_raw_public_key = (\<lambda>bs. Some (be_value bs)),
     EVP_PKEY_get_raw_private_key = (\<lambda>k. Some (be_bytes 32 k)),
     EVP_PKEY_new_raw_private_key = (\<lambda>bs. Some (be_value bs)),
     PEM_read_PrivateKey = (\<lambda>bs. Some (be_value bs)),
     PEM_read_PUBKEY = (\<lambda>bs. Some (be_value bs)),
     EVP_PKEY_CTX_new = (\<lambda>k. Some (k, 0)),
     EVP_PKEY_derive_init = (\<lambda>c. Some c),
     EVP_PKEY_derive_set_peer = (\<lambda>(k, _) p. Some (k, p)),
     EVP_PKEY_derive = (\<lambda>(k, p). Some (be_bytes 32 (k * p))),
     os_cipher_ctx = (\<lambda>_. True),
     os_keygen = (\<lambda>i. Some (i + 5)),
     os_rand = (\<lambda>i n. Some (replicate n (of_nat i))),
     os_time = (\<lambda>i. 1000 + int i),
     os_sendto = (\<lambda>_. True),
     os_write = (\<lambda>_. True),
     os_fopen = (\<lambda>_. True),
     os_fwrite = (\<lambda>_ n. n),
     os_getaddrinfo = (\<lambda>_ _ _. Some \<lparr>s_addr = 0x0a000001, sin_port = 5040\<rparr>)\<rparr>"

lemma sample_seal [simp]:
  "gcm_seal sample_env key iv plain = Some (plain, [], sample_tag key iv plain)"
  by (simp add: gcm_seal_def sample_env_def)

lemma sample_open [simp]:
  "gcm_open sample_env key iv ct tag = (if tag = sample_tag key iv ct then Some (ct, []) else None)"
  by (simp add: gcm_open_def sample_env_def)

lemma length_sample_tag [simp]: "length (sample_tag key iv ct) = CRYPTO_TAG_LEN"
  by (simp add: sample_tag_def const_defs)

lemma sample_gcm_correct: "gcm_correct sample_env"
  by (simp add: gcm_correct_def)

lemma sample_gcm_authentic: "gcm_authentic sample_env"
  by (auto simp: gcm_authentic_def)

lemma sample_rand_fills: "rand_fills sample_env"
  by (auto simp: rand_fills_def sample_env_def)

lemma sample_oracles [simp]:
  "os_cipher_ctx sample_env i" "os_sendto sample_env i" "os_write sample_env i" "os_fopen sample_env i"
  "os_keygen sample_env i = Some (i + 5)" "os_time sample_env i = 1000 + int i"
  "os_rand sample_env i n = Some (replicate n (of_nat i))" "os_fwrite sample_env i n = n"
  by (simp_all add: sample_env_def)

lemma sample_secret [simp]:
  "x25519_shared_secret sample_env k pub = Some (be_bytes 32 (k * be_value pub))"
  by (simp add: x25519_shared_secret_def sample_env_def)

lemma sample_keys [simp]:
  "EVP_PKEY_get_raw_public_key sample_env k = Some (be_bytes 32 k)"
  "EVP_PKEY_get_raw_private_key sample_env k = Some (be_bytes 32 k)"
  "EVP_PKEY_new_raw_private_key sample_env bs = Some (be_value bs)"
  "HMAC_sha256 sample_env key m = Some (pad32 (sum_list m # key))"
  "SHA256 sample_env m = pad32 m"
  by (simp_all add: sample_env_def)

end
