(* ===== verification/Handshake.thy ===== *)
theory Handshake
  imports Sample_Env
begin

text \<open>
  The three handshake routines of \<^verbatim>\<open>src/src/common.c\<close>: \<open>handshake_client_send\<close>,
  \<open>handshake_server_respond\<close> and \<open>handshake_client_recv\<close>, with every early exit. The theory shows that
  a completed exchange gives both sides the same session key and the right identities, and what each
  side checks before it accepts.
\<close>

section \<open>The code\<close>

record 'k hs_client_state =
  eph_key :: "'k option"
  eph_pub :: bytes
  ecdh_ec_ss :: bytes

text \<open>
  \<^verbatim>\<open>[magic][eph_pub][enc_static(48)][HMAC(psk, eph_pub||enc_static)]?\<close>, as both directions build it;
  \<open>None\<close> when the HMAC computation fails.
\<close>

definition hs_frame :: "('k, 'c, 'p) env \<Rightarrow> bytes option \<Rightarrow> bytes \<Rightarrow> bytes \<Rightarrow> bytes option" where
  "hs_frame E psk_key pub enc =
     (case psk_key of
        None \<Rightarrow> Some (pkt_header @ pub @ enc)
      | Some psk \<Rightarrow>
          (case compute_hmac E psk (pub @ enc) of
             None \<Rightarrow> None
           | Some h \<Rightarrow> Some (pkt_header @ pub @ enc @ h)))"

definition handshake_client_send ::
    "('k, 'c, 'p) env \<Rightarrow> sockaddr_in \<Rightarrow> bytes option \<Rightarrow> bytes \<Rightarrow> bytes option \<Rightarrow> world
       \<Rightarrow> 'k hs_client_state option \<times> world" where
  "handshake_client_send E server_addr psk_key static_pub server_static_pub w =
     (case server_static_pub of
        None \<Rightarrow> (None, w)
      | Some ssp \<Rightarrow>
     (case generate_eph_keypair E w of
        (None, w1) \<Rightarrow> (None, w1)
      | (Some (ek, ep), w1) \<Rightarrow>
     (case x25519_shared_secret E ek ssp of
        None \<Rightarrow> (None, w1)
      | Some ec_ss \<Rightarrow>
     (case encrypt_identity E ec_ss static_pub (replicate HS_ENCRYPTED_PUB_LEN 0) w1 of
        (None, w2) \<Rightarrow> (None, w2)
      | (Some enc_static, w2) \<Rightarrow>
     (case hs_frame E psk_key ep enc_static of
        None \<Rightarrow> (None, w2)
      | Some pkt \<Rightarrow>
     (case sys_sendto E server_addr pkt w2 of
        (False, w3) \<Rightarrow> (None, w3)
      | (True, w3) \<Rightarrow> (Some \<lparr>eph_key = Some ek, eph_pub = ep, ecdh_ec_ss = ec_ss\<rparr>, w3)))))))"

text \<open>The size both receivers expect.\<close>

definition hs_size :: "bytes option \<Rightarrow> nat" where
  "hs_size psk_key =
     HEADER_SIZE + DH_PUBKEY_LEN + HS_ENCRYPTED_PUB_LEN + (if psk_key = None then 0 else HMAC_LEN)"

text \<open>The HMAC test of both receivers: computed over the 80 bytes after the magic.\<close>

definition hs_hmac_ok :: "('k, 'c, 'p) env \<Rightarrow> bytes option \<Rightarrow> bytes \<Rightarrow> bool" where
  "hs_hmac_ok E psk_key pkt =
     (case psk_key of
        None \<Rightarrow> True
      | Some psk \<Rightarrow>
          (case compute_hmac E psk (sub_bytes HEADER_SIZE (DH_PUBKEY_LEN + HS_ENCRYPTED_PUB_LEN) pkt) of
             None \<Rightarrow> False
           | Some h \<Rightarrow> sub_bytes (HEADER_SIZE + DH_PUBKEY_LEN + HS_ENCRYPTED_PUB_LEN) HMAC_LEN pkt = h))"

text \<open>A missing key object (\<open>NULL\<close>) makes the derivation fail.\<close>

definition x25519_opt :: "('k, 'c, 'p) env \<Rightarrow> 'k option \<Rightarrow> bytes \<Rightarrow> bytes option" where
  "x25519_opt E k pub = (case k of None \<Rightarrow> None | Some k' \<Rightarrow> x25519_shared_secret E k' pub)"

definition handshake_client_recv ::
    "('k, 'c, 'p) env \<Rightarrow> bytes \<Rightarrow> bytes option \<Rightarrow> 'k \<Rightarrow> bytes \<Rightarrow> bytes \<Rightarrow> 'k hs_client_state \<Rightarrow> world
       \<Rightarrow> (bytes option \<times> 'k hs_client_state) \<times> world" where
  "handshake_client_recv E resp psk_key static_key static_pub server_static_pub st w =
     (if length resp \<noteq> hs_size psk_key then ((None, st), w)
      else if take HEADER_SIZE resp \<noteq> pkt_header then ((None, st), w)
      else
        let server_eph_pub = sub_bytes HEADER_SIZE DH_PUBKEY_LEN resp;
            enc_server_static = sub_bytes (HEADER_SIZE + DH_PUBKEY_LEN) HS_ENCRYPTED_PUB_LEN resp
        in if \<not> hs_hmac_ok E psk_key resp then ((None, st), w)
           else
     (case x25519_opt E (eph_key st) server_eph_pub of
        None \<Rightarrow> ((None, st), w)
      | Some ecdh_eph \<Rightarrow>
     (case decrypt_identity E ecdh_eph enc_server_static (replicate DH_PUBKEY_LEN 0) w of
        (None, w1) \<Rightarrow> ((None, st), w1)
      | (Some server_static_pub_recv, w1) \<Rightarrow>
          if server_static_pub_recv \<noteq> server_static_pub then ((None, st), w1)
          else
     (case x25519_shared_secret E static_key server_eph_pub of
        None \<Rightarrow> ((None, st), w1)
      | Some ecdh_sc_es \<Rightarrow>
          ((Some (derive_session_key E ecdh_eph ecdh_sc_es (ecdh_ec_ss st) (eph_pub st) server_eph_pub
                    static_pub server_static_pub_recv),
            st\<lparr>eph_key := None\<rparr>), w1)))))"

definition handshake_server_respond ::
    "('k, 'c, 'p) env \<Rightarrow> bytes \<Rightarrow> sockaddr_in \<Rightarrow> bytes option \<Rightarrow> 'k \<Rightarrow> bytes \<Rightarrow> 'k option \<Rightarrow> bytes \<Rightarrow> world
       \<Rightarrow> (bytes \<times> bytes) option \<times> world" where
  "handshake_server_respond E pkt peer_addr psk_key static_key static_pub precomp_eph_key precomp_eph_pub w =
     (if length pkt \<noteq> hs_size psk_key then (None, w)
      else if take HEADER_SIZE pkt \<noteq> pkt_header then (None, w)
      else
        let client_eph_pub = sub_bytes HEADER_SIZE DH_PUBKEY_LEN pkt;
            enc_client_static = sub_bytes (HEADER_SIZE + DH_PUBKEY_LEN) HS_ENCRYPTED_PUB_LEN pkt
        in if \<not> hs_hmac_ok E psk_key pkt then (None, w)
           else
     (case x25519_shared_secret E static_key client_eph_pub of
        None \<Rightarrow> (None, w)
      | Some ec_ss \<Rightarrow>
     (case decrypt_identity E ec_ss enc_client_static (replicate DH_PUBKEY_LEN 0) w of
        (None, w1) \<Rightarrow> (None, w1)
      | (Some client_static_pub, w1) \<Rightarrow>
     (case x25519_opt E precomp_eph_key client_eph_pub of
        None \<Rightarrow> (None, w1)
      | Some ecdh_eph \<Rightarrow>
     (case encrypt_identity E ecdh_eph static_pub (replicate HS_ENCRYPTED_PUB_LEN 0) w1 of
        (None, w2) \<Rightarrow> (None, w2)
      | (Some enc_server_static, w2) \<Rightarrow>
     (case hs_frame E psk_key precomp_eph_pub enc_server_static of
        None \<Rightarrow> (None, w2)
      | Some resp \<Rightarrow>
     (case sys_sendto E peer_addr resp w2 of
        (False, w3) \<Rightarrow> (None, w3)
      | (True, w3) \<Rightarrow>
     (case x25519_opt E precomp_eph_key client_static_pub of
        None \<Rightarrow> (None, w3)
      | Some ecdh_sc_es \<Rightarrow>
          (Some (client_static_pub,
                 derive_session_key E ecdh_eph ecdh_sc_es ec_ss client_eph_pub precomp_eph_pub
                   client_static_pub static_pub), w3)))))))))"

section \<open>Frames\<close>

text \<open>HMAC-SHA256 gives 32 bytes.\<close>

definition hmac_length :: "('k, 'c, 'p) env \<Rightarrow> bool" where
  "hmac_length E \<longleftrightarrow> (\<forall>k m h. HMAC_sha256 E k m = Some h \<longrightarrow> length h = HMAC_LEN)"

text \<open>X25519: both sides of an exchange compute the same secret.\<close>

definition x25519_agrees :: "('k, 'c, 'p) env \<Rightarrow> bool" where
  "x25519_agrees E \<longleftrightarrow>
     (\<forall>a b pa pb. EVP_PKEY_get_raw_public_key E a = Some pa \<longrightarrow>
        EVP_PKEY_get_raw_public_key E b = Some pb \<longrightarrow>
        x25519_shared_secret E a pb = x25519_shared_secret E b pa)"

text \<open>A well-formed frame passes the receiver's syntactic tests and yields its fields.\<close>

lemma hs_frame_parts:
  assumes "hmac_length E" "hs_frame E psk pub enc = Some pkt"
    and "length pub = DH_PUBKEY_LEN" "length enc = HS_ENCRYPTED_PUB_LEN"
  shows "length pkt = hs_size psk" "take HEADER_SIZE pkt = pkt_header"
    "sub_bytes HEADER_SIZE DH_PUBKEY_LEN pkt = pub"
    "sub_bytes (HEADER_SIZE + DH_PUBKEY_LEN) HS_ENCRYPTED_PUB_LEN pkt = enc"
    "hs_hmac_ok E psk pkt"
proof -
  from assms(1,2) obtain h where pkt: "pkt = pkt_header @ pub @ enc @ h"
    and h: "psk = None \<Longrightarrow> h = []"
      "\<And>k. psk = Some k \<Longrightarrow> compute_hmac E k (pub @ enc) = Some h \<and> length h = HMAC_LEN"
    by (cases psk) (auto simp: hs_frame_def hmac_length_def compute_hmac_def split: option.splits)
  show "length pkt = hs_size psk"
    using assms(3,4) h by (cases psk) (auto simp: pkt hs_size_def)
  show "take HEADER_SIZE pkt = pkt_header" by (simp add: pkt)
  show "sub_bytes HEADER_SIZE DH_PUBKEY_LEN pkt = pub"
    using assms(3) by (simp add: pkt sub_bytes_mid)
  show "sub_bytes (HEADER_SIZE + DH_PUBKEY_LEN) HS_ENCRYPTED_PUB_LEN pkt = enc"
    using sub_bytes_mid [of "pkt_header @ pub" _ enc _ h] assms(3,4) by (simp add: pkt)
  have "sub_bytes HEADER_SIZE (DH_PUBKEY_LEN + HS_ENCRYPTED_PUB_LEN) pkt = pub @ enc"
    using sub_bytes_mid [of pkt_header _ "pub @ enc" _ h] assms(3,4) by (simp add: pkt)
  moreover have "sub_bytes (HEADER_SIZE + DH_PUBKEY_LEN + HS_ENCRYPTED_PUB_LEN) (length h) pkt = h"
    using sub_bytes_suffix [of "pkt_header @ pub @ enc" _ h] assms(3,4) by (simp add: pkt add.assoc)
  ultimately show "hs_hmac_ok E psk pkt"
    using h(2) by (cases psk) (auto simp: hs_hmac_ok_def)
qed

section \<open>Inversion\<close>

lemma generate_eph_keypair_SomeD:
  assumes "generate_eph_keypair E w = (Some (k, pub), w')"
  shows "EVP_PKEY_get_raw_public_key E k = Some pub" "w' = w\<lparr>calls := Suc (calls w)\<rparr>"
  using assms by (auto simp: generate_eph_keypair_def sys_keygen_def split: option.splits)

lemma generate_eph_keypair_world: "snd (generate_eph_keypair E w) = w\<lparr>calls := Suc (calls w)\<rparr>"
  by (auto simp: generate_eph_keypair_def sys_keygen_def split: option.splits)

lemma identity_world:
  "encrypt_identity E km pub out w = (r, w') \<Longrightarrow> w' = w\<lparr>calls := Suc (calls w)\<rparr>"
  "decrypt_identity E km inp out w = (r, w') \<Longrightarrow> w' = w\<lparr>calls := Suc (calls w)\<rparr>"
  by (auto simp: encrypt_identity_def decrypt_identity_def sys_cipher_ctx_def Let_def
        split: option.splits bool.splits)

lemma client_send_SomeD:
  assumes "handshake_client_send E a psk spub (Some ssp) w = (Some st, w')"
  obtains ek ep ec_ss enc pkt w1 w2 where
    "generate_eph_keypair E w = (Some (ek, ep), w1)"
    "x25519_shared_secret E ek ssp = Some ec_ss"
    "encrypt_identity E ec_ss spub (replicate HS_ENCRYPTED_PUB_LEN 0) w1 = (Some enc, w2)"
    "hs_frame E psk ep enc = Some pkt"
    "st = \<lparr>eph_key = Some ek, eph_pub = ep, ecdh_ec_ss = ec_ss\<rparr>"
    "trace w' = trace w @ [Udp_Out a pkt]"
proof -
  from assms obtain ek ep w1 where g: "generate_eph_keypair E w = (Some (ek, ep), w1)"
    by (auto simp: handshake_client_send_def split: option.splits prod.splits)
  from assms g obtain ec_ss where x: "x25519_shared_secret E ek ssp = Some ec_ss"
    by (auto simp: handshake_client_send_def split: option.splits prod.splits)
  from assms g x obtain enc w2
    where e: "encrypt_identity E ec_ss spub (replicate HS_ENCRYPTED_PUB_LEN 0) w1 = (Some enc, w2)"
    by (auto simp: handshake_client_send_def split: option.splits prod.splits)
  from assms g x e obtain pkt where f: "hs_frame E psk ep enc = Some pkt"
    by (auto simp: handshake_client_send_def split: option.splits prod.splits)
  have "w2 = w\<lparr>calls := Suc (Suc (calls w))\<rparr>"
    using identity_world(1) [OF e] generate_eph_keypair_SomeD(2) [OF g] by simp
  with assms g x e f that show ?thesis
    by (auto simp: handshake_client_send_def sys_sendto_def Let_def split: if_splits bool.splits)
qed

lemma client_send_None:
  assumes "handshake_client_send E a psk spub (Some ssp) w = (None, w')"
  shows "trace w' = trace w"
proof (cases "fst (generate_eph_keypair E w)")
  case None
  then show ?thesis
    using assms generate_eph_keypair_world [of E w]
    by (cases "generate_eph_keypair E w") (auto simp: handshake_client_send_def)
next
  case (Some kp)
  then obtain ek ep w1 where g: "generate_eph_keypair E w = (Some (ek, ep), w1)" and w1: "trace w1 = trace w"
    using generate_eph_keypair_world [of E w] by (cases "generate_eph_keypair E w"; cases kp) auto
  show ?thesis
    using assms w1
    by (auto simp: handshake_client_send_def g sys_sendto_def Let_def dest!: identity_world(1)
          split: option.splits prod.splits if_splits bool.splits)
qed

lemma server_respond_SomeD:
  assumes "handshake_server_respond E pkt a psk sk spub pk ppub w = (Some (cp, key), w')"
  obtains ec_ss ecdh_eph ecdh_sc_es enc resp w1 w2 where
    "length pkt = hs_size psk" "take HEADER_SIZE pkt = pkt_header" "hs_hmac_ok E psk pkt"
    "x25519_shared_secret E sk (sub_bytes HEADER_SIZE DH_PUBKEY_LEN pkt) = Some ec_ss"
    "decrypt_identity E ec_ss (sub_bytes (HEADER_SIZE + DH_PUBKEY_LEN) HS_ENCRYPTED_PUB_LEN pkt)
       (replicate DH_PUBKEY_LEN 0) w = (Some cp, w1)"
    "x25519_opt E pk (sub_bytes HEADER_SIZE DH_PUBKEY_LEN pkt) = Some ecdh_eph"
    "encrypt_identity E ecdh_eph spub (replicate HS_ENCRYPTED_PUB_LEN 0) w1 = (Some enc, w2)"
    "hs_frame E psk ppub enc = Some resp"
    "x25519_opt E pk cp = Some ecdh_sc_es"
    "key = derive_session_key E ecdh_eph ecdh_sc_es ec_ss (sub_bytes HEADER_SIZE DH_PUBKEY_LEN pkt)
             ppub cp spub"
    "trace w' = trace w @ [Udp_Out a resp]"
proof -
  let ?ce = "sub_bytes HEADER_SIZE DH_PUBKEY_LEN pkt"
  let ?en = "sub_bytes (HEADER_SIZE + DH_PUBKEY_LEN) HS_ENCRYPTED_PUB_LEN pkt"
  from assms have syn: "length pkt = hs_size psk" "take HEADER_SIZE pkt = pkt_header" "hs_hmac_ok E psk pkt"
    by (auto simp: handshake_server_respond_def Let_def split: if_splits)
  note r = assms [unfolded handshake_server_respond_def Let_def, simplified syn simp_thms if_False if_True]
  from r obtain ec_ss where 1: "x25519_shared_secret E sk ?ce = Some ec_ss"
    by (auto split: option.splits)
  from r 1 obtain cp' w1 where 2: "decrypt_identity E ec_ss ?en (replicate DH_PUBKEY_LEN 0) w = (Some cp', w1)"
    by (auto split: option.splits prod.splits)
  from r 1 2 obtain ecdh_eph where 3: "x25519_opt E pk ?ce = Some ecdh_eph"
    by (auto split: option.splits prod.splits)
  from r 1 2 3 obtain enc w2
    where 4: "encrypt_identity E ecdh_eph spub (replicate HS_ENCRYPTED_PUB_LEN 0) w1 = (Some enc, w2)"
    by (auto split: option.splits prod.splits)
  from r 1 2 3 4 obtain resp where 5: "hs_frame E psk ppub enc = Some resp"
    by (auto split: option.splits prod.splits)
  have w2: "w2 = w\<lparr>calls := Suc (Suc (calls w))\<rparr>"
    using identity_world(1) [OF 4] identity_world(2) [OF 2] by simp
  from r 1 2 3 4 5 obtain ecdh_sc_es where 6: "x25519_opt E pk cp' = Some ecdh_sc_es" "cp' = cp"
      "key = derive_session_key E ecdh_eph ecdh_sc_es ec_ss ?ce ppub cp spub"
      "trace w' = trace w @ [Udp_Out a resp]"
    by (auto simp: sys_sendto_def Let_def w2 split: option.splits prod.splits if_splits bool.splits)
  from syn 1 2 3 4 5 6 show ?thesis by (intro that) auto
qed

lemma client_recv_SomeD:
  assumes "handshake_client_recv E resp psk sk spub ssp st w = ((Some key, st'), w')"
  obtains ecdh_eph ecdh_sc_es where
    "length resp = hs_size psk" "take HEADER_SIZE resp = pkt_header" "hs_hmac_ok E psk resp"
    "x25519_opt E (eph_key st) (sub_bytes HEADER_SIZE DH_PUBKEY_LEN resp) = Some ecdh_eph"
    "decrypt_identity E ecdh_eph (sub_bytes (HEADER_SIZE + DH_PUBKEY_LEN) HS_ENCRYPTED_PUB_LEN resp)
       (replicate DH_PUBKEY_LEN 0) w = (Some ssp, w')"
    "x25519_shared_secret E sk (sub_bytes HEADER_SIZE DH_PUBKEY_LEN resp) = Some ecdh_sc_es"
    "key = derive_session_key E ecdh_eph ecdh_sc_es (ecdh_ec_ss st) (eph_pub st)
             (sub_bytes HEADER_SIZE DH_PUBKEY_LEN resp) spub ssp"
    "st' = st\<lparr>eph_key := None\<rparr>"
  using assms
  by (auto simp: handshake_client_recv_def Let_def split: if_splits option.splits prod.splits)

lemma client_recv_world:
  assumes "handshake_client_recv E resp psk sk spub ssp st w = (r, w')"
  shows "trace w' = trace w" "files w' = files w"
  using assms
  by (auto simp: handshake_client_recv_def Let_def dest!: identity_world(2)
        split: if_splits option.splits prod.splits)

section \<open>Properties\<close>

text \<open>X25519 public keys are 32 bytes.\<close>

definition pub_length :: "('k, 'c, 'p) env \<Rightarrow> bool" where
  "pub_length E \<longleftrightarrow> (\<forall>k pub. EVP_PKEY_get_raw_public_key E k = Some pub \<longrightarrow> length pub = DH_PUBKEY_LEN)"

lemma x25519_agreesD:
  "x25519_agrees E \<Longrightarrow> EVP_PKEY_get_raw_public_key E a = Some pa \<Longrightarrow>
     EVP_PKEY_get_raw_public_key E b = Some pb \<Longrightarrow> x25519_shared_secret E a pb = x25519_shared_secret E b pa"
  unfolding x25519_agrees_def by blast

lemma sample_laws: "hmac_length sample_env" "x25519_agrees sample_env" "pub_length sample_env"
proof -
  show "hmac_length sample_env" by (auto simp: hmac_length_def pad32_def const_defs)
  show "pub_length sample_env" by (auto simp: pub_length_def const_defs)
  have "be_bytes 32 (a * be_value (be_bytes 32 b)) = be_bytes 32 (b * be_value (be_bytes 32 a))" for a b
    by (metis be_bytes_mult_mod mult.commute)
  then show "x25519_agrees sample_env" by (simp add: x25519_agrees_def)
qed

text \<open>What an initiation that was sent contains, and how the responder's parser sees it.\<close>

lemma client_frame:
  assumes "gcm_correct E" "hmac_length E" "pub_length E" "length cpub = DH_PUBKEY_LEN"
    and "handshake_client_send E sa psk cpub (Some spub) w0 = (Some st, w1)"
    and "trace w1 = trace w0 @ [Udp_Out sa pkt]"
  obtains ek ep ec_ss enc v1 v2 where
    "EVP_PKEY_get_raw_public_key E ek = Some ep" "x25519_shared_secret E ek spub = Some ec_ss"
    "encrypt_identity E ec_ss cpub (replicate HS_ENCRYPTED_PUB_LEN 0) v1 = (Some enc, v2)"
    "st = \<lparr>eph_key = Some ek, eph_pub = ep, ecdh_ec_ss = ec_ss\<rparr>"
    "length pkt = hs_size psk" "take HEADER_SIZE pkt = pkt_header" "hs_hmac_ok E psk pkt"
    "sub_bytes HEADER_SIZE DH_PUBKEY_LEN pkt = ep"
    "sub_bytes (HEADER_SIZE + DH_PUBKEY_LEN) HS_ENCRYPTED_PUB_LEN pkt = enc"
proof -
  from assms(5) obtain ek ep ec_ss enc pkt' v1 v2 where
      c: "generate_eph_keypair E w0 = (Some (ek, ep), v1)" "x25519_shared_secret E ek spub = Some ec_ss"
        "encrypt_identity E ec_ss cpub (replicate HS_ENCRYPTED_PUB_LEN 0) v1 = (Some enc, v2)"
        "hs_frame E psk ep enc = Some pkt'" "st = \<lparr>eph_key = Some ek, eph_pub = ep, ecdh_ec_ss = ec_ss\<rparr>"
        "trace w1 = trace w0 @ [Udp_Out sa pkt']"
    by (rule client_send_SomeD)
  note ep = generate_eph_keypair_SomeD(1) [OF c(1)]
  have "length ep = DH_PUBKEY_LEN" using ep assms(3) by (auto simp: pub_length_def)
  moreover have "length enc = HS_ENCRYPTED_PUB_LEN"
    using assms(1,4) _ c(3) by (rule encrypt_identity_SomeD) (auto simp: HS_ENCRYPTED_PUB_LEN_def)
  ultimately show ?thesis
    using hs_frame_parts [OF assms(2) c(4)] c assms(6) by (intro that [OF ep c(2,3,5)]) auto
qed

text \<open>What an answer that was sent contains, and how the client's parser sees it.\<close>

lemma server_frame:
  assumes "gcm_correct E" "hmac_length E" "length spub = DH_PUBKEY_LEN" "length ppub = DH_PUBKEY_LEN"
    and "handshake_server_respond E pkt ca psk sk spub (Some pk) ppub w2 = (Some (peer, key), w3)"
    and "trace w3 = trace w2 @ [Udp_Out ca resp]"
  obtains ec_ss ecdh_eph ecdh_sc_es enc u1 u2 where
    "x25519_shared_secret E sk (sub_bytes HEADER_SIZE DH_PUBKEY_LEN pkt) = Some ec_ss"
    "decrypt_identity E ec_ss (sub_bytes (HEADER_SIZE + DH_PUBKEY_LEN) HS_ENCRYPTED_PUB_LEN pkt)
       (replicate DH_PUBKEY_LEN 0) w2 = (Some peer, u1)"
    "x25519_shared_secret E pk (sub_bytes HEADER_SIZE DH_PUBKEY_LEN pkt) = Some ecdh_eph"
    "x25519_shared_secret E pk peer = Some ecdh_sc_es"
    "key = derive_session_key E ecdh_eph ecdh_sc_es ec_ss (sub_bytes HEADER_SIZE DH_PUBKEY_LEN pkt)
             ppub peer spub"
    "encrypt_identity E ecdh_eph spub (replicate HS_ENCRYPTED_PUB_LEN 0) u1 = (Some enc, u2)"
    "length resp = hs_size psk" "take HEADER_SIZE resp = pkt_header" "hs_hmac_ok E psk resp"
    "sub_bytes HEADER_SIZE DH_PUBKEY_LEN resp = ppub"
    "sub_bytes (HEADER_SIZE + DH_PUBKEY_LEN) HS_ENCRYPTED_PUB_LEN resp = enc"
  using assms(5)
proof (rule server_respond_SomeD, goal_cases)
  case s: (1 ec_ss ecdh_eph ecdh_sc_es enc resp' u1 u2)
  have "length enc = HS_ENCRYPTED_PUB_LEN"
    using assms(1,3) _ s(8) by (rule encrypt_identity_SomeD) (auto simp: HS_ENCRYPTED_PUB_LEN_def)
  then show ?case
    using hs_frame_parts [OF assms(2) s(9) assms(4)] s assms(6)
    by (intro s(1) [OF s(5,6) _ _ s(11,8)]) (auto simp: x25519_opt_def)
qed

text \<open>
  An environment in which no call fails: every context is allocated, every datagram is sent, and the
  primitives succeed on arguments of the right size.
\<close>

definition nothing_fails :: "('k, 'c, 'p) env \<Rightarrow> bool" where
  "nothing_fails E \<longleftrightarrow>
     (\<forall>i. os_cipher_ctx E i \<and> os_sendto E i \<and> os_keygen E i \<noteq> None)
     \<and> (\<forall>k. EVP_PKEY_get_raw_public_key E k \<noteq> None)
     \<and> (\<forall>k p. length p = DH_PUBKEY_LEN \<longrightarrow> x25519_shared_secret E k p \<noteq> None)
     \<and> (\<forall>key iv m. gcm_seal E key iv m \<noteq> None) \<and> (\<forall>k m. HMAC_sha256 E k m \<noteq> None)"

lemma sample_nothing_fails: "nothing_fails sample_env"
  by (simp add: nothing_fails_def)

lemma nothing_failsD:
  assumes "nothing_fails E"
  shows "os_cipher_ctx E i" "os_sendto E i" "\<exists>k. os_keygen E i = Some k"
    "\<exists>p. EVP_PKEY_get_raw_public_key E k = Some p"
    "length pub = DH_PUBKEY_LEN \<Longrightarrow> \<exists>s. x25519_shared_secret E k pub = Some s"
    "\<exists>o1 o2 tag. gcm_seal E key iv m = Some (o1, o2, tag)" "\<exists>h. HMAC_sha256 E pk m = Some h"
  using assms by (auto simp: nothing_fails_def)

lemma hs_frame_total: "nothing_fails E \<Longrightarrow> \<exists>pkt. hs_frame E psk pub enc = Some pkt"
  by (cases psk) (auto simp: hs_frame_def compute_hmac_def dest!: nothing_failsD(7) split: option.split)

lemma encrypt_identity_total:
  "nothing_fails E \<Longrightarrow>
     \<exists>enc. encrypt_identity E km pub out w = (Some enc, w\<lparr>calls := Suc (calls w)\<rparr>)"
  using nothing_failsD(1,6) [of E]
  by (fastforce simp: encrypt_identity_def sys_cipher_ctx_def Let_def split: option.split)

lemma client_send_total:
  assumes "nothing_fails E" "length spub = DH_PUBKEY_LEN"
  shows "\<exists>st w1 pkt. handshake_client_send E a psk cpub (Some spub) w = (Some st, w1)
           \<and> trace w1 = trace w @ [Udp_Out a pkt]"
proof -
  let ?w1 = "w\<lparr>calls := Suc (calls w)\<rparr>"
  obtain ek ep where g: "generate_eph_keypair E w = (Some (ek, ep), ?w1)"
    using nothing_failsD(3,4) [OF assms(1)]
    by (metis (no_types, lifting) generate_eph_keypair_def option.simps(5) prod.case sys_keygen_def)
  obtain ec_ss where x: "x25519_shared_secret E ek spub = Some ec_ss"
    using nothing_failsD(5) [OF assms] by metis
  obtain enc where e: "encrypt_identity E ec_ss cpub (replicate HS_ENCRYPTED_PUB_LEN 0) ?w1
                         = (Some enc, ?w1\<lparr>calls := Suc (calls ?w1)\<rparr>)"
    using encrypt_identity_total [OF assms(1)] by metis
  obtain pkt where f: "hs_frame E psk ep enc = Some pkt" using hs_frame_total [OF assms(1)] by metis
  show ?thesis
    using nothing_failsD(2) [OF assms(1)] by (simp add: handshake_client_send_def g x e f sys_sendto_def)
qed

text \<open>The responder accepts every well-formed initiation whose identity field opens.\<close>

lemma server_respond_total:
  assumes "nothing_fails E"
    and "length pkt = hs_size psk" "take HEADER_SIZE pkt = pkt_header" "hs_hmac_ok E psk pkt"
    and "x25519_shared_secret E sk (sub_bytes HEADER_SIZE DH_PUBKEY_LEN pkt) = Some ec_ss"
    and "decrypt_identity E ec_ss (sub_bytes (HEADER_SIZE + DH_PUBKEY_LEN) HS_ENCRYPTED_PUB_LEN pkt)
           (replicate DH_PUBKEY_LEN 0) w = (Some cpub, w1)" and "length cpub = DH_PUBKEY_LEN"
  shows "\<exists>key w' resp. handshake_server_respond E pkt a psk sk spub (Some pk) ppub w = (Some (cpub, key), w')
           \<and> trace w' = trace w @ [Udp_Out a resp]"
proof -
  let ?ce = "sub_bytes HEADER_SIZE DH_PUBKEY_LEN pkt"
  have "length ?ce = DH_PUBKEY_LEN" using assms(2) by (simp add: hs_size_def)
  then obtain eph where x: "x25519_shared_secret E pk ?ce = Some eph"
    using nothing_failsD(5) [OF assms(1)] by metis
  obtain sc where y: "x25519_shared_secret E pk cpub = Some sc"
    using nothing_failsD(5) [OF assms(1,7)] by metis
  obtain enc where e: "encrypt_identity E eph spub (replicate HS_ENCRYPTED_PUB_LEN 0) w1
                         = (Some enc, w1\<lparr>calls := Suc (calls w1)\<rparr>)"
    using encrypt_identity_total [OF assms(1)] by metis
  obtain resp where f: "hs_frame E psk ppub enc = Some resp" using hs_frame_total [OF assms(1)] by metis
  have w1: "trace w1 = trace w" using identity_world(2) [OF assms(6)] by simp
  show ?thesis
    using nothing_failsD(2) [OF assms(1)]
    by (simp add: handshake_server_respond_def assms(2-6) x25519_opt_def x y e f sys_sendto_def w1)
qed

lemma server_accepts:
  assumes "gcm_correct E" "hmac_length E" "x25519_agrees E" "pub_length E" "nothing_fails E"
    and "EVP_PKEY_get_raw_public_key E sk = Some spub" "length cpub = DH_PUBKEY_LEN"
    and "handshake_client_send E sa psk cpub (Some spub) w0 = (Some st, w1)"
    and "trace w1 = trace w0 @ [Udp_Out sa pkt]"
  shows "\<exists>key w3 resp. handshake_server_respond E pkt ca psk sk spub (Some pk) ppub w2 = (Some (cpub, key), w3)
           \<and> trace w3 = trace w2 @ [Udp_Out ca resp]"
proof -
  obtain ek ep ec_ss enc v1 v2 where
      c: "EVP_PKEY_get_raw_public_key E ek = Some ep" "x25519_shared_secret E ek spub = Some ec_ss"
        "encrypt_identity E ec_ss cpub (replicate HS_ENCRYPTED_PUB_LEN 0) v1 = (Some enc, v2)"
        "length pkt = hs_size psk" "take HEADER_SIZE pkt = pkt_header" "hs_hmac_ok E psk pkt"
        "sub_bytes HEADER_SIZE DH_PUBKEY_LEN pkt = ep"
        "sub_bytes (HEADER_SIZE + DH_PUBKEY_LEN) HS_ENCRYPTED_PUB_LEN pkt = enc"
    by (rule client_frame [OF assms(1,2,4,7-9)])
  have "os_cipher_ctx E (calls w2)" by (rule nothing_failsD(1) [OF assms(5)])
  from decrypt_encrypt_identity(1) [OF assms(1,7) _ _ c(3) this]
  have "decrypt_identity E ec_ss enc (replicate DH_PUBKEY_LEN 0) w2 = (Some cpub, w2\<lparr>calls := Suc (calls w2)\<rparr>)"
    by simp
  moreover have "x25519_shared_secret E sk ep = Some ec_ss"
    using x25519_agreesD [OF assms(3,6) c(1)] c(2) by simp
  ultimately show ?thesis
    using server_respond_total [OF assms(5) c(4-6)] c(7,8) assms(7) by simp
qed

text \<open>C3. Key agreement: when a client's initiation reaches the responder whose static key it was
  built for, and the responder answers, then the responder has identified that client, and the client,
  on receiving that answer, completes the handshake with exactly the responder's session key and
  gives up its ephemeral key. Needed of OpenSSL: GCM opens what it seals, HMAC-SHA256 and X25519 public keys have
  32 bytes, and the two sides of an X25519 exchange agree.\<close>

theorem handshake_agreement:
  assumes "gcm_correct E" "hmac_length E" "x25519_agrees E" "pub_length E"
    and "EVP_PKEY_get_raw_public_key E ck = Some cpub"
    and "EVP_PKEY_get_raw_public_key E sk = Some spub"
    and "EVP_PKEY_get_raw_public_key E pk = Some ppub"
    and "handshake_client_send E sa psk cpub (Some spub) w0 = (Some st, w1)"
    and "trace w1 = trace w0 @ [Udp_Out sa pkt]"
    and "handshake_server_respond E pkt ca psk sk spub (Some pk) ppub w2 = (Some (peer, key), w3)"
    and "trace w3 = trace w2 @ [Udp_Out ca resp]"
    and "os_cipher_ctx E (calls w4)"
  shows "peer = cpub \<and>
         fst (handshake_client_recv E resp psk ck cpub spub st w4) = (Some key, st\<lparr>eph_key := None\<rparr>)"
proof -
  have l: "length cpub = DH_PUBKEY_LEN" "length spub = DH_PUBKEY_LEN" "length ppub = DH_PUBKEY_LEN"
    using assms(4-7) by (auto simp: pub_length_def)
  obtain ek ep ec_ss enc v1 v2 where
      c: "EVP_PKEY_get_raw_public_key E ek = Some ep" "x25519_shared_secret E ek spub = Some ec_ss"
        "encrypt_identity E ec_ss cpub (replicate HS_ENCRYPTED_PUB_LEN 0) v1 = (Some enc, v2)"
        "st = \<lparr>eph_key = Some ek, eph_pub = ep, ecdh_ec_ss = ec_ss\<rparr>"
    and pk: "sub_bytes HEADER_SIZE DH_PUBKEY_LEN pkt = ep"
        "sub_bytes (HEADER_SIZE + DH_PUBKEY_LEN) HS_ENCRYPTED_PUB_LEN pkt = enc"
    by (rule client_frame [OF assms(1,2,4) l(1) assms(8,9)])
  obtain ec_ss' eph sc_es enc' u1 u2 where
      s: "x25519_shared_secret E sk ep = Some ec_ss'"
        "decrypt_identity E ec_ss' enc (replicate DH_PUBKEY_LEN 0) w2 = (Some peer, u1)"
        "x25519_shared_secret E pk ep = Some eph" "x25519_shared_secret E pk peer = Some sc_es"
        "key = derive_session_key E eph sc_es ec_ss' ep ppub peer spub"
        "encrypt_identity E eph spub (replicate HS_ENCRYPTED_PUB_LEN 0) u1 = (Some enc', u2)"
    and r: "length resp = hs_size psk" "take HEADER_SIZE resp = pkt_header" "hs_hmac_ok E psk resp"
        "sub_bytes HEADER_SIZE DH_PUBKEY_LEN resp = ppub"
        "sub_bytes (HEADER_SIZE + DH_PUBKEY_LEN) HS_ENCRYPTED_PUB_LEN resp = enc'"
    by (rule server_frame [OF assms(1,2) l(2,3) assms(10,11), unfolded pk])
  have ec: "ec_ss' = ec_ss" using x25519_agreesD [OF assms(3,6) c(1)] s(1) c(2) by simp
  have "os_cipher_ctx E (calls w2)"
    using s(2) by (auto simp: decrypt_identity_def sys_cipher_ctx_def Let_def split: bool.splits)
  then have peer: "peer = cpub"
    using decrypt_encrypt_identity(1) [OF assms(1) l(1) _ _ c(3)] s(2) ec by fastforce
  moreover have "decrypt_identity E eph enc' (replicate DH_PUBKEY_LEN 0) w4
                   = (Some spub, w4\<lparr>calls := Suc (calls w4)\<rparr>)"
    using decrypt_encrypt_identity(1) [OF assms(1) l(2) _ _ s(6) assms(12)] by simp
  ultimately show ?thesis
    using r x25519_agreesD [OF assms(3) c(1) assms(7)] x25519_agreesD [OF assms(3,5,7)] s(3,4)
    by (simp add: handshake_client_recv_def Let_def c(4) x25519_opt_def s(5) ec)
qed

lemma sample_exchange:
  "\<exists>st w1 pkt key w3 resp.
     handshake_client_send sample_env sa psk (be_bytes 32 c) (Some (be_bytes 32 s)) w0 = (Some st, w1)
     \<and> trace w1 = trace w0 @ [Udp_Out sa pkt]
     \<and> handshake_server_respond sample_env pkt ca psk s (be_bytes 32 s) (Some p) (be_bytes 32 p) w1
         = (Some (be_bytes 32 c, key), w3)
     \<and> trace w3 = trace w1 @ [Udp_Out ca resp]"
proof -
  obtain st w1 pkt where
      c: "handshake_client_send sample_env sa psk (be_bytes 32 c) (Some (be_bytes 32 s)) w0 = (Some st, w1)"
        "trace w1 = trace w0 @ [Udp_Out sa pkt]"
    using client_send_total [OF sample_nothing_fails, of "be_bytes 32 s" sa psk "be_bytes 32 c" w0]
    by (auto simp: DH_PUBKEY_LEN_def)
  have k: "EVP_PKEY_get_raw_public_key sample_env s = Some (be_bytes 32 s)" by simp
  have l: "length (be_bytes 32 c) = DH_PUBKEY_LEN" by (simp add: DH_PUBKEY_LEN_def)
  show ?thesis
    using server_accepts [OF sample_gcm_correct sample_laws sample_nothing_fails k l c] c by fast
qed

theorem handshake_agreement_witness:
  "\<exists>st w1 pkt key w3 resp.
     handshake_client_send sample_env \<lparr>s_addr = 1, sin_port = 5040\<rparr> (Some [1, 2, 3]) (be_bytes 32 2)
       (Some (be_bytes 32 3)) fresh_world = (Some st, w1)
     \<and> trace w1 = trace fresh_world @ [Udp_Out \<lparr>s_addr = 1, sin_port = 5040\<rparr> pkt]
     \<and> handshake_server_respond sample_env pkt \<lparr>s_addr = 2, sin_port = 6000\<rparr> (Some [1, 2, 3]) 3 (be_bytes 32 3)
         (Some 7) (be_bytes 32 7) w1 = (Some (be_bytes 32 2, key), w3)
     \<and> fst (handshake_client_recv sample_env resp (Some [1, 2, 3]) 2 (be_bytes 32 2) (be_bytes 32 3) st w3)
         = (Some key, st\<lparr>eph_key := None\<rparr>)"
proof -
  obtain st w1 pkt key w3 resp where
     w: "handshake_client_send sample_env \<lparr>s_addr = 1, sin_port = 5040\<rparr> (Some [1, 2, 3]) (be_bytes 32 2)
         (Some (be_bytes 32 3)) fresh_world = (Some st, w1)"
       "trace w1 = trace fresh_world @ [Udp_Out \<lparr>s_addr = 1, sin_port = 5040\<rparr> pkt]"
       "handshake_server_respond sample_env pkt \<lparr>s_addr = 2, sin_port = 6000\<rparr> (Some [1, 2, 3]) 3 (be_bytes 32 3)
         (Some 7) (be_bytes 32 7) w1 = (Some (be_bytes 32 2, key), w3)"
       "trace w3 = trace w1 @ [Udp_Out \<lparr>s_addr = 2, sin_port = 6000\<rparr> resp]"
    using sample_exchange by blast
  have "fst (handshake_client_recv sample_env resp (Some [1, 2, 3]) 2 (be_bytes 32 2) (be_bytes 32 3) st w3)
          = (Some key, st\<lparr>eph_key := None\<rparr>)"
    using handshake_agreement [OF sample_gcm_correct sample_laws _ _ _ w, of 2 w3] by simp
  with w show ?thesis by blast
qed

text \<open>C23. Completion: when no call fails, a client whose key the responder's side shares the PSK with
  always gets its initiation out, and the responder accepts it as coming from that client's static
  key and sends exactly one datagram, its answer, to the address the initiation came from.\<close>

theorem handshake_completes:
  assumes "gcm_correct E" "hmac_length E" "x25519_agrees E" "pub_length E" "nothing_fails E"
    and "EVP_PKEY_get_raw_public_key E ck = Some cpub" "EVP_PKEY_get_raw_public_key E sk = Some spub"
  shows "\<exists>st w1 pkt key w3 resp.
     handshake_client_send E sa psk cpub (Some spub) w0 = (Some st, w1)
     \<and> trace w1 = trace w0 @ [Udp_Out sa pkt] \<and> length pkt = hs_size psk
     \<and> handshake_server_respond E pkt ca psk sk spub (Some pk) ppub w2 = (Some (cpub, key), w3)
     \<and> trace w3 = trace w2 @ [Udp_Out ca resp]"
proof -
  have l: "length cpub = DH_PUBKEY_LEN" "length spub = DH_PUBKEY_LEN"
    using assms(4,6,7) by (auto simp: pub_length_def)
  obtain st w1 pkt where c: "handshake_client_send E sa psk cpub (Some spub) w0 = (Some st, w1)"
      "trace w1 = trace w0 @ [Udp_Out sa pkt]"
    using client_send_total [OF assms(5) l(2)] by metis
  have "length pkt = hs_size psk" by (rule client_frame [OF assms(1,2,4) l(1) c])
  with c server_accepts [OF assms(1-5,7) l(1) c] show ?thesis by fast
qed

theorem handshake_completes_witness:
  "\<exists>st w1 pkt key w3 resp.
     handshake_client_send sample_env \<lparr>s_addr = 1, sin_port = 5040\<rparr> None (be_bytes 32 2) (Some (be_bytes 32 3))
       fresh_world = (Some st, w1)
     \<and> trace w1 = trace fresh_world @ [Udp_Out \<lparr>s_addr = 1, sin_port = 5040\<rparr> pkt] \<and> length pkt = hs_size None
     \<and> handshake_server_respond sample_env pkt \<lparr>s_addr = 2, sin_port = 6000\<rparr> None 3 (be_bytes 32 3) (Some 7) []
         fresh_world = (Some (be_bytes 32 2, key), w3)
     \<and> trace w3 = trace fresh_world @ [Udp_Out \<lparr>s_addr = 2, sin_port = 6000\<rparr> resp]"
  by (rule handshake_completes [OF sample_gcm_correct sample_laws sample_nothing_fails]) simp_all

lemma respond_tail:
  assumes "trace w1 = trace w" "files w1 = files w"
    and "(case x25519_opt E pk ce of
        None \<Rightarrow> (None, w1)
      | Some ecdh_eph \<Rightarrow>
     (case encrypt_identity E ecdh_eph spub out w1 of
        (None, w2) \<Rightarrow> (None, w2)
      | (Some enc, w2) \<Rightarrow>
     (case hs_frame E psk ppub enc of
        None \<Rightarrow> (None, w2)
      | Some resp \<Rightarrow>
     (case sys_sendto E a resp w2 of
        (False, w3) \<Rightarrow> (None, w3)
      | (True, w3) \<Rightarrow>
     (case x25519_opt E pk cpub of
        None \<Rightarrow> (None, w3)
      | Some ecdh_sc_es \<Rightarrow> (Some (cpub, kdf ecdh_eph ecdh_sc_es), w3)))))) = (r, w')"
  shows "files w' = files w \<and> (trace w' = trace w \<and> r = None \<or>
     (\<exists>resp km enc v v'. trace w' = trace w @ [Udp_Out a resp] \<and> hs_frame E psk ppub enc = Some resp \<and>
        encrypt_identity E km spub out v = (Some enc, v')) \<and> (\<forall>p key. r = Some (p, key) \<longrightarrow> p = cpub))"
proof (cases "x25519_opt E pk ce")
  case None
  with assms show ?thesis by simp
next
  case (Some eph)
  obtain e w2 where e: "encrypt_identity E eph spub out w1 = (e, w2)" by (metis surj_pair)
  have w2: "trace w2 = trace w" "files w2 = files w" using identity_world(1) [OF e] assms(1,2) by simp_all
  show ?thesis
  proof (cases "e = None \<or> hs_frame E psk ppub (the e) = None")
    case True
    with assms(3) Some e w2 show ?thesis by (auto split: option.splits)
  next
    case False
    then obtain enc resp where f: "e = Some enc" "hs_frame E psk ppub enc = Some resp" by auto
    have "files w' = files w \<and> (trace w' = trace w \<and> r = None \<or>
        trace w' = trace w @ [Udp_Out a resp] \<and> (\<forall>p key. r = Some (p, key) \<longrightarrow> p = cpub))"
      using assms(3) Some e f w2
      by (auto simp: sys_sendto_def Let_def split: option.splits if_splits bool.splits)
    with e f show ?thesis by blast
  qed
qed

lemma server_respond_outcome:
  assumes "handshake_server_respond E pkt a psk sk spub pk ppub w = (r, w')"
  shows "files w' = files w \<and>
    (trace w' = trace w \<and> r = None \<or>
     (\<exists>resp km enc v v'. trace w' = trace w @ [Udp_Out a resp] \<and> hs_frame E psk ppub enc = Some resp \<and>
        encrypt_identity E km spub (replicate HS_ENCRYPTED_PUB_LEN 0) v = (Some enc, v')) \<and>
     length pkt = hs_size psk \<and> take HEADER_SIZE pkt = pkt_header \<and> hs_hmac_ok E psk pkt \<and>
     (\<exists>ec_ss cpub w1. x25519_shared_secret E sk (sub_bytes HEADER_SIZE DH_PUBKEY_LEN pkt) = Some ec_ss \<and>
        decrypt_identity E ec_ss (sub_bytes (HEADER_SIZE + DH_PUBKEY_LEN) HS_ENCRYPTED_PUB_LEN pkt)
          (replicate DH_PUBKEY_LEN 0) w = (Some cpub, w1) \<and> (\<forall>p key. r = Some (p, key) \<longrightarrow> p = cpub)))"
proof (cases "length pkt = hs_size psk \<and> take HEADER_SIZE pkt = pkt_header \<and> hs_hmac_ok E psk pkt")
  case False
  then show ?thesis using assms by (auto simp: handshake_server_respond_def Let_def split: if_splits)
next
  case True
  let ?ce = "sub_bytes HEADER_SIZE DH_PUBKEY_LEN pkt"
  let ?en = "sub_bytes (HEADER_SIZE + DH_PUBKEY_LEN) HS_ENCRYPTED_PUB_LEN pkt"
  show ?thesis
  proof (cases "\<exists>ec_ss cpub w1. x25519_shared_secret E sk ?ce = Some ec_ss \<and>
           decrypt_identity E ec_ss ?en (replicate DH_PUBKEY_LEN 0) w = (Some cpub, w1)")
    case False
    then have "\<exists>v. r = None \<and> w' = w\<lparr>calls := v\<rparr>"
    proof (cases "x25519_shared_secret E sk ?ce")
      case None
      with assms True show ?thesis by (auto simp: handshake_server_respond_def intro: exI [of _ "calls w"])
    next
      case (Some ec_ss)
      with False obtain v where "decrypt_identity E ec_ss ?en (replicate DH_PUBKEY_LEN 0) w = (None, v)"
        by (metis option.exhaust prod.exhaust)
      with identity_world(2) [OF this] Some assms True show ?thesis
        by (auto simp: handshake_server_respond_def)
    qed
    then show ?thesis by auto
  next
    case id: True
    then obtain ec_ss cpub w1 where d: "x25519_shared_secret E sk ?ce = Some ec_ss"
      "decrypt_identity E ec_ss ?en (replicate DH_PUBKEY_LEN 0) w = (Some cpub, w1)" by auto
    have t: "trace w1 = trace w" "files w1 = files w" using identity_world(2) [OF d(2)] by simp_all
    have "files w' = files w \<and> (trace w' = trace w \<and> r = None \<or>
        (\<exists>resp km enc v v'. trace w' = trace w @ [Udp_Out a resp] \<and> hs_frame E psk ppub enc = Some resp \<and>
           encrypt_identity E km spub (replicate HS_ENCRYPTED_PUB_LEN 0) v = (Some enc, v')) \<and>
        (\<forall>p key. r = Some (p, key) \<longrightarrow> p = cpub))"
      by (rule respond_tail [OF t assms [unfolded handshake_server_respond_def Let_def,
              simplified True d option.case prod.case simp_thms if_False if_True]])
    with d True show ?thesis by blast
  qed
qed

text \<open>C9. The responder is silent towards strangers: it emits a datagram only for a packet of the
  exact handshake size that starts with the magic, carries the HMAC of the configured PSK over its 80
  bytes of key material, and whose identity field opens under the secret of the responder's static
  key; it never writes to the tunnel or to a file. The datagram goes to the packet's sender.\<close>

theorem server_silent:
  assumes "handshake_server_respond E pkt a psk sk spub pk ppub w = (r, w')"
  shows "files w' = files w \<and>
    (trace w' = trace w \<and> r = None \<or>
     (\<exists>resp. trace w' = trace w @ [Udp_Out a resp]) \<and>
     length pkt = hs_size psk \<and> take HEADER_SIZE pkt = pkt_header \<and> hs_hmac_ok E psk pkt \<and>
     (\<exists>ec_ss cpub w1. x25519_shared_secret E sk (sub_bytes HEADER_SIZE DH_PUBKEY_LEN pkt) = Some ec_ss \<and>
        decrypt_identity E ec_ss (sub_bytes (HEADER_SIZE + DH_PUBKEY_LEN) HS_ENCRYPTED_PUB_LEN pkt)
          (replicate DH_PUBKEY_LEN 0) w = (Some cpub, w1) \<and> (\<forall>p key. r = Some (p, key) \<longrightarrow> p = cpub)))"
  using server_respond_outcome [OF assms] by blast

theorem server_silent_witness:
  "handshake_server_respond sample_env [1, 2] \<lparr>s_addr = 2, sin_port = 6000\<rparr> None 3 [] None [] fresh_world
     = (None, fresh_world) \<and> trace (snd (handshake_server_respond sample_env [1, 2] \<lparr>s_addr = 2, sin_port = 6000\<rparr>
         None 3 [] None [] fresh_world)) = []"
proof -
  have e: "handshake_server_respond sample_env [1, 2] \<lparr>s_addr = 2, sin_port = 6000\<rparr> None 3 [] None [] fresh_world
     = (None, fresh_world)"
    by (simp add: handshake_server_respond_def hs_size_def const_defs)
  show ?thesis using server_silent [OF e] e by (auto simp: fresh_world_def)
qed

text \<open>C10. The client completes a handshake only with the configured responder: a key is derived only
  from a response of the exact size with the magic and the right HMAC whose identity field decrypts,
  under the ephemeral exchange, to the configured static public key. On every failure the client state is left
  as it was, and nothing is sent in either case.\<close>

theorem client_recv_checked:
  assumes "handshake_client_recv E resp psk sk spub ssp st w = ((r, st'), w')"
  shows "trace w' = trace w \<and> files w' = files w \<and>
    (case r of
       None \<Rightarrow> st' = st
     | Some key \<Rightarrow>
         st' = st\<lparr>eph_key := None\<rparr> \<and> length resp = hs_size psk \<and> take HEADER_SIZE resp = pkt_header \<and>
         hs_hmac_ok E psk resp \<and>
         (\<exists>ek eph sc. eph_key st = Some ek \<and>
            x25519_shared_secret E ek (sub_bytes HEADER_SIZE DH_PUBKEY_LEN resp) = Some eph \<and>
            fst (decrypt_identity E eph (sub_bytes (HEADER_SIZE + DH_PUBKEY_LEN) HS_ENCRYPTED_PUB_LEN resp)
                   (replicate DH_PUBKEY_LEN 0) w) = Some ssp \<and>
            x25519_shared_secret E sk (sub_bytes HEADER_SIZE DH_PUBKEY_LEN resp) = Some sc \<and>
            key = derive_session_key E eph sc (ecdh_ec_ss st) (eph_pub st)
                    (sub_bytes HEADER_SIZE DH_PUBKEY_LEN resp) spub ssp))"
proof (cases r)
  case None
  then show ?thesis
    using assms client_recv_world [OF assms]
    by (auto simp: handshake_client_recv_def Let_def split: if_splits option.splits prod.splits)
next
  case (Some key)
  show ?thesis
    by (rule client_recv_SomeD [OF assms [unfolded Some]])
       (auto simp: Some client_recv_world [OF assms] x25519_opt_def split: option.splits)
qed

theorem client_recv_checked_witness:
  "handshake_client_recv sample_env [0] None 2 [] [] \<lparr>eph_key = Some 5, eph_pub = [], ecdh_ec_ss = []\<rparr> fresh_world
     = ((None, \<lparr>eph_key = Some 5, eph_pub = [], ecdh_ec_ss = []\<rparr>), fresh_world)"
proof -
  obtain r st' w' where e: "handshake_client_recv sample_env [0] None 2 [] []
      \<lparr>eph_key = Some 5, eph_pub = [], ecdh_ec_ss = []\<rparr> fresh_world = ((r, st'), w')"
    by (metis surj_pair)
  moreover have "r = None" "w' = fresh_world"
    using e by (simp_all add: handshake_client_recv_def hs_size_def const_defs)
  ultimately show ?thesis using client_recv_checked [OF e] by simp
qed

lemma hs_hmac_ok_Some:
  "hs_hmac_ok E (Some k) pkt \<longleftrightarrow>
     HMAC_sha256 E k (sub_bytes HEADER_SIZE (DH_PUBKEY_LEN + HS_ENCRYPTED_PUB_LEN) pkt)
       = Some (sub_bytes (HEADER_SIZE + DH_PUBKEY_LEN + HS_ENCRYPTED_PUB_LEN) HMAC_LEN pkt)"
  by (auto simp: hs_hmac_ok_def compute_hmac_def split: option.splits)

text \<open>C28. A wrong PSK is rejected before any key is used: an initiation built under one PSK (or none)
  is turned down without a trace by a responder configured with another PSK, with a PSK where the client
  has none, or with none where the client has one. The only way around the check is a collision: two different
  PSKs whose HMACs agree on the 80 bytes of key material of this very packet.\<close>

theorem psk_mismatch_rejected:
  assumes "gcm_correct E" "hmac_length E" "pub_length E" "length cpub = DH_PUBKEY_LEN"
    and "handshake_client_send E sa psk1 cpub (Some spub) w0 = (Some st, w1)"
    and "trace w1 = trace w0 @ [Udp_Out sa pkt]" "psk1 \<noteq> psk2"
  defines "m \<equiv> sub_bytes HEADER_SIZE (DH_PUBKEY_LEN + HS_ENCRYPTED_PUB_LEN) pkt"
  shows "handshake_server_respond E pkt ca psk2 sk spub pk ppub w2 = (None, w2) \<or>
    (\<exists>k1 k2 h. psk1 = Some k1 \<and> psk2 = Some k2 \<and> HMAC_sha256 E k1 m = Some h \<and> HMAC_sha256 E k2 m = Some h)"
proof (cases "length pkt = hs_size psk2 \<and> hs_hmac_ok E psk2 pkt")
  case False
  then have "handshake_server_respond E pkt ca psk2 sk spub pk ppub w2 = (None, w2)"
    by (auto simp: handshake_server_respond_def)
  then show ?thesis ..
next
  case True
  have len: "length pkt = hs_size psk1" by (rule client_frame [OF assms(1-6)])
  have ok: "hs_hmac_ok E psk1 pkt" by (rule client_frame [OF assms(1-6)])
  from len True have "hs_size psk1 = hs_size psk2" by simp
  with assms(7) obtain k1 k2 where "psk1 = Some k1" "psk2 = Some k2"
    by (cases psk1; cases psk2) (auto simp: hs_size_def HMAC_LEN_def)
  with ok True show ?thesis unfolding m_def by (simp add: hs_hmac_ok_Some)
qed

theorem psk_mismatch_rejected_witness:
  "\<exists>st w1 pkt. handshake_client_send sample_env \<lparr>s_addr = 1, sin_port = 5040\<rparr> (Some [1]) (be_bytes 32 2)
       (Some (be_bytes 32 3)) fresh_world = (Some st, w1)
     \<and> trace w1 = trace fresh_world @ [Udp_Out \<lparr>s_addr = 1, sin_port = 5040\<rparr> pkt]
     \<and> handshake_server_respond sample_env pkt \<lparr>s_addr = 2, sin_port = 6000\<rparr> (Some [2]) 3 (be_bytes 32 3)
         (Some 7) [] w1 = (None, w1)"
proof -
  obtain st w1 pkt key w3 resp where
     w: "handshake_client_send sample_env \<lparr>s_addr = 1, sin_port = 5040\<rparr> (Some [1]) (be_bytes 32 2)
         (Some (be_bytes 32 3)) fresh_world = (Some st, w1)"
       "trace w1 = trace fresh_world @ [Udp_Out \<lparr>s_addr = 1, sin_port = 5040\<rparr> pkt]"
    using sample_exchange by blast
  have "length (be_bytes 32 2) = DH_PUBKEY_LEN" by (simp add: DH_PUBKEY_LEN_def)
  moreover have "HMAC_sha256 sample_env [1] m \<noteq> HMAC_sha256 sample_env [2] m" for m
    by (simp add: pad32_def)
  ultimately have "handshake_server_respond sample_env pkt \<lparr>s_addr = 2, sin_port = 6000\<rparr> (Some [2]) 3 (be_bytes 32 3)
         (Some 7) [] w1 = (None, w1)"
    using psk_mismatch_rejected [OF sample_gcm_correct sample_laws(1,3) _ w, of "Some [2]"
        "\<lparr>s_addr = 2, sin_port = 6000\<rparr>" 3 "Some 7" "[]" w1] by (metis list.inject option.inject)
  with w show ?thesis by blast
qed

end
