(* ===== verification/Sessions.thy ===== *)
theory Sessions
  imports Replay Hex Handshake "HOL-Library.Signed_Division"
begin

text \<open>
  The tables of \<^verbatim>\<open>src/src/peer.c\<close>: configured peers, sessions and pending handshakes, with the lookups
  on them, slot allocation, the routing decision and \<open>session_init\<close>. A pointer into one of the
  arrays is an index, \<open>NULL\<close> is \<open>None\<close>. \<open>sessions\<close> and \<open>pending_hs\<close> are the whole arrays of 64 entries,
  \<open>peer_configs\<close> is the prefix of that array that is in use, so that \<open>peer_config_count\<close> is its length.
  Times are integers, \<open>int\<close> flags are Booleans.
\<close>

section \<open>State\<close>

definition REKEY_AFTER_SECS :: int where [const_defs]: "REKEY_AFTER_SECS = 180"
definition PREV_KEY_GRACE_SECS :: int where [const_defs]: "PREV_KEY_GRACE_SECS = 90"
definition HANDSHAKE_COOLDOWN_SECS :: int where [const_defs]: "HANDSHAKE_COOLDOWN_SECS = 5"
definition HANDSHAKE_TIMEOUT_SECS :: int where [const_defs]: "HANDSHAKE_TIMEOUT_SECS = 5"
definition RECONNECT_INTERVAL_SECS :: int where [const_defs]: "RECONNECT_INTERVAL_SECS = 30"
definition SESSION_EXPIRY_SECS :: int where [const_defs]: "SESSION_EXPIRY_SECS = 3 * REKEY_AFTER_SECS"
definition KEEPALIVE_INTERVAL_SECS :: int where [const_defs]: "KEEPALIVE_INTERVAL_SECS = 25"
definition MAX_PEERS :: nat where [const_defs]: "MAX_PEERS = 64"
definition MAX_ROUTES_PER_PEER :: nat where [const_defs]: "MAX_ROUTES_PER_PEER = 16"

record ip_prefix =
  network :: u32
  mask :: u32
  prefix_len :: int

record peer_config =
  pc_pub :: bytes
  pc_routes :: "ip_prefix list"
  pc_route_count :: nat
  has_endpoint :: bool
  endpoint :: sockaddr_in
  endpoint_host :: string
  endpoint_port :: int
  last_attempt :: int

record peer_session =
  active :: bool
  addr :: sockaddr_in
  static_pub :: bytes
  session_key :: bytes
  prev_session_key :: bytes
  prev_key_active :: bool
  prev_key_expires :: int
  last_seen :: int
  last_sent :: int
  last_handshake :: int
  rekey_deadline :: int
  rekeying :: bool
  send_seq :: u64
  recv_seq_highest :: u64
  recv_seq_window :: "u64 list"
  routes :: "ip_prefix list"
  route_count :: nat
  is_outbound :: bool

record 'k pending_hs_entry =
  p_active :: bool
  cfg_idx :: nat
  sent_at :: int
  hs_state :: "'k hs_client_state"
  server_addr :: sockaddr_in

text \<open>The static variables of the program.\<close>

record 'k peer_state =
  cfg_rekey_after :: int
  cfg_reconnect_interval :: int
  cfg_session_expiry :: int
  cfg_prev_key_grace :: int
  cfg_handshake_timeout :: int
  cfg_handshake_cooldown :: int
  peer_configs :: "peer_config list"
  sessions :: "peer_session list"
  session_slots :: nat
  pending_hs :: "'k pending_hs_entry list"
  precomp_eph_key :: "'k option"
  precomp_eph_pub :: bytes
  stop_flag :: bool
  print_sessions_flag :: bool

text \<open>What the C run-time puts into static storage before \<open>main\<close>.\<close>

definition zero_addr :: sockaddr_in where
  "zero_addr = \<lparr>s_addr = 0, sin_port = 0\<rparr>"

definition zero_prefix :: ip_prefix where
  "zero_prefix = \<lparr>network = 0, mask = 0, prefix_len = 0\<rparr>"

definition zero_config :: peer_config where
  "zero_config = \<lparr>pc_pub = replicate DH_PUBKEY_LEN 0, pc_routes = replicate MAX_ROUTES_PER_PEER zero_prefix,
     pc_route_count = 0, has_endpoint = False, endpoint = zero_addr, endpoint_host = [], endpoint_port = 0,
     last_attempt = 0\<rparr>"

definition zero_session :: peer_session where
  "zero_session = \<lparr>active = False, addr = zero_addr, static_pub = replicate DH_PUBKEY_LEN 0,
     session_key = replicate CRYPTO_KEY_LEN 0, prev_session_key = replicate CRYPTO_KEY_LEN 0,
     prev_key_active = False, prev_key_expires = 0, last_seen = 0, last_sent = 0, last_handshake = 0,
     rekey_deadline = 0, rekeying = False, send_seq = 0, recv_seq_highest = 0,
     recv_seq_window = replicate REPLAY_WINDOW_WORDS 0, routes = replicate MAX_ROUTES_PER_PEER zero_prefix,
     route_count = 0, is_outbound = False\<rparr>"

definition zero_pending :: "'k pending_hs_entry" where
  "zero_pending = \<lparr>p_active = False, cfg_idx = 0, sent_at = 0,
     hs_state = \<lparr>eph_key = None, eph_pub = replicate DH_PUBKEY_LEN 0, ecdh_ec_ss = replicate DH_PUBKEY_LEN 0\<rparr>,
     server_addr = zero_addr\<rparr>"

definition init_state :: "'k peer_state" where
  "init_state = \<lparr>cfg_rekey_after = REKEY_AFTER_SECS, cfg_reconnect_interval = RECONNECT_INTERVAL_SECS,
     cfg_session_expiry = SESSION_EXPIRY_SECS, cfg_prev_key_grace = PREV_KEY_GRACE_SECS,
     cfg_handshake_timeout = HANDSHAKE_TIMEOUT_SECS, cfg_handshake_cooldown = HANDSHAKE_COOLDOWN_SECS,
     peer_configs = [], sessions = replicate MAX_PEERS zero_session, session_slots = 0,
     pending_hs = replicate MAX_PEERS zero_pending, precomp_eph_key = None,
     precomp_eph_pub = replicate DH_PUBKEY_LEN 0, stop_flag = False, print_sessions_flag = False\<rparr>"

section \<open>Operations\<close>

text \<open>Writing through a \<open>peer_session_t *\<close>, a \<open>peer_config_t *\<close> and a \<open>pending_hs_t *\<close>.\<close>

definition upd_session :: "nat \<Rightarrow> (peer_session \<Rightarrow> peer_session) \<Rightarrow> 'k peer_state \<Rightarrow> 'k peer_state" where
  "upd_session i f st = st\<lparr>sessions := (sessions st)[i := f (sessions st ! i)]\<rparr>"

definition upd_config :: "nat \<Rightarrow> (peer_config \<Rightarrow> peer_config) \<Rightarrow> 'k peer_state \<Rightarrow> 'k peer_state" where
  "upd_config i f st = st\<lparr>peer_configs := (peer_configs st)[i := f (peer_configs st ! i)]\<rparr>"

definition upd_pending ::
    "nat \<Rightarrow> ('k pending_hs_entry \<Rightarrow> 'k pending_hs_entry) \<Rightarrow> 'k peer_state \<Rightarrow> 'k peer_state" where
  "upd_pending i f st = st\<lparr>pending_hs := (pending_hs st)[i := f (pending_hs st ! i)]\<rparr>"

definition find_peer_config :: "'k peer_state \<Rightarrow> bytes \<Rightarrow> nat option" where
  "find_peer_config st pub = first_idx (\<lambda>i. pc_pub (peer_configs st ! i) = pub) (length (peer_configs st))"

definition find_session_by_addr :: "'k peer_state \<Rightarrow> sockaddr_in \<Rightarrow> nat option" where
  "find_session_by_addr st a =
     first_idx (\<lambda>i. active (sessions st ! i) \<and> same_addr (addr (sessions st ! i)) a) (session_slots st)"

definition find_session_by_pub :: "'k peer_state \<Rightarrow> bytes \<Rightarrow> nat option" where
  "find_session_by_pub st pub =
     first_idx (\<lambda>i. active (sessions st ! i) \<and> static_pub (sessions st ! i) = pub) (session_slots st)"

definition alloc_session :: "'k peer_state \<Rightarrow> bytes \<Rightarrow> sockaddr_in \<Rightarrow> nat option \<times> 'k peer_state" where
  "alloc_session st pub a =
     (case first_idx (\<lambda>i. active (sessions st ! i) \<and> static_pub (sessions st ! i) = pub) (session_slots st) of
        Some i \<Rightarrow> (Some i, st)
      | None \<Rightarrow>
     (case find_session_by_addr st a of
        Some i \<Rightarrow> (Some i, st)
      | None \<Rightarrow>
     (case first_idx (\<lambda>i. \<not> active (sessions st ! i)) (session_slots st) of
        Some i \<Rightarrow> (Some i, st)
      | None \<Rightarrow>
          if session_slots st \<ge> MAX_PEERS then (None, st)
          else (Some (session_slots st), st\<lparr>session_slots := session_slots st + 1\<rparr>))))"

definition prefix_matches :: "u32 \<Rightarrow> ip_prefix \<Rightarrow> bool" where
  "prefix_matches ip r \<longleftrightarrow> ip AND mask r = network r"

text \<open>The two loops of \<open>route_lookup\<close>; the accumulator is \<open>best\<close> and \<open>best_prefix\<close>.\<close>

definition scan_route :: "u32 \<Rightarrow> nat \<Rightarrow> ip_prefix \<Rightarrow> nat option \<times> int \<Rightarrow> nat option \<times> int" where
  "scan_route dst_ip i r b =
     (if prefix_matches dst_ip r \<and> prefix_len r > snd b then (Some i, prefix_len r) else b)"

definition scan_session :: "u32 \<Rightarrow> 'k peer_state \<Rightarrow> nat \<Rightarrow> nat option \<times> int \<Rightarrow> nat option \<times> int" where
  "scan_session dst_ip st i b =
     (if \<not> active (sessions st ! i) then b
      else fold (scan_route dst_ip i) (take (route_count (sessions st ! i)) (routes (sessions st ! i))) b)"

definition route_lookup :: "'k peer_state \<Rightarrow> u32 \<Rightarrow> nat option" where
  "route_lookup st dst_ip = fst (fold (scan_session dst_ip st) [0..<session_slots st] (None, -1))"

definition check_allowed_src :: "peer_session \<Rightarrow> u32 \<Rightarrow> bool" where
  "check_allowed_src s src_ip =
     (if route_count s = 0 then True
      else list_ex (prefix_matches src_ip) (take (route_count s) (routes s)))"

text \<open>\<open>memcpy\<close> of the first \<open>n\<close> entries of an array over another.\<close>

definition copy_prefix :: "nat \<Rightarrow> 'a list \<Rightarrow> 'a list \<Rightarrow> 'a list" where
  "copy_prefix n src dst = take n src @ drop n dst"

text \<open>The new contents of the slot, from the old contents \<open>s0\<close>.\<close>

definition init_slot ::
    "('k, 'c, 'p) env \<Rightarrow> 'k peer_state \<Rightarrow> sockaddr_in \<Rightarrow> bytes \<Rightarrow> bytes \<Rightarrow> peer_config option \<Rightarrow> bool
       \<Rightarrow> peer_session \<Rightarrow> world \<Rightarrow> peer_session \<times> world" where
  "init_slot E st a pub key cfg outbound s0 w =
     (let s1 = s0\<lparr>active := True, addr := a, static_pub := pub\<rparr>;
          (s2, w2) =
            (if active s0 then
               (let (t, w1) = sys_time E w
                in (s1\<lparr>prev_session_key := session_key s1, prev_key_active := True,
                       prev_key_expires := t + cfg_prev_key_grace st\<rparr>, w1))
             else (s1\<lparr>prev_key_active := False\<rparr>, w));
          (t1, w3) = sys_time E w2;
          (t2, w4) = sys_time E w3;
          (t3, w5) = sys_time E w4;
          s3 = s2\<lparr>session_key := key, last_seen := 0, last_sent := t1, last_handshake := t2,
                  rekey_deadline := t3 + cfg_rekey_after st, rekeying := False, send_seq := 0,
                  recv_seq_highest := 0, recv_seq_window := replicate REPLAY_WINDOW_WORDS 0,
                  is_outbound := outbound\<rparr>;
          s4 = (case cfg of
                  Some c \<Rightarrow> s3\<lparr>routes := copy_prefix (pc_route_count c) (pc_routes c) (routes s3),
                               route_count := pc_route_count c\<rparr>
                | None \<Rightarrow> s3\<lparr>route_count := 0\<rparr>)
      in (s4, w5))"

definition session_init ::
    "('k, 'c, 'p) env \<Rightarrow> nat \<Rightarrow> sockaddr_in \<Rightarrow> bytes \<Rightarrow> bytes \<Rightarrow> peer_config option \<Rightarrow> bool
       \<Rightarrow> 'k peer_state \<Rightarrow> world \<Rightarrow> 'k peer_state \<times> world" where
  "session_init E i a pub key cfg outbound st w =
     (let (s, w1) = init_slot E st a pub key cfg outbound (sessions st ! i) w
      in (upd_session i (\<lambda>_. s) st, w1))"

text \<open>A failed resolution keeps the old address.\<close>

definition resolve_endpoint ::
    "('k, 'c, 'p) env \<Rightarrow> peer_config \<Rightarrow> world \<Rightarrow> (bool \<times> peer_config) \<times> world" where
  "resolve_endpoint E cfg w =
     (case sys_getaddrinfo E (endpoint_host cfg) (endpoint_port cfg) w of
        (None, w1) \<Rightarrow> ((False, cfg), w1)
      | (Some new_addr, w1) \<Rightarrow> ((True, cfg\<lparr>endpoint := new_addr\<rparr>), w1))"

text \<open>The lines \<open>print_sessions\<close> logs: the count, and direction, address, key and routes per peer.\<close>

definition print_sessions :: "'k peer_state \<Rightarrow> nat \<times> (string \<times> sockaddr_in \<times> string \<times> nat) list" where
  "print_sessions st =
     (let slots = take (session_slots st) (sessions st)
      in (length (filter active slots),
          map (\<lambda>s. (if is_outbound s then ''out'' else ''in'', addr s, bytes_to_hex (static_pub s) 8,
                    route_count s)) (filter active slots)))"

section \<open>Writes through pointers\<close>

lemma upd_session_simps [simp]:
  "session_slots (upd_session i f st) = session_slots st"
  "peer_configs (upd_session i f st) = peer_configs st"
  "pending_hs (upd_session i f st) = pending_hs st"
  "length (sessions (upd_session i f st)) = length (sessions st)"
  "cfg_rekey_after (upd_session i f st) = cfg_rekey_after st"
  "cfg_reconnect_interval (upd_session i f st) = cfg_reconnect_interval st"
  "cfg_session_expiry (upd_session i f st) = cfg_session_expiry st"
  "cfg_prev_key_grace (upd_session i f st) = cfg_prev_key_grace st"
  "cfg_handshake_timeout (upd_session i f st) = cfg_handshake_timeout st"
  "cfg_handshake_cooldown (upd_session i f st) = cfg_handshake_cooldown st"
  "precomp_eph_key (upd_session i f st) = precomp_eph_key st"
  "precomp_eph_pub (upd_session i f st) = precomp_eph_pub st"
  "stop_flag (upd_session i f st) = stop_flag st"
  by (simp_all add: upd_session_def)

lemma upd_session_nth:
  "k < length (sessions st) \<Longrightarrow>
     sessions (upd_session i f st) ! k = (if k = i then f (sessions st ! k) else sessions st ! k)"
  by (simp add: upd_session_def nth_list_update)

lemma upd_config_simps [simp]:
  "session_slots (upd_config i f st) = session_slots st"
  "sessions (upd_config i f st) = sessions st"
  "pending_hs (upd_config i f st) = pending_hs st"
  "length (peer_configs (upd_config i f st)) = length (peer_configs st)"
  "cfg_handshake_timeout (upd_config i f st) = cfg_handshake_timeout st"
  "stop_flag (upd_config i f st) = stop_flag st"
  "precomp_eph_pub (upd_config i f st) = precomp_eph_pub st"
  by (simp_all add: upd_config_def)

lemma upd_config_nth:
  "k < length (peer_configs st) \<Longrightarrow>
     peer_configs (upd_config i f st) ! k = (if k = i then f (peer_configs st ! k) else peer_configs st ! k)"
  by (simp add: upd_config_def nth_list_update)

lemma upd_pending_simps [simp]:
  "session_slots (upd_pending i g st) = session_slots st"
  "sessions (upd_pending i g st) = sessions st"
  "peer_configs (upd_pending i g st) = peer_configs st"
  "length (pending_hs (upd_pending i g st)) = length (pending_hs st)"
  "cfg_handshake_timeout (upd_pending i g st) = cfg_handshake_timeout st"
  "stop_flag (upd_pending i g st) = stop_flag st"
  "precomp_eph_pub (upd_pending i g st) = precomp_eph_pub st"
  by (simp_all add: upd_pending_def)

lemma upd_pending_nth:
  "k < length (pending_hs st) \<Longrightarrow>
     pending_hs (upd_pending i g st) ! k = (if k = i then g (pending_hs st ! k) else pending_hs st ! k)"
  by (simp add: upd_pending_def nth_list_update)

section \<open>The invariant of the tables\<close>

definition prefix_wf :: "ip_prefix \<Rightarrow> bool" where
  "prefix_wf r \<longleftrightarrow> 0 \<le> prefix_len r \<and> prefix_len r \<le> 32 \<and>
     mask r = (if prefix_len r = 0 then 0 else push_bit (nat (32 - prefix_len r)) (-1)) \<and>
     network r AND mask r = network r"

definition config_wf :: "peer_config \<Rightarrow> bool" where
  "config_wf c \<longleftrightarrow> pc_route_count c \<le> MAX_ROUTES_PER_PEER \<and> length (pc_routes c) = MAX_ROUTES_PER_PEER \<and>
     length (pc_pub c) = DH_PUBKEY_LEN \<and> (\<forall>r \<in> set (take (pc_route_count c) (pc_routes c)). prefix_wf r)"

definition session_wf :: "peer_session \<Rightarrow> bool" where
  "session_wf s \<longleftrightarrow> length (recv_seq_window s) = REPLAY_WINDOW_WORDS \<and>
     route_count s \<le> MAX_ROUTES_PER_PEER \<and> length (routes s) = MAX_ROUTES_PER_PEER \<and>
     (\<forall>r \<in> set (take (route_count s) (routes s)). prefix_wf r)"

text \<open>
  The arrays keep their size; slots from \<open>session_slots\<close> on have never been used; no two active
  sessions belong to one public key; every active session belongs to a configured peer.
\<close>

definition tables_ok :: "'k peer_state \<Rightarrow> bool" where
  "tables_ok st \<longleftrightarrow>
     length (sessions st) = MAX_PEERS \<and> session_slots st \<le> MAX_PEERS \<and>
     length (pending_hs st) = MAX_PEERS \<and> length (peer_configs st) \<le> MAX_PEERS \<and>
     (\<forall>c \<in> set (peer_configs st). config_wf c) \<and> (\<forall>s \<in> set (sessions st). session_wf s)"

definition sessions_ok :: "'k peer_state \<Rightarrow> bool" where
  "sessions_ok st \<longleftrightarrow>
     (\<forall>i < MAX_PEERS. active (sessions st ! i) \<longrightarrow>
        i < session_slots st \<and> static_pub (sessions st ! i) \<in> pc_pub ` set (peer_configs st)) \<and>
     (\<forall>i < MAX_PEERS. \<forall>j < MAX_PEERS. active (sessions st ! i) \<longrightarrow> active (sessions st ! j) \<longrightarrow>
        static_pub (sessions st ! i) = static_pub (sessions st ! j) \<longrightarrow> i = j)"

text \<open>
  A pending handshake names a configured peer and holds its ephemeral key, and a session that waits
  for a rekey has a pending handshake with its peer.
\<close>

definition pending_ok :: "'k peer_state \<Rightarrow> bool" where
  "pending_ok st \<longleftrightarrow>
     (\<forall>j < MAX_PEERS. p_active (pending_hs st ! j) \<longrightarrow>
        cfg_idx (pending_hs st ! j) < length (peer_configs st) \<and> eph_key (hs_state (pending_hs st ! j)) \<noteq> None)"

definition rekey_ok :: "'k peer_state \<Rightarrow> bool" where
  "rekey_ok st \<longleftrightarrow>
     (\<forall>i < MAX_PEERS. active (sessions st ! i) \<longrightarrow> rekeying (sessions st ! i) \<longrightarrow>
        (\<exists>j < MAX_PEERS. p_active (pending_hs st ! j) \<and>
           pc_pub (peer_configs st ! cfg_idx (pending_hs st ! j)) = static_pub (sessions st ! i)))"

text \<open>The same with sessions of one key left out, for states in the middle of a handler.\<close>

definition rekey_ok_except :: "bytes \<Rightarrow> 'k peer_state \<Rightarrow> bool" where
  "rekey_ok_except pub st \<longleftrightarrow>
     (\<forall>i < MAX_PEERS. active (sessions st ! i) \<longrightarrow> rekeying (sessions st ! i) \<longrightarrow>
        static_pub (sessions st ! i) \<noteq> pub \<longrightarrow>
        (\<exists>j < MAX_PEERS. p_active (pending_hs st ! j) \<and>
           pc_pub (peer_configs st ! cfg_idx (pending_hs st ! j)) = static_pub (sessions st ! i)))"

definition peer_inv :: "'k peer_state \<Rightarrow> bool" where
  "peer_inv st \<longleftrightarrow> tables_ok st \<and> sessions_ok st \<and> pending_ok st \<and> rekey_ok st"

lemma rekey_ok_imp_except: "rekey_ok st \<Longrightarrow> rekey_ok_except pub st"
  unfolding rekey_ok_def rekey_ok_except_def by blast

lemma rekey_ok_except_absent:
  assumes "rekey_ok_except pub st" "\<And>i. i < MAX_PEERS \<Longrightarrow> active (sessions st ! i) \<Longrightarrow> static_pub (sessions st ! i) \<noteq> pub"
  shows "rekey_ok st"
  using assms unfolding rekey_ok_def rekey_ok_except_def by blast

lemma peer_invD:
  assumes "peer_inv st"
  shows "tables_ok st" "sessions_ok st" "pending_ok st" "rekey_ok st"
  using assms by (auto simp: peer_inv_def)

lemma tables_okD:
  assumes "tables_ok st"
  shows "length (sessions st) = MAX_PEERS" "session_slots st \<le> MAX_PEERS" "length (pending_hs st) = MAX_PEERS"
    "length (peer_configs st) \<le> MAX_PEERS" "i < MAX_PEERS \<Longrightarrow> session_wf (sessions st ! i)"
    "k < length (peer_configs st) \<Longrightarrow> config_wf (peer_configs st ! k)"
  using assms by (auto simp: tables_ok_def)

lemma sessions_ok_uniqueD:
  "sessions_ok st \<Longrightarrow> i < MAX_PEERS \<Longrightarrow> j < MAX_PEERS \<Longrightarrow> active (sessions st ! i) \<Longrightarrow> active (sessions st ! j) \<Longrightarrow>
     static_pub (sessions st ! i) = static_pub (sessions st ! j) \<Longrightarrow> i = j"
  unfolding sessions_ok_def by blast

lemma sessions_okD:
  "sessions_ok st \<Longrightarrow> i < MAX_PEERS \<Longrightarrow> active (sessions st ! i) \<Longrightarrow>
     i < session_slots st \<and> static_pub (sessions st ! i) \<in> pc_pub ` set (peer_configs st)"
  unfolding sessions_ok_def by blast

lemma zero_session_wf: "session_wf zero_session"
  by (simp add: session_wf_def zero_session_def const_defs)

lemma init_state_inv: "peer_inv init_state"
  by (simp add: peer_inv_def tables_ok_def sessions_ok_def pending_ok_def rekey_ok_def init_state_def
        zero_session_wf) (simp add: zero_session_def zero_pending_def)

section \<open>Lookups\<close>

lemma find_session_by_pub_SomeD:
  assumes "find_session_by_pub st pub = Some i"
  shows "i < session_slots st" "active (sessions st ! i)" "static_pub (sessions st ! i) = pub"
  using first_idx_SomeD(1,2) [OF assms [unfolded find_session_by_pub_def]] by auto

lemma find_session_by_pub_None:
  assumes "find_session_by_pub st pub = None" "i < session_slots st" "active (sessions st ! i)"
  shows "static_pub (sessions st ! i) \<noteq> pub"
  using assms by (auto simp: find_session_by_pub_def)

lemma find_session_by_addr_SomeD:
  assumes "find_session_by_addr st a = Some i"
  shows "i < session_slots st" "active (sessions st ! i)" "addr (sessions st ! i) = a"
  using first_idx_SomeD(1,2) [OF assms [unfolded find_session_by_addr_def]] by auto

lemma find_peer_config_SomeD:
  assumes "find_peer_config st pub = Some i"
  shows "i < length (peer_configs st)" "pc_pub (peer_configs st ! i) = pub"
  using first_idx_SomeD(1,2) [OF assms [unfolded find_peer_config_def]] by auto

text \<open>The lookup by key finds the one session of that key.\<close>

lemma find_session_by_pub_eq:
  assumes "tables_ok st" "sessions_ok st" "i < MAX_PEERS" "active (sessions st ! i)"
  shows "find_session_by_pub st (static_pub (sessions st ! i)) = Some i"
  unfolding find_session_by_pub_def
  using assms by (intro first_idx_unique) (auto simp: tables_ok_def sessions_ok_def)

section \<open>Allocation\<close>

lemma alloc_session_eq:
  "alloc_session st pub a =
     (case find_session_by_pub st pub of Some i \<Rightarrow> (Some i, st) | None \<Rightarrow>
      case find_session_by_addr st a of Some i \<Rightarrow> (Some i, st) | None \<Rightarrow>
      case first_idx (\<lambda>i. \<not> active (sessions st ! i)) (session_slots st) of Some i \<Rightarrow> (Some i, st) | None \<Rightarrow>
      if session_slots st \<ge> MAX_PEERS then (None, st)
      else (Some (session_slots st), st\<lparr>session_slots := session_slots st + 1\<rparr>))"
  by (simp add: alloc_session_def find_session_by_pub_def)

lemma alloc_session_SomeD:
  assumes "tables_ok st" "sessions_ok st" "alloc_session st pub a = (Some i, st')"
  shows "\<exists>n. st' = st\<lparr>session_slots := n\<rparr> \<and> session_slots st \<le> n \<and> n \<le> MAX_PEERS \<and> i < n"
    and "k < MAX_PEERS \<Longrightarrow> active (sessions st ! k) \<Longrightarrow> static_pub (sessions st ! k) = pub \<Longrightarrow> k = i"
proof -
  have triv: "st = st\<lparr>session_slots := session_slots st\<rparr>" by simp
  show "\<exists>n. st' = st\<lparr>session_slots := n\<rparr> \<and> session_slots st \<le> n \<and> n \<le> MAX_PEERS \<and> i < n"
    using assms(1,3) triv
    by (intro exI [of _ "session_slots st'"]) (auto simp: alloc_session_eq tables_ok_def dest!: find_session_by_pub_SomeD(1)
          find_session_by_addr_SomeD(1) first_idx_SomeD(1) split: option.splits if_splits)
  assume k: "k < MAX_PEERS" "active (sessions st ! k)" "static_pub (sessions st ! k) = pub"
  then have "find_session_by_pub st pub = Some k"
    using find_session_by_pub_eq [OF assms(1,2) k(1,2)] by simp
  then show "k = i" using assms(3) by (simp add: alloc_session_eq)
qed

lemma alloc_session_NoneD:
  assumes "alloc_session st pub a = (None, st')"
  shows "st' = st" "session_slots st \<ge> MAX_PEERS"
    "i < session_slots st \<Longrightarrow> active (sessions st ! i) \<and> static_pub (sessions st ! i) \<noteq> pub \<and> addr (sessions st ! i) \<noteq> a"
  using assms
  by (auto simp: alloc_session_eq find_session_by_pub_def find_session_by_addr_def split: option.splits if_splits)

section \<open>Initialising a session\<close>

lemma init_slot_fields:
  assumes "init_slot E st a pub key cfg ob s0 w = (s, w')"
  shows "active s" "addr s = a" "static_pub s = pub" "session_key s = key" "\<not> rekeying s"
    "send_seq s = 0" "recv_seq_highest s = 0" "recv_seq_window s = replicate REPLAY_WINDOW_WORDS 0"
    "last_seen s = 0" "is_outbound s = ob" "prev_key_active s = active s0"
    "prev_session_key s = (if active s0 then session_key s0 else prev_session_key s0)"
    "route_count s = (case cfg of None \<Rightarrow> 0 | Some c \<Rightarrow> pc_route_count c)"
    "routes s = (case cfg of None \<Rightarrow> routes s0
                 | Some c \<Rightarrow> copy_prefix (pc_route_count c) (pc_routes c) (routes s0))"
    "trace w' = trace w" "files w' = files w"
  using assms
  by (auto simp: init_slot_def Let_def sys_time_def split: if_splits option.splits)

lemma init_slot_wf:
  assumes "init_slot E st a pub key cfg ob s0 w = (s, w')" "session_wf s0"
    and "\<And>c. cfg = Some c \<Longrightarrow> config_wf c"
  shows "session_wf s"
  using assms(2,3) init_slot_fields(8,13,14) [OF assms(1)]
  by (cases cfg) (auto simp: session_wf_def config_wf_def copy_prefix_def)

text \<open>Allocation followed by initialisation, as both handshake paths do it, keeps the invariant.\<close>

lemma install_sessions:
  assumes "tables_ok st" "sessions_ok st" "alloc_session st pub a = (Some i, st1)"
    and "session_init E i a pub key cfg ob st1 w = (st2, w2)"
  obtains s n where "init_slot E st1 a pub key cfg ob (sessions st ! i) w = (s, w2)"
    "sessions st2 = (sessions st)[i := s]" "session_slots st2 = n" "session_slots st \<le> n" "i < n"
    "n \<le> MAX_PEERS" "peer_configs st2 = peer_configs st" "pending_hs st2 = pending_hs st"
    "\<forall>k < MAX_PEERS. active (sessions st ! k) \<longrightarrow> static_pub (sessions st ! k) = pub \<longrightarrow> k = i"
proof -
  from alloc_session_SomeD(1) [OF assms(1-3)] obtain n where
    n: "st1 = st\<lparr>session_slots := n\<rparr>" "session_slots st \<le> n" "n \<le> MAX_PEERS" "i < n" by auto
  obtain s where s: "init_slot E st1 a pub key cfg ob (sessions st ! i) w = (s, w2)"
      "st2 = upd_session i (\<lambda>_. s) st1"
    using assms(4) n(1) by (auto simp: session_init_def split: prod.splits)
  show ?thesis
    using n alloc_session_SomeD(2) [OF assms(1-3)]
    by (intro that [OF s(1), of n]) (auto simp: s(2) upd_session_def)
qed

lemma install_inv [preserves]:
  assumes t: "tables_ok st" and so: "sessions_ok st" and po: "pending_ok st" and ro: "rekey_ok_except pub st"
    and al: "alloc_session st pub a = (Some i, st1)"
    and ini: "session_init E i a pub key (Some c) ob st1 w = (st2, w2)"
    and c: "c \<in> set (peer_configs st)" "pc_pub c = pub"
  shows "peer_inv st2"
proof -
  obtain s n where s: "init_slot E st1 a pub key (Some c) ob (sessions st ! i) w = (s, w2)"
    "sessions st2 = (sessions st)[i := s]" "session_slots st2 = n" "session_slots st \<le> n" "i < n"
    "n \<le> MAX_PEERS" "peer_configs st2 = peer_configs st" "pending_hs st2 = pending_hs st"
    and uniq: "\<forall>k < MAX_PEERS. active (sessions st ! k) \<longrightarrow> static_pub (sessions st ! k) = pub \<longrightarrow> k = i"
    by (rule install_sessions [OF t so al ini])
  note f = init_slot_fields [OF s(1)]
  have l: "i < MAX_PEERS" "length (sessions st) = MAX_PEERS" using s(5,6) t by (auto simp: tables_ok_def)
  have "session_wf s"
    using t l c(1) by (intro init_slot_wf [OF s(1)]) (simp_all add: tables_ok_def)
  then have "\<forall>x \<in> set (sessions st2). session_wf x"
    using t set_update_subset_insert [of "sessions st" i s] unfolding s(2) tables_ok_def by blast
  then have "tables_ok st2" using t s(6) by (simp add: tables_ok_def s(2,3,7,8))
  moreover have "sessions_ok st2"
  proof -
    have nth: "sessions st2 ! k = (if k = i then s else sessions st ! k)" if "k < MAX_PEERS" for k
      using that l by (simp add: s(2))
    have "k < n \<and> static_pub (sessions st2 ! k) \<in> pc_pub ` set (peer_configs st)"
      if "k < MAX_PEERS" "active (sessions st2 ! k)" for k
      using that sessions_okD [OF so that(1)] s(4,5) c f(3) by (cases "k = i") (auto simp: nth)
    moreover have "k = j" if "k < MAX_PEERS" "j < MAX_PEERS" "active (sessions st2 ! k)"
        "active (sessions st2 ! j)" "static_pub (sessions st2 ! k) = static_pub (sessions st2 ! j)" for k j
      using that uniq sessions_ok_uniqueD [OF so that(1,2)] nth [OF that(1)] nth [OF that(2)] f(3) by metis
    ultimately show ?thesis unfolding sessions_ok_def s(3,7) by blast
  qed
  moreover have "pending_ok st2" using po by (simp add: pending_ok_def s(7,8))
  moreover have "rekey_ok st2"
    using ro uniq f(5) l unfolding rekey_ok_def rekey_ok_except_def s(2,7,8) by (auto simp: nth_list_update)
  ultimately show ?thesis by (simp add: peer_inv_def)
qed

section \<open>Routing\<close>

text \<open>
  All routes the lookup considers, with the session that owns each, in the order the loops visit them.
\<close>

definition route_table :: "'k peer_state \<Rightarrow> (nat \<times> ip_prefix) list" where
  "route_table st =
     concat (map (\<lambda>i. if active (sessions st ! i)
                       then map (Pair i) (take (route_count (sessions st ! i)) (routes (sessions st ! i)))
                       else []) [0..<session_slots st])"

text \<open>The two nested loops are one pass over that table.\<close>

lemma fold_concat_map: "fold f (concat (map g xs)) b = fold (\<lambda>x. fold f (g x)) xs b"
  by (induction xs arbitrary: b) auto

lemma route_lookup_table:
  "route_lookup st dst = fst (fold (\<lambda>(i, r). scan_route dst i r) (route_table st) (None, -1))"
proof -
  have "scan_session dst st = (\<lambda>i. fold (\<lambda>(i, r). scan_route dst i r)
        (if active (sessions st ! i)
         then map (Pair i) (take (route_count (sessions st ! i)) (routes (sessions st ! i))) else []))"
    by (intro ext) (simp add: scan_session_def fold_map comp_def)
  then show ?thesis
    by (simp only: route_lookup_def route_table_def fold_concat_map)
qed

text \<open>The pass keeps the first entry of maximal prefix length among those that match.\<close>

definition best_of :: "u32 \<Rightarrow> (nat \<times> ip_prefix) list \<Rightarrow> nat option \<times> int \<Rightarrow> bool" where
  "best_of dst T b \<longleftrightarrow>
     (case fst b of
        None \<Rightarrow> snd b = -1 \<and> (\<forall>(i, r) \<in> set T. \<not> prefix_matches dst r)
      | Some i \<Rightarrow> \<exists>r T1 T2. T = T1 @ (i, r) # T2 \<and> prefix_matches dst r \<and> prefix_len r = snd b \<and>
          (\<forall>(k, q) \<in> set T. prefix_matches dst q \<longrightarrow> prefix_len q \<le> snd b) \<and>
          (\<forall>(k, q) \<in> set T1. prefix_matches dst q \<longrightarrow> prefix_len q < snd b))"

lemma best_of_SomeI:
  assumes "T = T1 @ (i, r) # T2" "prefix_matches dst r"
    and "\<forall>(k, q) \<in> set T. prefix_matches dst q \<longrightarrow> prefix_len q \<le> prefix_len r"
    and "\<forall>(k, q) \<in> set T1. prefix_matches dst q \<longrightarrow> prefix_len q < prefix_len r"
  shows "best_of dst T (Some i, prefix_len r)"
  unfolding best_of_def fst_conv option.case
  by (rule exI [of _ r], rule exI [of _ T1], rule exI [of _ T2]) (use assms in simp)

lemma best_of_snoc:
  assumes "best_of dst T b" "0 \<le> prefix_len r"
  shows "best_of dst (T @ [(i, r)]) (scan_route dst i r b)"
proof (cases "prefix_matches dst r \<and> prefix_len r > snd b")
  case True
  have "\<forall>(k, q) \<in> set T. prefix_matches dst q \<longrightarrow> prefix_len q < prefix_len r"
    using assms(1) True by (cases "fst b") (fastforce simp: best_of_def)+
  then have "best_of dst (T @ [(i, r)]) (Some i, prefix_len r)"
    using True by (intro best_of_SomeI [of _ T _ _ "[]"]) auto
  with True show ?thesis by (simp add: scan_route_def)
next
  case False
  then have b: "scan_route dst i r b = b" by (auto simp: scan_route_def)
  show ?thesis
  proof (cases "fst b")
    case None
    with assms False show ?thesis by (auto simp: b best_of_def)
  next
    case (Some k)
    with assms(1) obtain q T1 T2 where q: "T = T1 @ (k, q) # T2" "prefix_matches dst q" "b = (Some k, prefix_len q)"
      "\<forall>(k, q') \<in> set T. prefix_matches dst q' \<longrightarrow> prefix_len q' \<le> prefix_len q"
      "\<forall>(k, q') \<in> set T1. prefix_matches dst q' \<longrightarrow> prefix_len q' < prefix_len q"
      by (cases b) (auto simp: best_of_def)
    have "best_of dst (T @ [(i, r)]) (Some k, prefix_len q)"
      using q False by (intro best_of_SomeI [of _ T1 _ _ "T2 @ [(i, r)]"]) auto
    then show ?thesis unfolding b unfolding q(3) .
  qed
qed

lemma best_of_fold:
  assumes "\<forall>(i, r) \<in> set T. 0 \<le> prefix_len r"
  shows "best_of dst T (fold (\<lambda>(i, r). scan_route dst i r) T (None, -1))"
  using assms
proof (induction T rule: rev_induct)
  case Nil
  then show ?case by (simp add: best_of_def)
next
  case (snoc x T)
  then show ?case by (cases x) (auto intro: best_of_snoc)
qed

abbreviation used_routes :: "peer_session \<Rightarrow> ip_prefix list" where
  "used_routes s \<equiv> take (route_count s) (routes s)"

lemma set_route_table:
  "(i, r) \<in> set (route_table st) \<longleftrightarrow>
     i < session_slots st \<and> active (sessions st ! i) \<and> r \<in> set (used_routes (sessions st ! i))"
  by (auto simp: route_table_def)

lemma sorted_blocks:
  "sorted (map fst (concat (map (\<lambda>i. if P i then map (Pair i) (g i) else []) [0..<n])))"
  by (induction n) (auto simp: sorted_append comp_def map_replicate_const)

lemma route_table_order:
  assumes "route_table st = T1 @ (i, r) # T2" "(k, q) \<in> set (route_table st)" "k < i"
  shows "(k, q) \<in> set T1"
proof -
  have "sorted (map fst (route_table st))" unfolding route_table_def by (rule sorted_blocks)
  then have "\<forall>x \<in> set T2. i \<le> fst x" by (simp add: assms(1) sorted_append)
  with assms show ?thesis by auto
qed

lemma peer_inv_prefixes:
  assumes "peer_inv st" "i < session_slots st" "r \<in> set (used_routes (sessions st ! i))"
  shows "prefix_wf r"
proof -
  have "i < length (sessions st)" using assms(1,2) by (simp add: peer_inv_def tables_ok_def)
  then have "session_wf (sessions st ! i)" using assms(1) by (simp add: peer_inv_def tables_ok_def)
  with assms(3) show ?thesis by (simp add: session_wf_def)
qed

lemma route_lookup_best:
  assumes "peer_inv st"
  shows "best_of dst (route_table st) (fold (\<lambda>(i, r). scan_route dst i r) (route_table st) (None, -1))"
  using peer_inv_prefixes [OF assms] by (intro best_of_fold) (auto simp: set_route_table prefix_wf_def)

lemma route_lookup_active:
  assumes "peer_inv st" "route_lookup st dst = Some i"
  shows "i < session_slots st" "active (sessions st ! i)"
proof -
  from route_lookup_best [OF assms(1), of dst] assms(2) obtain r T1 T2 where "route_table st = T1 @ (i, r) # T2"
    by (auto simp: best_of_def route_lookup_table)
  then have "(i, r) \<in> set (route_table st)" by simp
  then show "i < session_slots st" "active (sessions st ! i)" by (simp_all only: set_route_table)
qed

section \<open>A concrete table\<close>

text \<open>
  Two connected peers, with static keys 2 and 7 and the routes 10.0.0.0/8 and 10.1.0.0/16: the instance on
  which the properties of the tables and of the event loop are evaluated.
\<close>

definition net8 :: ip_prefix where
  "net8 = \<lparr>network = 0x0a000000, mask = 0xff000000, prefix_len = 8\<rparr>"

definition net16 :: ip_prefix where
  "net16 = \<lparr>network = 0x0a010000, mask = 0xffff0000, prefix_len = 16\<rparr>"

definition addr_a :: sockaddr_in where "addr_a = \<lparr>s_addr = 1, sin_port = 5040\<rparr>"
definition addr_b :: sockaddr_in where "addr_b = \<lparr>s_addr = 2, sin_port = 5040\<rparr>"

definition sample_config :: "nat \<Rightarrow> ip_prefix \<Rightarrow> sockaddr_in \<Rightarrow> peer_config" where
  "sample_config k r a = zero_config\<lparr>pc_pub := be_bytes 32 k, pc_routes := r # replicate 15 zero_prefix,
     pc_route_count := 1, has_endpoint := True, endpoint := a, endpoint_port := 5040\<rparr>"

definition sample_session :: "nat \<Rightarrow> ip_prefix \<Rightarrow> sockaddr_in \<Rightarrow> peer_session" where
  "sample_session k r a = zero_session\<lparr>active := True, addr := a, static_pub := be_bytes 32 k,
     session_key := be_bytes 32 (k + 100), routes := r # replicate 15 zero_prefix, route_count := 1,
     last_handshake := 1000, last_sent := 1000\<rparr>"

definition sample_state :: "nat peer_state" where
  "sample_state = init_state\<lparr>peer_configs := [sample_config 2 net8 addr_a, sample_config 7 net16 addr_b],
     sessions := sample_session 2 net8 addr_a # sample_session 7 net16 addr_b # replicate 62 zero_session,
     session_slots := 2\<rparr>"

lemma sample_sessions_nth:
  "i < MAX_PEERS \<Longrightarrow> sessions sample_state ! i =
     (if i = 0 then sample_session 2 net8 addr_a else if i = 1 then sample_session 7 net16 addr_b
      else zero_session)"
  by (auto simp: sample_state_def nth_Cons' const_defs)

lemma net_wf: "prefix_wf net8" "prefix_wf net16"
  by code_simp+

lemma sample_session_simps [simp]:
  "active (sample_session k r a)" "static_pub (sample_session k r a) = be_bytes 32 k"
  "addr (sample_session k r a) = a" "\<not> rekeying (sample_session k r a)" "\<not> active zero_session"
  "route_count (sample_session k r a) = 1" "routes (sample_session k r a) = r # replicate 15 zero_prefix"
  "session_key (sample_session k r a) = be_bytes 32 (k + 100)"
  by (simp_all add: sample_session_def zero_session_def)

lemma sample_wf: "prefix_wf r \<Longrightarrow> config_wf (sample_config k r a)" "prefix_wf r \<Longrightarrow> session_wf (sample_session k r a)"
  by (simp_all add: config_wf_def session_wf_def sample_config_def sample_session_def zero_config_def
        zero_session_def const_defs)

lemma sample_pubs: "be_bytes 32 2 \<noteq> be_bytes 32 7"
  by (simp add: be_bytes_inject)

lemma sample_state_inv: "peer_inv sample_state"
proof -
  have "tables_ok sample_state"
    by (simp add: tables_ok_def sample_state_def init_state_def sample_wf net_wf zero_session_wf const_defs)
  moreover have "sessions_ok sample_state"
    using sample_pubs
    by (auto simp: sessions_ok_def sample_sessions_nth split: if_splits)
       (simp_all add: sample_state_def sample_config_def)
  moreover have "pending_ok sample_state"
    by (simp add: pending_ok_def sample_state_def init_state_def zero_pending_def)
  moreover have "rekey_ok sample_state"
    by (auto simp: rekey_ok_def sample_sessions_nth)
  ultimately show ?thesis by (simp add: peer_inv_def)
qed

section \<open>Properties\<close>

text \<open>C7. Longest-prefix routing: \<open>route_lookup\<close> returns an active session that owns a route containing
  the destination, no active session owns a longer matching route, and among sessions with equally
  long matches it returns the one in the lowest slot; it finds nothing exactly when no route of an
  active session contains the destination.\<close>

theorem route_lookup_longest_prefix:
  assumes "peer_inv st"
  shows "case route_lookup st dst of
      None \<Rightarrow> \<forall>i < session_slots st. active (sessions st ! i) \<longrightarrow>
                (\<forall>r \<in> set (used_routes (sessions st ! i)). \<not> prefix_matches dst r)
    | Some i \<Rightarrow> i < session_slots st \<and> active (sessions st ! i) \<and>
        (\<exists>r \<in> set (used_routes (sessions st ! i)). prefix_matches dst r \<and>
           (\<forall>k < session_slots st. active (sessions st ! k) \<longrightarrow>
              (\<forall>q \<in> set (used_routes (sessions st ! k)). prefix_matches dst q \<longrightarrow>
                 prefix_len q \<le> prefix_len r \<and> (k < i \<longrightarrow> prefix_len q < prefix_len r))))"
proof -
  note b = route_lookup_best [OF assms, of dst]
  show ?thesis
  proof (cases "route_lookup st dst")
    case None
    with b show ?thesis by (auto simp: best_of_def route_lookup_table set_route_table)
  next
    case (Some i)
    with b obtain r T1 T2 where r: "route_table st = T1 @ (i, r) # T2" "prefix_matches dst r"
      "\<forall>(k, q) \<in> set (route_table st). prefix_matches dst q \<longrightarrow> prefix_len q \<le> prefix_len r"
      "\<forall>(k, q) \<in> set T1. prefix_matches dst q \<longrightarrow> prefix_len q < prefix_len r"
      by (auto simp: best_of_def route_lookup_table)
    have "(i, r) \<in> set (route_table st)" by (simp add: r(1))
    then have "i < session_slots st \<and> active (sessions st ! i) \<and> r \<in> set (used_routes (sessions st ! i))"
      by (simp only: set_route_table)
    moreover have "\<forall>k < session_slots st. active (sessions st ! k) \<longrightarrow>
        (\<forall>q \<in> set (used_routes (sessions st ! k)). prefix_matches dst q \<longrightarrow>
           prefix_len q \<le> prefix_len r \<and> (k < i \<longrightarrow> prefix_len q < prefix_len r))"
      using r(3,4) route_table_order [OF r(1)] set_route_table by fast
    ultimately show ?thesis using Some r(2) by auto
  qed
qed

lemma sample_route_table: "route_table sample_state = [(0, net8), (1, net16)]"
  by (simp add: route_table_def upt_rec [of 0] upt_rec [of 1] sample_sessions_nth const_defs)
     (simp add: sample_state_def upt_rec)

lemma sample_route: "route_lookup sample_state 0x0a010203 = Some 1"
  by (simp add: route_lookup_table sample_route_table scan_route_def prefix_matches_def net8_def net16_def)

theorem route_lookup_longest_prefix_witness:
  "peer_inv sample_state \<and> route_lookup sample_state 0x0a010203 = Some 1 \<and>
   (\<exists>r \<in> set (used_routes (sessions sample_state ! 1)). prefix_matches 0x0a010203 r)"
  using route_lookup_longest_prefix [OF sample_state_inv, of "0x0a010203"] sample_route sample_state_inv
  by auto

text \<open>C24. Connecting a configured peer: allocation fails only when all 64 slots hold sessions of other
  keys at other addresses, and then changes nothing. Otherwise the slot it picks becomes the one
  session of that key, with the new key, exactly the routes configured for the peer, sequence numbers from
  zero and an empty replay window, the old key of the slot kept as previous key exactly when the slot was
  in use. Packets from the new address are looked up in this slot exactly when no lower slot is in use by
  another peer at the same address. No other slot changes, nothing is sent, and the invariant of the
  tables is kept.\<close>

theorem connect_peer:
  assumes "peer_inv st" "find_peer_config st pub = Some ci"
  shows "case alloc_session st pub a of
      (None, st1) \<Rightarrow> st1 = st \<and> session_slots st = MAX_PEERS \<and>
        (\<forall>k < MAX_PEERS. active (sessions st ! k) \<and> static_pub (sessions st ! k) \<noteq> pub \<and> addr (sessions st ! k) \<noteq> a)
    | (Some i, st1) \<Rightarrow>
        (\<forall>st2 w2. session_init E i a pub key (Some (peer_configs st ! ci)) ob st1 w = (st2, w2) \<longrightarrow>
           peer_inv st2 \<and> find_session_by_pub st2 pub = Some i \<and> trace w2 = trace w \<and>
           (\<forall>k < MAX_PEERS. k \<noteq> i \<longrightarrow> sessions st2 ! k = sessions st ! k) \<and>
           session_key (sessions st2 ! i) = key \<and> addr (sessions st2 ! i) = a \<and>
           send_seq (sessions st2 ! i) = 0 \<and>
           (recv_seq_highest (sessions st2 ! i), recv_seq_window (sessions st2 ! i)) = replay_init \<and>
           prev_key_active (sessions st2 ! i) = active (sessions st ! i) \<and>
           (active (sessions st ! i) \<longrightarrow> prev_session_key (sessions st2 ! i) = session_key (sessions st ! i)) \<and>
           used_routes (sessions st2 ! i) = take (pc_route_count (peer_configs st ! ci)) (pc_routes (peer_configs st ! ci)) \<and>
           route_count (sessions st2 ! i) = pc_route_count (peer_configs st ! ci) \<and>
           is_outbound (sessions st2 ! i) = ob \<and>
           (find_session_by_addr st2 a = Some i \<longleftrightarrow> (\<forall>k < i. \<not> (active (sessions st ! k) \<and> addr (sessions st ! k) = a))))"
proof (cases "alloc_session st pub a")
  case (Pair r st1)
  have inv: "tables_ok st" "sessions_ok st" using assms(1) by (auto simp: peer_inv_def)
  show ?thesis
  proof (cases r)
    case None
    from alloc_session_NoneD [OF Pair [unfolded None]] inv(1) show ?thesis
      by (auto simp: Pair None tables_ok_def)
  next
    case (Some i)
    note c = find_peer_config_SomeD [OF assms(2)]
    let ?c = "peer_configs st ! ci"
    let ?Q = "\<lambda>st2 w2 s. peer_inv st2 \<and> find_session_by_pub st2 pub = Some i \<and> trace w2 = trace w \<and>
       (\<forall>k < MAX_PEERS. k \<noteq> i \<longrightarrow> sessions st2 ! k = sessions st ! k) \<and> session_key s = key \<and> addr s = a \<and>
       send_seq s = 0 \<and> (recv_seq_highest s, recv_seq_window s) = replay_init \<and>
       prev_key_active s = active (sessions st ! i) \<and>
       (active (sessions st ! i) \<longrightarrow> prev_session_key s = session_key (sessions st ! i)) \<and>
       used_routes s = take (pc_route_count ?c) (pc_routes ?c) \<and> route_count s = pc_route_count ?c \<and> is_outbound s = ob \<and>
       (find_session_by_addr st2 a = Some i \<longleftrightarrow> (\<forall>k < i. \<not> (active (sessions st ! k) \<and> addr (sessions st ! k) = a)))"
    have "?Q st2 w2 (sessions st2 ! i)"
      if ini: "session_init E i a pub key (Some ?c) ob st1 w = (st2, w2)" for st2 w2
    proof -
      have p: "peer_inv st2"
        using install_inv [OF peer_invD(1-3) [OF assms(1)] rekey_ok_imp_except [OF peer_invD(4) [OF assms(1)]]
            Pair [unfolded Some] ini] c by simp
      obtain s where s: "init_slot E st1 a pub key (Some ?c) ob (sessions st ! i) w = (s, w2)"
        "sessions st2 = (sessions st)[i := s]" "i < session_slots st2" "session_slots st2 \<le> MAX_PEERS"
        by (rule install_sessions [OF inv Pair [unfolded Some] ini]) blast
      note f = init_slot_fields [OF s(1)]
      have i: "i < MAX_PEERS" "sessions st2 ! i = s" using s inv(1) by (auto simp: tables_ok_def)
      have other: "sessions st2 ! k = sessions st ! k" if "k \<noteq> i" for k using s(2) that by simp
      have "find_session_by_pub st2 pub = Some i"
        using find_session_by_pub_eq [of st2 i] p i f(1,3) by (simp add: peer_inv_def)
      moreover have "used_routes s = take (pc_route_count ?c) (pc_routes ?c)"
        using f(13,14) tables_okD(6) [OF inv(1), of ci] c by (simp add: copy_prefix_def config_wf_def)
      moreover have "find_session_by_addr st2 a = Some i \<longleftrightarrow> (\<forall>k < i. \<not> (active (sessions st ! k) \<and> addr (sessions st ! k) = a))"
        unfolding find_session_by_addr_def
        by (subst first_idx_Some_iff) (use s(3) i(2) f(1,2) other in auto)
      ultimately show ?thesis using p i s(2) f by (simp add: replay_init_def REPLAY_WINDOW_WORDS_def)
    qed
    then show ?thesis unfolding Pair Some by (simp only: prod.case option.case) blast
  qed
qed

lemma sample_find: "find_peer_config sample_state (be_bytes 32 7) = Some 1"
  unfolding find_peer_config_def using sample_pubs
  by (intro first_idx_unique) (auto simp: sample_state_def sample_config_def less_Suc_eq)

theorem connect_peer_witness:
  "\<exists>st1 st2 w2. alloc_session sample_state (be_bytes 32 7) \<lparr>s_addr = 3, sin_port = 6000\<rparr> = (Some 1, st1) \<and>
     session_init sample_env 1 \<lparr>s_addr = 3, sin_port = 6000\<rparr> (be_bytes 32 7) (be_bytes 32 9)
       (Some (peer_configs sample_state ! 1)) False st1 fresh_world = (st2, w2) \<and>
     peer_inv st2 \<and> used_routes (sessions st2 ! 1) = [net16] \<and> prev_session_key (sessions st2 ! 1) = be_bytes 32 107 \<and>
     find_session_by_addr st2 \<lparr>s_addr = 3, sin_port = 6000\<rparr> = Some 1"
proof -
  let ?a = "\<lparr>s_addr = 3, sin_port = 6000\<rparr> :: sockaddr_in"
  have "find_session_by_pub sample_state (be_bytes 32 7) = Some 1"
    using find_session_by_pub_eq [of sample_state 1] sample_state_inv
    by (simp add: peer_inv_def sample_sessions_nth MAX_PEERS_def)
  then have al: "alloc_session sample_state (be_bytes 32 7) ?a = (Some 1, sample_state)"
    by (simp add: alloc_session_eq)
  obtain st2 w2 where st2: "session_init sample_env 1 ?a (be_bytes 32 7) (be_bytes 32 9)
      (Some (peer_configs sample_state ! 1)) False sample_state fresh_world = (st2, w2)" by (metis surj_pair)
  have c: "peer_configs sample_state ! Suc 0 = sample_config 7 net16 addr_b" by (simp add: sample_state_def)
  have "\<not> (active (sessions sample_state ! 0) \<and> addr (sessions sample_state ! 0) = ?a)"
    by (simp add: sample_sessions_nth MAX_PEERS_def addr_a_def)
  with connect_peer [OF sample_state_inv sample_find, of ?a sample_env "be_bytes 32 9" False fresh_world] al st2
  show ?thesis by (auto simp: c sample_config_def sample_sessions_nth MAX_PEERS_def)
qed

text \<open>C33. Takeover of an address: when a peer without a session connects from the address of another
  peer's session, it is given that session, and the other peer's session key stays valid as the
  previous key of the new session.\<close>

theorem takeover_keeps_foreign_key:
  assumes "tables_ok st" "find_session_by_pub st pub = None" "find_session_by_addr st a = Some i"
    and "session_init E i a pub key cfg ob st w = (st2, w2)"
  shows "alloc_session st pub a = (Some i, st) \<and> static_pub (sessions st ! i) \<noteq> pub \<and>
     static_pub (sessions st2 ! i) = pub \<and> prev_key_active (sessions st2 ! i) \<and>
     prev_session_key (sessions st2 ! i) = session_key (sessions st ! i)"
proof -
  note i = find_session_by_addr_SomeD [OF assms(3)]
  obtain s where s: "init_slot E st a pub key cfg ob (sessions st ! i) w = (s, w2)" "st2 = upd_session i (\<lambda>_. s) st"
    using assms(4) by (auto simp: session_init_def split: prod.splits)
  have "sessions st2 ! i = s" using assms(1) i(1) by (simp add: s(2) upd_session_def tables_ok_def)
  with init_slot_fields [OF s(1)] find_session_by_pub_None [OF assms(2) i(1,2)] i assms(2,3) show ?thesis
    by (simp add: alloc_session_eq)
qed

theorem takeover_keeps_foreign_key_witness:
  "prev_session_key (sessions (fst (session_init sample_env 0 addr_a (be_bytes 32 9) [] None False sample_state fresh_world)) ! 0)
     = be_bytes 32 102"
proof -
  obtain st2 w2 where i: "session_init sample_env 0 addr_a (be_bytes 32 9) [] None False sample_state fresh_world = (st2, w2)"
    by (metis surj_pair)
  have p: "be_bytes 32 9 \<noteq> be_bytes 32 2" "be_bytes 32 9 \<noteq> be_bytes 32 7"
    by (simp_all add: be_bytes_inject)
  have "find_session_by_pub sample_state (be_bytes 32 9) = None"
    using p by (auto simp: find_session_by_pub_def sample_state_def less_Suc_eq numeral_2_eq_2)
  moreover have "find_session_by_addr sample_state addr_a = Some 0"
    unfolding find_session_by_addr_def
    by (intro first_idx_unique) (auto simp: sample_state_def addr_a_def addr_b_def less_Suc_eq numeral_2_eq_2)
  ultimately show ?thesis
    using takeover_keeps_foreign_key [OF _ _ _ i] sample_state_inv
    by (simp add: i peer_inv_def sample_sessions_nth MAX_PEERS_def)
qed

end
