(* ===== verification/Event_Loop.thy ===== *)
theory Event_Loop
  imports Sessions
begin

text \<open>
  The event loop of \<^verbatim>\<open>src/src/peer.c\<close>: sending through a session, starting a handshake, the periodic
  work (reconnect, time-outs, expiry, keepalive), and the handlers for packets from the tunnel and
  from the socket. Each handler takes the state of the tables and the world and returns both. The
  answers of \<open>epoll_wait\<close>, \<open>read\<close> and \<open>recvfrom\<close> are the inputs of the loop. Log output is not modelled.
\<close>

section \<open>Sending\<close>

definition refresh_precomp_eph :: "('k, 'c, 'p) env \<Rightarrow> 'k peer_state \<Rightarrow> world \<Rightarrow> 'k peer_state \<times> world" where
  "refresh_precomp_eph E st w =
     (case generate_eph_keypair E w of
        (None, w1) \<Rightarrow> (st, w1)
      | (Some (nk, pub), w1) \<Rightarrow> (st\<lparr>precomp_eph_key := Some nk, precomp_eph_pub := pub\<rparr>, w1))"

definition forward_to_peer ::
    "('k, 'c, 'p) env \<Rightarrow> nat \<Rightarrow> bytes \<Rightarrow> 'k peer_state \<Rightarrow> world \<Rightarrow> 'k peer_state \<times> world" where
  "forward_to_peer E i payload st w =
     (let s = sessions st ! i;
          seq_be = htobe64 (send_seq s);
          st1 = upd_session i (\<lambda>s. s\<lparr>send_seq := send_seq s + 1\<rparr>) st;
          plain = pkt_header @ seq_be @ payload
      in case encrypt_packet E (session_key s) plain w of
           (None, w1) \<Rightarrow> (st1, w1)
         | (Some out, w1) \<Rightarrow>
             (case sys_sendto E (addr s) out w1 of
                (False, w2) \<Rightarrow> (st1, w2)
              | (True, w2) \<Rightarrow>
                  (let (t, w3) = sys_time E w2
                   in (upd_session i (\<lambda>s. s\<lparr>last_sent := t\<rparr>) st1, w3))))"

definition initiate_outbound_handshake ::
    "('k, 'c, 'p) env \<Rightarrow> nat \<Rightarrow> bytes \<Rightarrow> bytes option \<Rightarrow> 'k peer_state \<Rightarrow> world
       \<Rightarrow> (bool \<times> 'k peer_state) \<times> world" where
  "initiate_outbound_handshake E ci my_pub psk_key st w =
     (let (t, w1) = sys_time E w;
          st1 = upd_config ci (\<lambda>c. c\<lparr>last_attempt := t\<rparr>) st;
          cfg = peer_configs st1 ! ci
      in case first_idx (\<lambda>i. \<not> p_active (pending_hs st1 ! i)) MAX_PEERS of
           None \<Rightarrow> ((False, st1), w1)
         | Some slot \<Rightarrow>
             (case handshake_client_send E (endpoint cfg) psk_key my_pub (Some (pc_pub cfg)) w1 of
                (None, w2) \<Rightarrow> ((False, st1), w2)
              | (Some hs, w2) \<Rightarrow>
                  (let (t2, w3) = sys_time E w2
                   in ((True, upd_pending slot
                          (\<lambda>_. \<lparr>p_active = True, cfg_idx = ci, sent_at = t2, hs_state = hs,
                                server_addr = endpoint cfg\<rparr>) st1), w3))))"

section \<open>Periodic work\<close>

text \<open>
  \<^verbatim>\<open>cfg_rekey_after * 4 / 5\<close> in 32-bit \<open>int\<close> arithmetic: the product wraps and the division
  truncates.
\<close>

definition rekey_due :: "int \<Rightarrow> int" where
  "rekey_due secs = sint (word_of_int (secs * 4) :: 32 word) sdiv 5"

definition set_rekeying :: "bool \<Rightarrow> nat option \<Rightarrow> 'k peer_state \<Rightarrow> 'k peer_state" where
  "set_rekeying b s st = (case s of None \<Rightarrow> st | Some i \<Rightarrow> upd_session i (\<lambda>s. s\<lparr>rekeying := b\<rparr>) st)"

definition check_peer ::
    "('k, 'c, 'p) env \<Rightarrow> bytes \<Rightarrow> bytes option \<Rightarrow> int \<Rightarrow> nat \<Rightarrow> 'k peer_state \<times> world \<Rightarrow> 'k peer_state \<times> world" where
  "check_peer E my_pub psk_key now i sw =
     (let (st, w) = sw;
          cfg = peer_configs st ! i
      in if \<not> has_endpoint cfg then (st, w)
         else
           let s = find_session_by_pub st (pc_pub cfg);
               needs = (case s of
                          None \<Rightarrow> True
                        | Some k \<Rightarrow> now \<ge> last_handshake (sessions st ! k) + rekey_due (cfg_rekey_after st)
                                    \<and> \<not> rekeying (sessions st ! k));
               ready = (now - last_attempt cfg \<ge> cfg_reconnect_interval st)
           in if needs \<and> ready then
                let ((_, cfg1), w1) = resolve_endpoint E cfg w;
                    st1 = upd_config i (\<lambda>_. cfg1) st;
                    st2 = set_rekeying True s st1;
                    ((ok, st3), w3) = initiate_outbound_handshake E i my_pub psk_key st2 w1
                in (if \<not> ok then set_rekeying False s st3 else st3, w3)
              else (st, w))"

text \<open>Giving up a pending handshake: its key is freed and the peer's session may rekey again.\<close>

definition drop_pending :: "nat \<Rightarrow> 'k peer_state \<Rightarrow> 'k peer_state" where
  "drop_pending j st =
     (let st1 = upd_pending j (\<lambda>p. p\<lparr>hs_state := (hs_state p)\<lparr>eph_key := None\<rparr>, p_active := False\<rparr>) st
      in set_rekeying False
           (find_session_by_pub st1 (pc_pub (peer_configs st1 ! cfg_idx (pending_hs st1 ! j)))) st1)"

definition expire_pending :: "int \<Rightarrow> nat \<Rightarrow> 'k peer_state \<Rightarrow> 'k peer_state" where
  "expire_pending now j st =
     (let p = pending_hs st ! j
      in if \<not> p_active p \<or> now - sent_at p < cfg_handshake_timeout st then st else drop_pending j st)"

definition expire_session :: "int \<Rightarrow> nat \<Rightarrow> 'k peer_state \<Rightarrow> 'k peer_state" where
  "expire_session now j st =
     (let s = sessions st ! j;
          ref = (if last_seen s > 0 then last_seen s else last_handshake s)
      in if \<not> active s \<or> now - ref \<le> cfg_session_expiry st then st
         else upd_session j (\<lambda>s. s\<lparr>active := False\<rparr>) st)"

definition keepalive ::
    "('k, 'c, 'p) env \<Rightarrow> int \<Rightarrow> int \<Rightarrow> nat \<Rightarrow> 'k peer_state \<times> world \<Rightarrow> 'k peer_state \<times> world" where
  "keepalive E keepalive_interval now j sw =
     (let (st, w) = sw;
          s = sessions st ! j
      in if \<not> active s \<or> now - last_sent s < keepalive_interval then (st, w)
         else forward_to_peer E j [] st w)"

text \<open>The body of \<^verbatim>\<open>if (now - last_rekey_check >= 10)\<close>.\<close>

definition periodic ::
    "('k, 'c, 'p) env \<Rightarrow> bytes \<Rightarrow> bytes option \<Rightarrow> int \<Rightarrow> int \<Rightarrow> 'k peer_state \<Rightarrow> world \<Rightarrow> 'k peer_state \<times> world" where
  "periodic E my_pub psk_key keepalive_interval now st w =
     (let (st1, w1) = fold (check_peer E my_pub psk_key now) [0..<length (peer_configs st)] (st, w);
          st2 = fold (expire_pending now) [0..<MAX_PEERS] st1;
          st3 = fold (expire_session now) [0..<session_slots st2] st2
      in fold (keepalive E keepalive_interval now) [0..<session_slots st3] (st3, w1))"

section \<open>Packets from the tunnel\<close>

definition is_ipv4 :: "bytes \<Rightarrow> bool" where
  "is_ipv4 p \<longleftrightarrow> length p \<ge> 20 \<and> drop_bit 4 (p ! 0) = 4"

definition ip_src :: "bytes \<Rightarrow> u32" where
  "ip_src p = ntohl (sub_bytes 12 4 p)"

definition ip_dst :: "bytes \<Rightarrow> u32" where
  "ip_dst p = ntohl (sub_bytes 16 4 p)"

definition handle_tun :: "('k, 'c, 'p) env \<Rightarrow> bytes \<Rightarrow> 'k peer_state \<Rightarrow> world \<Rightarrow> 'k peer_state \<times> world" where
  "handle_tun E buffer st w =
     (if is_ipv4 buffer then
        (case route_lookup st (ip_dst buffer) of
           Some s \<Rightarrow> forward_to_peer E s buffer st w
         | None \<Rightarrow> (st, w))
      else (st, w))"

section \<open>Packets from the socket\<close>

text \<open>The test both handshake branches start with.\<close>

definition hs_shaped :: "bytes option \<Rightarrow> bytes \<Rightarrow> bool" where
  "hs_shaped psk_key wire \<longleftrightarrow> length wire = hs_size psk_key \<and> take HEADER_SIZE wire = pkt_header"

definition match_pending :: "'k peer_state \<Rightarrow> sockaddr_in \<Rightarrow> nat option" where
  "match_pending st src =
     first_idx (\<lambda>j. p_active (pending_hs st ! j) \<and> same_addr (server_addr (pending_hs st ! j)) src) MAX_PEERS"

definition handle_response ::
    "('k, 'c, 'p) env \<Rightarrow> 'k \<Rightarrow> bytes \<Rightarrow> bytes option \<Rightarrow> bytes \<Rightarrow> sockaddr_in \<Rightarrow> nat \<Rightarrow> 'k peer_state \<Rightarrow> world
       \<Rightarrow> 'k peer_state \<times> world" where
  "handle_response E my_key my_pub psk_key wire src j st w =
     (let p = pending_hs st ! j;
          cfg = peer_configs st ! cfg_idx p;
          ((r, hs), w1) = handshake_client_recv E wire psk_key my_key my_pub (pc_pub cfg) (hs_state p) w;
          st1 = upd_pending j (\<lambda>p. p\<lparr>p_active := False, hs_state := hs\<rparr>) st
      in case r of
           Some key \<Rightarrow>
             (case alloc_session st1 (pc_pub cfg) src of
                (Some s, st2) \<Rightarrow> session_init E s src (pc_pub cfg) key (Some cfg) True st2 w1
              | (None, st2) \<Rightarrow> (st2, w1))
         | None \<Rightarrow> (set_rekeying False (find_session_by_pub st1 (pc_pub cfg)) st1, w1))"

fun memcmp :: "bytes \<Rightarrow> bytes \<Rightarrow> int" where
  "memcmp (a # as) (b # bs) = (if a = b then memcmp as bs else uint a - uint b)"
| "memcmp _ _ = 0"

definition tie_break :: "bytes \<Rightarrow> sockaddr_in \<Rightarrow> 'k peer_state \<Rightarrow> bool \<times> 'k peer_state" where
  "tie_break my_pub src st =
     (case match_pending st src of
        None \<Rightarrow> (False, st)
      | Some j \<Rightarrow>
          if memcmp my_pub (pc_pub (peer_configs st ! cfg_idx (pending_hs st ! j))) > 0 then (True, st)
          else (False, drop_pending j st))"

text \<open>\<open>in_cooldown\<close>: the session shook hands less than \<open>cfg_handshake_cooldown\<close> seconds ago.\<close>

definition in_cooldown :: "'k peer_state \<Rightarrow> int \<Rightarrow> nat option \<Rightarrow> bool" where
  "in_cooldown st now s =
     (case s of None \<Rightarrow> False | Some i \<Rightarrow> now - last_handshake (sessions st ! i) < cfg_handshake_cooldown st)"

definition handle_inbound ::
    "('k, 'c, 'p) env \<Rightarrow> 'k \<Rightarrow> bytes \<Rightarrow> bytes option \<Rightarrow> int \<Rightarrow> bytes \<Rightarrow> sockaddr_in \<Rightarrow> 'k peer_state \<Rightarrow> world
       \<Rightarrow> 'k peer_state \<times> world" where
  "handle_inbound E my_key my_pub psk_key now wire src st0 w =
     (let (skip, st) = tie_break my_pub src st0
      in if skip then (st, w)
         else if in_cooldown st now (find_session_by_addr st src) then (st, w)
         else
     (case handshake_server_respond E wire src psk_key my_key my_pub (precomp_eph_key st) (precomp_eph_pub st) w of
        (None, w1) \<Rightarrow> (st, w1)
      | (Some (peer_pub, key), w1) \<Rightarrow>
          (let (st1, w2) = refresh_precomp_eph E st w1
           in case find_peer_config st1 peer_pub of
                None \<Rightarrow> (st1, w2)
              | Some c \<Rightarrow>
                  if in_cooldown st1 now (find_session_by_pub st1 peer_pub) then (st1, w2)
                  else
                    (case alloc_session st1 peer_pub src of
                       (None, st2) \<Rightarrow> (st2, w2)
                     | (Some s, st2) \<Rightarrow>
                         session_init E s src peer_pub key (Some (peer_configs st2 ! c)) False st2 w2))))"

text \<open>
  Decryption of a data packet: with the session key, which retires the previous key, or else with the
  previous key while it lasts. The result is the plaintext and whether the previous key was used.
\<close>

definition decrypt_data ::
    "('k, 'c, 'p) env \<Rightarrow> int \<Rightarrow> peer_session \<Rightarrow> bytes \<Rightarrow> (bytes \<times> bool) option \<times> peer_session" where
  "decrypt_data E now s wire =
     (case decrypt_packet E (session_key s) wire of
        Some plain \<Rightarrow> (Some (plain, False), s\<lparr>prev_key_active := False\<rparr>)
      | None \<Rightarrow>
          if prev_key_active s \<and> now \<le> prev_key_expires s then
            (case decrypt_packet E (prev_session_key s) wire of
               Some plain \<Rightarrow> (Some (plain, True), s)
             | None \<Rightarrow> (None, s))
          else (None, s))"

text \<open>The replay check, skipped for packets under the previous key.\<close>

definition check_seq :: "bool \<Rightarrow> bytes \<Rightarrow> peer_session \<Rightarrow> int \<times> peer_session" where
  "check_seq used_prev_key plain s =
     (if used_prev_key then (0, s)
      else
        let seq = be64toh (sub_bytes HEADER_SIZE SEQ_SIZE plain);
            (rc, h, win) = check_replay seq (recv_seq_highest s) (recv_seq_window s)
        in (rc, s\<lparr>recv_seq_highest := h, recv_seq_window := win\<rparr>))"

text \<open>What happens to the payload of an accepted packet of session \<open>i\<close>: dropped, relayed or written to the tunnel.\<close>

definition deliver_payload ::
    "('k, 'c, 'p) env \<Rightarrow> nat \<Rightarrow> bytes \<Rightarrow> 'k peer_state \<Rightarrow> world \<Rightarrow> 'k peer_state \<times> world" where
  "deliver_payload E i payload st w =
     (let s = sessions st ! i
      in if payload = [] then (st, w)
         else if route_count s > 0 \<and> is_ipv4 payload \<and> \<not> check_allowed_src s (ip_src payload) then (st, w)
         else
           (case (if is_ipv4 payload then route_lookup st (ip_dst payload) else None) of
              Some fwd \<Rightarrow>
                if fwd \<noteq> i then forward_to_peer E fwd payload st w
                else (st, snd (sys_write E payload w))
            | None \<Rightarrow> (st, snd (sys_write E payload w))))"

definition handle_data ::
    "('k, 'c, 'p) env \<Rightarrow> int \<Rightarrow> bytes \<Rightarrow> sockaddr_in \<Rightarrow> 'k peer_state \<Rightarrow> world \<Rightarrow> 'k peer_state \<times> world" where
  "handle_data E now wire src st w =
     (case find_session_by_addr st src of
        None \<Rightarrow> (st, w)
      | Some i \<Rightarrow>
          (let (d, s) = decrypt_data E now ((sessions st ! i)\<lparr>last_seen := now\<rparr>) wire
           in case d of
                None \<Rightarrow> (upd_session i (\<lambda>_. s) st, w)
              | Some (plain, used_prev_key) \<Rightarrow>
                  if length plain < HEADER_SIZE + SEQ_SIZE \<or> take HEADER_SIZE plain \<noteq> pkt_header
                  then (upd_session i (\<lambda>_. s) st, w)
                  else
                    let (rc, s2) = check_seq used_prev_key plain s;
                        st2 = upd_session i (\<lambda>_. s2) st
                    in if rc < 0 then (st2, w)
                       else deliver_payload E i (drop (HEADER_SIZE + SEQ_SIZE) plain) st2 w))"

definition handle_udp ::
    "('k, 'c, 'p) env \<Rightarrow> 'k \<Rightarrow> bytes \<Rightarrow> bytes option \<Rightarrow> bytes \<Rightarrow> sockaddr_in \<Rightarrow> 'k peer_state \<Rightarrow> world
       \<Rightarrow> 'k peer_state \<times> world" where
  "handle_udp E my_key my_pub psk_key dgram src st w =
     (let wire = take (BUFFER_SIZE + WIRE_OVERHEAD) dgram;
          (now, w1) = sys_time E w
      in case (if hs_shaped psk_key wire then match_pending st src else None) of
           Some j \<Rightarrow> handle_response E my_key my_pub psk_key wire src j st w1
         | None \<Rightarrow>
             if hs_shaped psk_key wire then handle_inbound E my_key my_pub psk_key now wire src st w1
             else handle_data E now wire src st w1)"

section \<open>The loop\<close>

datatype signal = SIGUSR1 | SIGTERM | SIGINT

definition handle_signal :: "signal \<Rightarrow> 'k peer_state \<Rightarrow> 'k peer_state" where
  "handle_signal sig st =
     (if sig = SIGUSR1 then st\<lparr>print_sessions_flag := True\<rparr> else st\<lparr>stop_flag := True\<rparr>)"

text \<open>
  What \<open>epoll_wait\<close> and the reads that follow it deliver. \<open>Tun_In None\<close> is a failing \<open>read\<close>, \<open>Udp_In None\<close> a failing
  \<open>recvfrom\<close>, \<open>Fd_Error\<close> a descriptor reported with \<open>EPOLLERR\<close> or \<open>EPOLLHUP\<close>.
\<close>

datatype fd_event = Fd_Error | Tun_In "bytes option" | Udp_In "(bytes \<times> sockaddr_in) option"

datatype wait_result = Wait_Interrupted | Wait_Failed | Wait_Ready "fd_event list"

text \<open>One pass of the \<open>for\<close> loop over the reported events; the Boolean is the jump to \<open>done\<close>.\<close>

fun handle_events ::
    "('k, 'c, 'p) env \<Rightarrow> 'k \<Rightarrow> bytes \<Rightarrow> bytes option \<Rightarrow> fd_event list \<Rightarrow> 'k peer_state \<Rightarrow> world
       \<Rightarrow> bool \<times> 'k peer_state \<times> world" where
  "handle_events E my_key my_pub psk_key [] st w = (False, st, w)"
| "handle_events E my_key my_pub psk_key (ev # evs) st w =
     (case ev of
        Fd_Error \<Rightarrow> (True, st, w)
      | Tun_In None \<Rightarrow> (True, st, w)
      | Tun_In (Some packet) \<Rightarrow>
          (let buffer = take BUFFER_SIZE packet
           in if buffer = [] then (True, st, w)
              else let (st1, w1) = handle_tun E buffer st w
                   in handle_events E my_key my_pub psk_key evs st1 w1)
      | Udp_In None \<Rightarrow> (True, st, w)
      | Udp_In (Some (dgram, src)) \<Rightarrow>
          (let (st1, w1) = handle_udp E my_key my_pub psk_key dgram src st w
           in handle_events E my_key my_pub psk_key evs st1 w1))"

record 'k loop_state =
  last_rekey_check :: int
  finished :: bool
  peer :: "'k peer_state"
  wrld :: world

text \<open>
  One iteration of the \<open>while\<close> loop; \<open>sigs\<close> are the signals delivered while the process waits. A loop
  that was left, or whose condition is false, does nothing more.
\<close>

definition loop_step ::
    "('k, 'c, 'p) env \<Rightarrow> 'k \<Rightarrow> bytes \<Rightarrow> bytes option \<Rightarrow> int \<Rightarrow> 'k loop_state \<Rightarrow> signal list \<times> wait_result
       \<Rightarrow> 'k loop_state" where
  "loop_step E my_key my_pub psk_key keepalive_interval l inp =
     (if finished l \<or> stop_flag (peer l) then l
      else
        let (now, w1) = sys_time E (wrld l);
            due = (now - last_rekey_check l \<ge> 10);
            (st2, w2) = (if due then periodic E my_pub psk_key keepalive_interval now (peer l) w1
                         else (peer l, w1));
            l2 = l\<lparr>last_rekey_check := (if due then now else last_rekey_check l), wrld := w2\<rparr>;
            st3 = fold handle_signal (fst inp) st2
        in case snd inp of
             Wait_Interrupted \<Rightarrow> l2\<lparr>peer := st3\<rparr>
           | Wait_Failed \<Rightarrow> l2\<lparr>peer := st3, finished := True\<rparr>
           | Wait_Ready evs \<Rightarrow>
               (let (done, st4, w4) =
                  handle_events E my_key my_pub psk_key (take 2 evs) (st3\<lparr>print_sessions_flag := False\<rparr>) w2
                in l2\<lparr>peer := st4, finished := done, wrld := w4\<rparr>))"

text \<open>
  The whole function, on a finite sequence of inputs: two cipher contexts and the epoll descriptor are
  created first, and the loop is not entered when one of them cannot be.
\<close>

definition event_loop ::
    "('k, 'c, 'p) env \<Rightarrow> bool \<Rightarrow> 'k \<Rightarrow> bytes \<Rightarrow> bytes option \<Rightarrow> int \<Rightarrow> (signal list \<times> wait_result) list
       \<Rightarrow> 'k peer_state \<Rightarrow> world \<Rightarrow> 'k loop_state" where
  "event_loop E epoll_ok my_key my_pub psk_key keepalive_interval inputs st w =
     (let (enc_ok, w1) = sys_cipher_ctx E w;
          (dec_ok, w2) = sys_cipher_ctx E w1
      in if \<not> enc_ok \<or> \<not> dec_ok \<or> \<not> epoll_ok then
           \<lparr>last_rekey_check = 0, finished = True, peer = st, wrld = w2\<rparr>
         else run_steps (loop_step E my_key my_pub psk_key keepalive_interval)
                \<lparr>last_rekey_check = 0, finished = False, peer = st, wrld = w2\<rparr> inputs)"

end
