(* ===== verification/Loop_Invariant.thy ===== *)
theory Loop_Invariant
  imports Event_Loop
begin

text \<open>
  Every handler of the event loop keeps \<open>peer_inv\<close>, the invariant of the tables, and so does the whole
  loop: the interface \<open>inv_machine\<close> is interpreted on \<open>loop_step\<close>.
\<close>

section \<open>Elementary updates\<close>

text \<open>A \<open>tame\<close> change of a session: it may end it or stop its rekeying, but never starts either.\<close>

definition tame :: "peer_session \<Rightarrow> peer_session \<Rightarrow> bool" where
  "tame s s' \<longleftrightarrow> (session_wf s \<longrightarrow> session_wf s') \<and>
     (active s' \<longrightarrow> active s \<and> static_pub s' = static_pub s \<and> (rekeying s' \<longrightarrow> rekeying s))"

lemma tame_refl [simp]: "tame s s"
  by (simp add: tame_def)

lemma tame_trans: "tame s t \<Longrightarrow> tame t u \<Longrightarrow> tame s u"
  by (auto simp: tame_def)

lemma upd_session_inv [preserves]:
  assumes "peer_inv st" "tame (sessions st ! i) (f (sessions st ! i))"
  shows "peer_inv (upd_session i f st)"
proof (cases "i < MAX_PEERS")
  case False
  then have "upd_session i f st = st"
    using tables_okD(1) [OF peer_invD(1) [OF assms(1)]] by (simp add: upd_session_def list_update_beyond not_less)
  with assms(1) show ?thesis by simp
next
  case True
  let ?st = "upd_session i f st"
  note t = peer_invD(1) [OF assms(1)] and so = peer_invD(2) [OF assms(1)] and ro = peer_invD(4) [OF assms(1)]
  have nth: "sessions ?st ! k = (if k = i then f (sessions st ! k) else sessions st ! k)" if "k < MAX_PEERS" for k
    using that tables_okD(1) [OF t] by (simp add: upd_session_nth)
  have tm: "tame (sessions st ! k) (sessions ?st ! k)" if "k < MAX_PEERS" for k
    using that assms(2) by (simp add: nth)
  have "session_wf (sessions ?st ! k)" if "k < MAX_PEERS" for k
    using tm [OF that] tables_okD(5) [OF t that] by (simp add: tame_def)
  then have "tables_ok ?st"
    using t by (auto simp: tables_ok_def in_set_conv_nth)
  moreover have "sessions_ok ?st"
    using so tm unfolding sessions_ok_def tame_def upd_session_simps by metis
  moreover have "pending_ok ?st" using peer_invD(3) [OF assms(1)] by (simp add: pending_ok_def)
  moreover have "rekey_ok ?st"
    using ro tm unfolding rekey_ok_def tame_def upd_session_simps by metis
  ultimately show ?thesis by (simp add: peer_inv_def)
qed

lemma upd_config_inv [preserves]:
  assumes "peer_inv st"
    and "i < length (peer_configs st) \<Longrightarrow> pc_pub (f (peer_configs st ! i)) = pc_pub (peer_configs st ! i) \<and>
           config_wf (f (peer_configs st ! i))"
  shows "peer_inv (upd_config i f st)"
proof -
  let ?st = "upd_config i f st"
  note t = peer_invD(1) [OF assms(1)]
  have nth: "peer_configs ?st ! k = (if k = i then f (peer_configs st ! k) else peer_configs st ! k)"
    if "k < length (peer_configs st)" for k using that by (rule upd_config_nth)
  then have pub: "pc_pub (peer_configs ?st ! k) = pc_pub (peer_configs st ! k)"
      and wf: "config_wf (peer_configs ?st ! k)" if "k < length (peer_configs st)" for k
    using that assms(2) tables_okD(6) [OF t that] by auto
  have pubs: "pc_pub ` set (peer_configs ?st) = pc_pub ` set (peer_configs st)"
    using pub by (simp add: set_conv_nth image_Collect) metis
  have "tables_ok ?st"
    using t wf by (auto simp: tables_ok_def in_set_conv_nth)
  moreover have "sessions_ok ?st"
    using peer_invD(2) [OF assms(1)] unfolding sessions_ok_def upd_config_simps pubs .
  moreover have "pending_ok ?st" using peer_invD(3) [OF assms(1)] by (simp add: pending_ok_def)
  moreover have "rekey_ok ?st"
    using peer_invD(3,4) [OF assms(1)] pub unfolding rekey_ok_def pending_ok_def upd_config_simps by metis
  ultimately show ?thesis by (simp add: peer_inv_def)
qed

text \<open>Occupying a free slot of the pending table.\<close>

lemma add_pending_inv [preserves]:
  assumes "peer_inv st" "slot < MAX_PEERS" "\<not> p_active (pending_hs st ! slot)"
    and "cfg_idx p < length (peer_configs st)" "eph_key (hs_state p) \<noteq> None"
  shows "peer_inv (upd_pending slot (\<lambda>_. p) st)"
proof -
  let ?st = "upd_pending slot (\<lambda>_. p) st"
  note t = peer_invD(1) [OF assms(1)]
  have nth: "pending_hs ?st ! k = (if k = slot then p else pending_hs st ! k)" if "k < MAX_PEERS" for k
    using that tables_okD(3) [OF t] by (simp add: upd_pending_nth)
  have "tables_ok ?st" using t by (simp add: tables_ok_def)
  moreover have "sessions_ok ?st" using peer_invD(2) [OF assms(1)] by (simp add: sessions_ok_def)
  moreover have "pending_ok ?st" using peer_invD(3) [OF assms(1)] assms(4,5) by (simp add: pending_ok_def nth)
  moreover have "rekey_ok ?st"
    using peer_invD(4) [OF assms(1)] assms(3) unfolding rekey_ok_def upd_pending_simps by (metis nth)
  ultimately show ?thesis by (simp add: peer_inv_def)
qed

text \<open>Retiring a pending handshake leaves only the sessions of its own peer to be looked after.\<close>

lemma retire_pending:
  assumes "peer_inv st" "p_active (pending_hs st ! j)" "\<not> p_active (g (pending_hs st ! j))"
  shows "tables_ok (upd_pending j g st)" "sessions_ok (upd_pending j g st)" "pending_ok (upd_pending j g st)"
    "rekey_ok_except (pc_pub (peer_configs st ! cfg_idx (pending_hs st ! j))) (upd_pending j g st)"
proof -
  let ?st = "upd_pending j g st"
  note t = peer_invD(1) [OF assms(1)]
  have nth: "pending_hs ?st ! k = (if k = j then g (pending_hs st ! k) else pending_hs st ! k)" if "k < MAX_PEERS" for k
    using that tables_okD(3) [OF t] by (simp add: upd_pending_nth)
  show "tables_ok ?st" using t by (simp add: tables_ok_def)
  show "sessions_ok ?st" using peer_invD(2) [OF assms(1)] by (simp add: sessions_ok_def)
  show "pending_ok ?st" using peer_invD(3) [OF assms(1)] assms(3) by (simp add: pending_ok_def nth)
  show "rekey_ok_except (pc_pub (peer_configs st ! cfg_idx (pending_hs st ! j))) ?st"
    using peer_invD(4) [OF assms(1)] unfolding rekey_ok_def rekey_ok_except_def upd_pending_simps by (metis nth)
qed

section \<open>The rekeying mark\<close>

lemma set_rekeying_simps [simp]:
  "session_slots (set_rekeying b s st) = session_slots st"
  "peer_configs (set_rekeying b s st) = peer_configs st"
  "pending_hs (set_rekeying b s st) = pending_hs st"
  "cfg_handshake_timeout (set_rekeying b s st) = cfg_handshake_timeout st"
  "length (sessions (set_rekeying b s st)) = length (sessions st)"
  "stop_flag (set_rekeying b s st) = stop_flag st"
  "precomp_eph_pub (set_rekeying b s st) = precomp_eph_pub st"
  by (simp_all add: set_rekeying_def split: option.split)

lemma clear_rekeying_inv [preserves]: "peer_inv st \<Longrightarrow> peer_inv (set_rekeying False s st)"
  by (auto simp: set_rekeying_def tame_def session_wf_def split: option.split intro!: upd_session_inv)

text \<open>Clearing the mark of a peer's session makes up for its retired handshake.\<close>

lemma clear_rekeying_repairs:
  assumes "tables_ok st" "sessions_ok st" "pending_ok st" "rekey_ok_except pub st"
  shows "peer_inv (set_rekeying False (find_session_by_pub st pub) st)"
proof (cases "find_session_by_pub st pub")
  case None
  then have "rekey_ok st"
    using find_session_by_pub_None [OF None] sessions_okD [OF assms(2)]
    by (intro rekey_ok_except_absent [OF assms(4)]) blast
  with assms None show ?thesis by (simp add: set_rekeying_def peer_inv_def)
next
  case (Some i)
  note i = find_session_by_pub_SomeD [OF Some]
  let ?st = "upd_session i (\<lambda>s. s\<lparr>rekeying := False\<rparr>) st"
  have "i < MAX_PEERS" using i(1) tables_okD(2) [OF assms(1)] by simp
  have nth: "sessions ?st ! k = (if k = i then (sessions st ! k)\<lparr>rekeying := False\<rparr> else sessions st ! k)"
    if "k < MAX_PEERS" for k
    using that tables_okD(1) [OF assms(1)] by (simp add: upd_session_nth)
  have "session_wf (sessions ?st ! k)" if "k < MAX_PEERS" for k
    using tables_okD(5) [OF assms(1) that] by (auto simp: nth that session_wf_def)
  then have "tables_ok ?st" using assms(1) by (auto simp: tables_ok_def in_set_conv_nth)
  moreover have "active (sessions ?st ! k) = active (sessions st ! k)"
      "static_pub (sessions ?st ! k) = static_pub (sessions st ! k)" if "k < MAX_PEERS" for k
    using that by (simp_all add: nth)
  then have "sessions_ok ?st" using assms(2) unfolding sessions_ok_def upd_session_simps by metis
  moreover have "pending_ok ?st" using assms(3) by (simp add: pending_ok_def)
  moreover have "rekey_ok ?st"
    unfolding rekey_ok_def upd_session_simps
  proof (intro allI impI)
    fix k assume k: "k < MAX_PEERS" "active (sessions ?st ! k)" "rekeying (sessions ?st ! k)"
    then have "k \<noteq> i" "active (sessions st ! k)" "rekeying (sessions st ! k)"
      by (auto simp: nth split: if_splits)
    moreover have "static_pub (sessions st ! k) \<noteq> pub"
      using sessions_ok_uniqueD [OF assms(2) k(1) \<open>i < MAX_PEERS\<close>] calculation i(2,3) by auto
    ultimately show "\<exists>j < MAX_PEERS. p_active (pending_hs st ! j) \<and>
        pc_pub (peer_configs st ! cfg_idx (pending_hs st ! j)) = static_pub (sessions ?st ! k)"
      using assms(4) k(1) by (simp add: rekey_ok_except_def nth)
  qed
  ultimately show ?thesis by (simp add: Some set_rekeying_def peer_inv_def)
qed

text \<open>Setting it is allowed once the handshake is on its way.\<close>

lemma set_rekeying_inv [preserves]:
  assumes "peer_inv st" "j < MAX_PEERS" "p_active (pending_hs st ! j)"
    and "find_session_by_pub st (pc_pub (peer_configs st ! cfg_idx (pending_hs st ! j))) = Some i"
  shows "peer_inv (set_rekeying True (Some i) st)"
proof -
  note i = find_session_by_pub_SomeD [OF assms(4)]
  note t = peer_invD(1) [OF assms(1)]
  let ?st = "upd_session i (\<lambda>s. s\<lparr>rekeying := True\<rparr>) st"
  have nth: "sessions ?st ! k = (if k = i then (sessions st ! k)\<lparr>rekeying := True\<rparr> else sessions st ! k)"
    if "k < MAX_PEERS" for k
    using that tables_okD(1) [OF t] by (simp add: upd_session_nth)
  have "session_wf (sessions ?st ! k)" if "k < MAX_PEERS" for k
    using tables_okD(5) [OF t that] by (auto simp: nth that session_wf_def)
  then have "tables_ok ?st" using t by (auto simp: tables_ok_def in_set_conv_nth)
  moreover have same: "active (sessions ?st ! k) = active (sessions st ! k)"
      "static_pub (sessions ?st ! k) = static_pub (sessions st ! k)" if "k < MAX_PEERS" for k
    using that by (simp_all add: nth)
  then have "sessions_ok ?st" using peer_invD(2) [OF assms(1)] unfolding sessions_ok_def upd_session_simps by metis
  moreover have "pending_ok ?st" using peer_invD(3) [OF assms(1)] by (simp add: pending_ok_def)
  moreover have "rekey_ok ?st"
    using peer_invD(4) [OF assms(1)] assms(2,3) i(3) unfolding rekey_ok_def upd_session_simps
    by (metis nth same)
  ultimately show ?thesis by (simp add: set_rekeying_def peer_inv_def)
qed

section \<open>The handlers\<close>

text \<open>Sending changes only the counter and the time of the session.\<close>

lemma forward_to_peer_state:
  assumes "forward_to_peer E i payload st w = (st', w')"
  obtains f where "st' = upd_session i f st" "tame (sessions st ! i) (f (sessions st ! i))"
proof -
  have c: "upd_session i h (upd_session i g st) = upd_session i (\<lambda>s. h (g s)) st" if "i < length (sessions st)" for h g
    using that by (simp add: upd_session_def)
  have n: "upd_session i g st = st" if "\<not> i < length (sessions st)" for g
    using that by (simp add: upd_session_def list_update_beyond not_less)
  show ?thesis
  proof (cases "i < length (sessions st)")
    case True
    with assms show ?thesis
      by (auto simp: forward_to_peer_def Let_def sys_time_def c tame_def session_wf_def
            split: prod.splits option.splits bool.splits intro!: that)
  next
    case False
    have "st' = st"
      using assms False
      by (auto simp: forward_to_peer_def Let_def sys_time_def n split: prod.splits option.splits bool.splits)
    with n [OF False, of id] show ?thesis by (intro that [of id]) auto
  qed
qed

lemma forward_to_peer_inv [preserves]:
  "peer_inv st \<Longrightarrow> forward_to_peer E i payload st w = (st', w') \<Longrightarrow> peer_inv st'"
  by (elim forward_to_peer_state) (simp add: upd_session_inv)

lemma resolve_endpoint_cfg:
  "resolve_endpoint E cfg w = ((ok, cfg1), w1) \<Longrightarrow> pc_pub cfg1 = pc_pub cfg \<and> (config_wf cfg \<longrightarrow> config_wf cfg1)"
  by (auto simp: resolve_endpoint_def config_wf_def split: prod.splits option.splits)

lemma initiate_state:
  assumes "initiate_outbound_handshake E ci my_pub psk st w = ((ok, st'), w')" "ci < length (peer_configs st)"
  obtains t where "\<not> ok" "st' = upd_config ci (\<lambda>c. c\<lparr>last_attempt := t\<rparr>) st"
  | t slot p where "ok" "st' = upd_pending slot (\<lambda>_. p) (upd_config ci (\<lambda>c. c\<lparr>last_attempt := t\<rparr>) st)"
      "slot < MAX_PEERS" "\<not> p_active (pending_hs st ! slot)" "p_active p" "cfg_idx p = ci"
      "eph_key (hs_state p) \<noteq> None"
proof -
  obtain t w1 where t: "sys_time E w = (t, w1)" by (cases "sys_time E w")
  let ?st = "upd_config ci (\<lambda>c. c\<lparr>last_attempt := t\<rparr>) st"
  show ?thesis
  proof (cases "first_idx (\<lambda>i. \<not> p_active (pending_hs st ! i)) MAX_PEERS")
    case None
    with assms t that(1) show ?thesis by (auto simp: initiate_outbound_handshake_def)
  next
    case (Some slot)
    note free = first_idx_SomeD(1,2) [OF Some]
    obtain r w2 where h: "handshake_client_send E (endpoint (peer_configs ?st ! ci)) psk my_pub
        (Some (pc_pub (peer_configs ?st ! ci))) w1 = (r, w2)" by fastforce
    show ?thesis
    proof (cases r)
      case None
      with assms t h Some that(1) show ?thesis by (auto simp: initiate_outbound_handshake_def)
    next
      case (Some hs)
      have "eph_key hs \<noteq> None" using h [unfolded Some] by (rule client_send_SomeD) simp
      with assms t h Some \<open>first_idx _ _ = Some slot\<close> that(2) [of slot _ t] free show ?thesis
        by (auto simp: initiate_outbound_handshake_def Let_def sys_time_def)
    qed
  qed
qed

text \<open>Writes to different tables commute.\<close>

lemma upd_commute:
  "upd_config i f (set_rekeying b s st) = set_rekeying b s (upd_config i f st)"
  "upd_pending j g (set_rekeying b s st) = set_rekeying b s (upd_pending j g st)"
  by (simp_all add: set_rekeying_def upd_config_def upd_session_def upd_pending_def split: option.split)

lemma set_rekeying_again: "set_rekeying a s (set_rekeying b s st) = set_rekeying a s st"
proof (cases s)
  case (Some i)
  then show ?thesis
    by (cases "i < length (sessions st)")
       (simp_all add: set_rekeying_def upd_session_def list_update_beyond not_less)
qed (simp add: set_rekeying_def)

lemma find_session_by_pub_config [simp]:
  "find_session_by_pub (upd_config i f st) = find_session_by_pub st"
  "find_session_by_pub (upd_pending j g st) = find_session_by_pub st"
  by (simp_all add: find_session_by_pub_def fun_eq_iff)

lemma check_peer_inv [preserves]:
  assumes "peer_inv st" "i < length (peer_configs st)" "check_peer E my_pub psk now i (st, w) = (st', w')"
  shows "peer_inv st' \<and> length (peer_configs st') = length (peer_configs st)"
proof -
  define cfg where "cfg = peer_configs st ! i"
  define s where "s = find_session_by_pub st (pc_pub cfg)"
  obtain ok1 cfg1 w1 where r: "resolve_endpoint E cfg w = ((ok1, cfg1), w1)" by (metis surj_pair)
  define st1 where "st1 = upd_config i (\<lambda>_. cfg1) st"
  obtain ok st3 w3 where h: "initiate_outbound_handshake E i my_pub psk (set_rekeying True s st1) w1 = ((ok, st3), w3)"
    by (metis surj_pair)
  have "(st', w') = (st, w) \<or> st' = (if ok then st3 else set_rekeying False s st3)"
    using assms(3) r h by (auto simp: check_peer_def Let_def cfg_def [symmetric] s_def [symmetric] st1_def [symmetric]
        split: if_splits)
  moreover have "config_wf cfg" using tables_okD(6) [OF peer_invD(1) [OF assms(1)] assms(2)] by (simp add: cfg_def)
  then have inv1: "peer_inv st1" and len: "length (peer_configs st1) = length (peer_configs st)"
    unfolding st1_def using resolve_endpoint_cfg [OF r] by (auto simp: cfg_def intro!: upd_config_inv [OF assms(1)])
  have upd: "peer_inv (upd_config i (\<lambda>c. c\<lparr>last_attempt := t\<rparr>) st1)" for t
    using tables_okD(6) [OF peer_invD(1) [OF inv1]] by (intro upd_config_inv [OF inv1]) (auto simp: config_wf_def)
  have "i < length (peer_configs (set_rekeying True s st1))" using assms(2) len by simp
  with h have "peer_inv (if ok then st3 else set_rekeying False s st3) \<and> length (peer_configs st3) = length (peer_configs st)"
  proof (cases rule: initiate_state)
    case (1 t)
    then show ?thesis
      using clear_rekeying_inv [OF upd] len by (simp add: upd_commute set_rekeying_again)
  next
    case (2 t slot p)
    let ?st = "upd_pending slot (\<lambda>_. p) (upd_config i (\<lambda>c. c\<lparr>last_attempt := t\<rparr>) st1)"
    have inv2: "peer_inv ?st"
      using 2 assms(2) len by (intro add_pending_inv [OF upd]) (simp_all add: upd_commute)
    have p: "pending_hs ?st ! slot = p" using 2(3) tables_okD(3) [OF peer_invD(1) [OF inv1]] by (simp add: upd_pending_nth)
    have "pc_pub (peer_configs ?st ! i) = pc_pub cfg"
      using assms(2) resolve_endpoint_cfg [OF r] len by (simp add: st1_def upd_config_nth)
    then have "find_session_by_pub ?st (pc_pub (peer_configs ?st ! cfg_idx (pending_hs ?st ! slot))) = s"
      unfolding p using 2(6) by (simp add: s_def st1_def)
    with set_rekeying_inv [OF inv2 2(3)] p 2(5) have "peer_inv (set_rekeying True s ?st)"
      by (cases s) (auto simp: set_rekeying_def inv2)
    with 2 len show ?thesis by (simp add: upd_commute)
  qed
  ultimately show ?thesis using assms(1) by auto
qed

lemma drop_pending_inv [preserves]:
  assumes "peer_inv st" "p_active (pending_hs st ! j)"
  shows "peer_inv (drop_pending j st)"
proof -
  let ?g = "\<lambda>p. p\<lparr>hs_state := (hs_state p)\<lparr>eph_key := None\<rparr>, p_active := False\<rparr>"
  have "cfg_idx (pending_hs (upd_pending j ?g st) ! j) = cfg_idx (pending_hs st ! j)"
    by (cases "j < length (pending_hs st)") (simp_all add: upd_pending_def list_update_beyond not_less)
  then show ?thesis
    using clear_rekeying_repairs [OF retire_pending [OF assms, of ?g]] by (simp add: drop_pending_def Let_def)
qed

lemma expire_pending_inv [preserves]: "peer_inv st \<Longrightarrow> peer_inv (expire_pending now j st)"
  by (simp add: expire_pending_def Let_def drop_pending_inv)

lemma expire_session_inv [preserves]: "peer_inv st \<Longrightarrow> peer_inv (expire_session now j st)"
  by (auto simp: expire_session_def Let_def tame_def session_wf_def intro: upd_session_inv)

lemma keepalive_inv [preserves]:
  assumes "peer_inv (fst b)"
  shows "peer_inv (fst (keepalive E ki now j b))"
  using forward_to_peer_inv [OF assms, of E j "[]" "snd b"] assms
  by (cases b; cases "forward_to_peer E j [] (fst b) (snd b)") (simp add: keepalive_def Let_def)

text \<open>Loops over a table keep what each pass keeps.\<close>

lemma fold_inv: "P b \<Longrightarrow> (\<And>x b. x \<in> set xs \<Longrightarrow> P b \<Longrightarrow> P (f x b)) \<Longrightarrow> P (fold f xs b)"
  by (induction xs arbitrary: b) auto

lemma checks_inv:
  assumes "peer_inv st"
  shows "peer_inv (fst (fold (check_peer E my_pub psk now) [0..<length (peer_configs st)] (st, w)))"
proof -
  let ?n = "length (peer_configs st)"
  have "peer_inv (fst (fold (check_peer E my_pub psk now) [0..<?n] (st, w))) \<and>
      length (peer_configs (fst (fold (check_peer E my_pub psk now) [0..<?n] (st, w)))) = ?n"
  proof (rule fold_inv [where P = "\<lambda>b. peer_inv (fst b) \<and> length (peer_configs (fst b)) = ?n"], goal_cases)
    case (2 x b)
    then show ?case
      using check_peer_inv [of "fst b" x E my_pub psk now "snd b"]
      by (cases "check_peer E my_pub psk now x b") auto
  qed (simp add: assms)
  then show ?thesis by simp
qed

lemma periodic_inv [preserves]:
  assumes "peer_inv st" "periodic E my_pub psk ki now st w = (st', w')"
  shows "peer_inv st'"
proof -
  let ?n = "length (peer_configs st)"
  obtain st1 w1 where f: "fold (check_peer E my_pub psk now) [0..<?n] (st, w) = (st1, w1)" by fastforce
  have "peer_inv st1" using checks_inv [OF assms(1), of E my_pub psk now w] by (simp add: f)
  then have "peer_inv (fold (expire_pending now) [0..<MAX_PEERS] st1)"
    by (rule fold_inv) (rule expire_pending_inv)
  then have e: "peer_inv (fold (expire_session now) [0..<n] (fold (expire_pending now) [0..<MAX_PEERS] st1))" for n
    by (rule fold_inv) (rule expire_session_inv)
  have k: "peer_inv (fst (fold (keepalive E ki now) xs (st3, w3)))" if "peer_inv st3" for xs st3 w3
    by (rule fold_inv [where P = "\<lambda>b. peer_inv (fst b)"]) (simp add: that, rule keepalive_inv)
  show ?thesis
    using k [OF e] assms(2) by (simp add: periodic_def f Let_def) (metis fst_conv)
qed

lemma handle_tun_inv [preserves]:
  "peer_inv st \<Longrightarrow> handle_tun E buffer st w = (st', w') \<Longrightarrow> peer_inv st'"
  by (auto simp: handle_tun_def split: if_splits option.splits intro: forward_to_peer_inv)

lemma match_pending_SomeD:
  assumes "match_pending st src = Some j"
  shows "j < MAX_PEERS" "p_active (pending_hs st ! j)" "server_addr (pending_hs st ! j) = src"
  using first_idx_SomeD(1,2) [OF assms [unfolded match_pending_def]] by auto

lemma pending_cfg:
  assumes "peer_inv st" "j < MAX_PEERS" "p_active (pending_hs st ! j)"
  shows "peer_configs st ! cfg_idx (pending_hs st ! j) \<in> set (peer_configs st)"
  using peer_invD(3) [OF assms(1)] assms(2,3) by (simp add: pending_ok_def)

lemma handle_response_inv [preserves]:
  assumes "peer_inv st" "match_pending st src = Some j"
    and "handle_response E my_key my_pub psk wire src j st w = (st', w')"
  shows "peer_inv st'"
proof -
  note m = match_pending_SomeD [OF assms(2)]
  define cfg where "cfg = peer_configs st ! cfg_idx (pending_hs st ! j)"
  obtain r hs w1 where r: "handshake_client_recv E wire psk my_key my_pub (pc_pub cfg) (hs_state (pending_hs st ! j)) w
      = ((r, hs), w1)" by (metis surj_pair)
  let ?st = "upd_pending j (\<lambda>p. p\<lparr>p_active := False, hs_state := hs\<rparr>) st"
  have "\<not> p_active ((pending_hs st ! j)\<lparr>p_active := False, hs_state := hs\<rparr>)" by simp
  note ret = retire_pending [where g = "\<lambda>p. p\<lparr>p_active := False, hs_state := hs\<rparr>", OF assms(1) m(2) this, folded cfg_def]
  have c: "cfg \<in> set (peer_configs ?st)" using pending_cfg [OF assms(1) m(1,2)] by (simp add: cfg_def)
  show ?thesis
  proof (cases r)
    case None
    then have "st' = set_rekeying False (find_session_by_pub ?st (pc_pub cfg)) ?st"
      using assms(3) r by (simp add: handle_response_def Let_def flip: cfg_def)
    with clear_rekeying_repairs [OF ret] show ?thesis by simp
  next
    case (Some key)
    obtain a st2 where a: "alloc_session ?st (pc_pub cfg) src = (a, st2)" by (metis surj_pair)
    show ?thesis
    proof (cases a)
      case None
      note n = alloc_session_NoneD [OF a [unfolded None]]
      have "rekey_ok ?st"
        using n(3) sessions_okD [OF ret(2)] by (intro rekey_ok_except_absent [OF ret(4)]) blast
      with ret have "peer_inv ?st" by (simp add: peer_inv_def)
      with n(1) a None Some assms(3) r show ?thesis by (simp add: handle_response_def Let_def flip: cfg_def)
    next
      case (Some i)
      have "session_init E i src (pc_pub cfg) key (Some cfg) True st2 w1 = (st', w')"
        using assms(3) r a Some \<open>r = Some key\<close> by (simp add: handle_response_def Let_def flip: cfg_def)
      from install_inv [OF ret a [unfolded Some] this c refl] show ?thesis .
    qed
  qed
qed

lemma tie_break_inv [preserves]:
  "peer_inv st \<Longrightarrow> tie_break my_pub src st = (skip, st') \<Longrightarrow> peer_inv st'"
  by (auto simp: tie_break_def split: option.splits if_splits dest: match_pending_SomeD(2) intro: drop_pending_inv)

lemma refresh_precomp_eph_inv [preserves]:
  "peer_inv st \<Longrightarrow> refresh_precomp_eph E st w = (st', w') \<Longrightarrow> peer_inv st'"
  by (auto simp: refresh_precomp_eph_def peer_inv_def tables_ok_def sessions_ok_def pending_ok_def rekey_ok_def
        split: prod.splits option.splits)

lemma handle_inbound_inv [preserves]:
  assumes "peer_inv st0" "handle_inbound E my_key my_pub psk now wire src st0 w = (st', w')"
  shows "peer_inv st'"
proof -
  obtain skip st where t: "tie_break my_pub src st0 = (skip, st)" by (metis surj_pair)
  have inv: "peer_inv st" using tie_break_inv [OF assms(1) t] .
  obtain r w1 where r: "handshake_server_respond E wire src psk my_key my_pub (precomp_eph_key st) (precomp_eph_pub st) w
      = (r, w1)" by (metis surj_pair)
  note run = assms(2) [unfolded handle_inbound_def t Let_def prod.case r]
  show ?thesis
  proof (cases "\<exists>peer_pub key. r = Some (peer_pub, key) \<and> \<not> skip \<and> \<not> in_cooldown st now (find_session_by_addr st src)")
    case False
    then show ?thesis using run inv by (auto split: if_splits option.splits prod.splits)
  next
    case True
    then obtain pp key where k: "r = Some (pp, key)" "\<not> skip" "\<not> in_cooldown st now (find_session_by_addr st src)"
      by auto
    obtain st1 w2 where f: "refresh_precomp_eph E st w1 = (st1, w2)" by (metis surj_pair)
    have inv1: "peer_inv st1" using refresh_precomp_eph_inv [OF inv f] .
    obtain a st2 where a: "alloc_session st1 pp src = (a, st2)" by (metis surj_pair)
    have *: "st' = st1 \<or> st' = st2 \<and> a = None \<or> (\<exists>c s. find_peer_config st1 pp = Some c \<and> a = Some s \<and>
        session_init E s src pp key (Some (peer_configs st2 ! c)) False st2 w2 = (st', w'))"
      using run k f a by (auto split: if_splits option.splits)
    have "peer_inv st'" if c: "find_peer_config st1 pp = Some c" and s: "a = Some s"
        and i: "session_init E s src pp key (Some (peer_configs st2 ! c)) False st2 w2 = (st', w')" for c s
    proof -
      have "peer_configs st2 = peer_configs st1"
        using alloc_session_SomeD(1) [OF peer_invD(1,2) [OF inv1] a [unfolded s]] by auto
      then show ?thesis
        using install_inv [OF peer_invD(1-3) [OF inv1] rekey_ok_imp_except [OF peer_invD(4) [OF inv1]] a [unfolded s] i]
          find_peer_config_SomeD [OF c] by simp
    qed
    with * inv1 alloc_session_NoneD(1) a show ?thesis by blast
  qed
qed

text \<open>The data path: every change to the session is tame.\<close>

lemma decrypt_data_tame: "decrypt_data E now s wire = (d, s') \<Longrightarrow> tame s s'"
  by (auto simp: decrypt_data_def tame_def session_wf_def split: option.splits if_splits)

lemma tame_last_seen: "tame s (s\<lparr>last_seen := t\<rparr>)"
  by (simp add: tame_def session_wf_def)

lemma check_seq_tame: "check_seq prev plain s = (rc, s') \<Longrightarrow> tame s s'"
  using check_replay_length [of "recv_seq_window s" _ "recv_seq_highest s"]
  by (auto simp: check_seq_def Let_def tame_def session_wf_def REPLAY_WINDOW_WORDS_def split: if_splits prod.splits)

text \<open>
  What was checked before a payload is handed on: \<open>s0\<close> is the session before the packet and \<open>s\<close> after it.
\<close>

definition data_accepted ::
    "('k, 'c, 'p) env \<Rightarrow> int \<Rightarrow> bytes \<Rightarrow> peer_session \<Rightarrow> peer_session \<Rightarrow> bytes \<Rightarrow> bool" where
  "data_accepted E now wire s0 s payload \<longleftrightarrow>
     (\<exists>plain prev s1 rc. decrypt_data E now (s0\<lparr>last_seen := now\<rparr>) wire = (Some (plain, prev), s1) \<and>
        HEADER_SIZE + SEQ_SIZE \<le> length plain \<and> take HEADER_SIZE plain = pkt_header \<and>
        check_seq prev plain s1 = (rc, s) \<and> 0 \<le> rc \<and> payload = drop (HEADER_SIZE + SEQ_SIZE) plain)"

lemma handle_data_outcome:
  assumes "handle_data E now wire src st w = (st', w')"
  obtains "find_session_by_addr st src = None" "st' = st" "w' = w"
  | i s where "find_session_by_addr st src = Some i" "tame (sessions st ! i) s" "st' = upd_session i (\<lambda>_. s) st" "w' = w"
  | i s payload where "find_session_by_addr st src = Some i" "tame (sessions st ! i) s"
      "data_accepted E now wire (sessions st ! i) s payload"
      "deliver_payload E i payload (upd_session i (\<lambda>_. s) st) w = (st', w')"
proof (cases "find_session_by_addr st src")
  case None
  moreover have "st' = st" "w' = w" using assms None by (simp_all add: handle_data_def)
  ultimately show ?thesis by (rule that(1))
next
  case (Some i)
  obtain d s where d: "decrypt_data E now ((sessions st ! i)\<lparr>last_seen := now\<rparr>) wire = (d, s)" by (metis surj_pair)
  have ts: "tame (sessions st ! i) s"
    using tame_trans [OF tame_last_seen decrypt_data_tame [OF d]] .
  show ?thesis
  proof (cases "\<exists>plain prev. d = Some (plain, prev) \<and> HEADER_SIZE + SEQ_SIZE \<le> length plain \<and> take HEADER_SIZE plain = pkt_header")
    case False
    have "(upd_session i (\<lambda>_. s) st, w) = (st', w')"
    proof (cases d)
      case None
      with assms show ?thesis by (simp add: handle_data_def Some d)
    next
      case (Some dp)
      obtain plain prev where dp: "dp = (plain, prev)" by (cases dp)
      have "length plain < HEADER_SIZE + SEQ_SIZE \<or> take HEADER_SIZE plain \<noteq> pkt_header"
        using False Some dp by (auto simp: not_less)
      with assms Some dp \<open>find_session_by_addr st src = Some i\<close> d show ?thesis by (simp add: handle_data_def)
    qed
    then show ?thesis using that(2) [OF Some ts] by blast
  next
    case True
    then obtain plain prev where p: "d = Some (plain, prev)" "HEADER_SIZE + SEQ_SIZE \<le> length plain"
      "take HEADER_SIZE plain = pkt_header" by auto
    obtain rc s2 where c: "check_seq prev plain s = (rc, s2)" by (metis surj_pair)
    have ts2: "tame (sessions st ! i) s2" using tame_trans [OF ts check_seq_tame [OF c]] .
    have l: "(length plain < HEADER_SIZE + SEQ_SIZE \<or> take HEADER_SIZE plain \<noteq> pkt_header) = False"
      using p(2,3) by simp
    have run: "(if rc < 0 then (upd_session i (\<lambda>_. s2) st, w)
           else deliver_payload E i (drop (HEADER_SIZE + SEQ_SIZE) plain) (upd_session i (\<lambda>_. s2) st) w) = (st', w')"
      using assms by (simp only: handle_data_def Some d p(1) c l option.case prod.case Let_def if_False)
    show ?thesis
    proof (cases "rc < 0")
      case True
      with run show ?thesis using that(2) [OF Some ts2] by simp
    next
      case False
      then have "data_accepted E now wire (sessions st ! i) s2 (drop (HEADER_SIZE + SEQ_SIZE) plain)"
        unfolding data_accepted_def using d p c by force
      from that(3) [OF Some ts2 this] run False show ?thesis by simp
    qed
  qed
qed

lemma deliver_payload_inv [preserves]:
  "peer_inv st \<Longrightarrow> deliver_payload E i payload st w = (st', w') \<Longrightarrow> peer_inv st'"
  by (auto simp: deliver_payload_def Let_def split: if_splits option.splits intro: forward_to_peer_inv)

lemma handle_data_inv [preserves]:
  assumes "peer_inv st" "handle_data E now wire src st w = (st', w')"
  shows "peer_inv st'"
  using assms(2)
proof (rule handle_data_outcome, goal_cases)
  case (2 i s)
  then show ?case using upd_session_inv [OF assms(1), of i "\<lambda>_. s"] by simp
next
  case (3 i s payload)
  then show ?case using upd_session_inv [OF assms(1), of i "\<lambda>_. s"] deliver_payload_inv by blast
qed (simp add: assms(1))

lemma handle_udp_inv [preserves]:
  assumes "peer_inv st" "handle_udp E my_key my_pub psk dgram src st w = (st', w')"
  shows "peer_inv st'"
  using assms(2) handle_response_inv [OF assms(1)] handle_inbound_inv [OF assms(1)] handle_data_inv [OF assms(1)]
  by (auto simp: handle_udp_def Let_def split: prod.splits option.splits if_splits)

lemma handle_events_inv [preserves]:
  "peer_inv st \<Longrightarrow> handle_events E my_key my_pub psk evs st w = (fin, st', w') \<Longrightarrow> peer_inv st'"
proof (induction evs arbitrary: st w)
  case (Cons ev evs)
  note h = handle_tun_inv [OF Cons.prems(1)] handle_udp_inv [OF Cons.prems(1)]
  show ?case
    using Cons.prems
    by (auto simp: Let_def split: fd_event.splits option.splits prod.splits if_splits
          intro: Cons.IH [OF h(1)] Cons.IH [OF h(2)])
qed simp

section \<open>The loop\<close>

lemma peer_inv_flags [simp]:
  "peer_inv (st\<lparr>print_sessions_flag := b\<rparr>) = peer_inv st" "peer_inv (st\<lparr>stop_flag := b\<rparr>) = peer_inv st"
  by (simp_all add: peer_inv_def tables_ok_def sessions_ok_def pending_ok_def rekey_ok_def)

lemma handle_signals_inv [preserves]: "peer_inv st \<Longrightarrow> peer_inv (fold handle_signal sigs st)"
  by (rule fold_inv) (simp_all add: handle_signal_def)

lemma loop_step_inv [preserves]:
  assumes "peer_inv (peer l)"
  shows "peer_inv (peer (loop_step E my_key my_pub psk ki l inp))"
proof (cases "finished l \<or> stop_flag (peer l)")
  case True
  with assms show ?thesis by (simp add: loop_step_def)
next
  case False
  obtain now w1 where t: "sys_time E (wrld l) = (now, w1)" by (metis surj_pair)
  obtain st2 w2 where p: "(if now - last_rekey_check l \<ge> 10 then periodic E my_pub psk ki now (peer l) w1
      else (peer l, w1)) = (st2, w2)" by (metis surj_pair)
  have "peer_inv st2"
    using p assms periodic_inv [OF assms] by (auto split: if_splits)
  then have s: "peer_inv (fold handle_signal (fst inp) st2)" by (rule handle_signals_inv)
  show ?thesis
    using False s handle_events_inv [where st = "(fold handle_signal (fst inp) st2)\<lparr>print_sessions_flag := False\<rparr>"]
    by (auto simp: loop_step_def t p Let_def split: wait_result.splits prod.splits)
qed

interpretation loop: inv_machine "loop_step E my_key my_pub psk ki" "\<lambda>l. peer_inv (peer l)"
  by unfold_locales (rule loop_step_inv)

end
