(* ===== verification/Data_Path.thy ===== *)
theory Data_Path
  imports Loop_Invariant
begin

text \<open>
  What the tunnel promises about packets: a packet sent through a session is delivered once by the
  peer that shares the key, nothing else reaches the tunnel device, and everything that leaves the
  program fits the buffers of \<^verbatim>\<open>event_loop\<close>.
\<close>

section \<open>Output of the handlers\<close>

text \<open>\<open>emits P w w'\<close>: between \<open>w\<close> and \<open>w'\<close> only events that satisfy \<open>P\<close> left the program.\<close>

definition emits :: "(out_event \<Rightarrow> bool) \<Rightarrow> world \<Rightarrow> world \<Rightarrow> bool" where
  "emits P w w' \<longleftrightarrow> (\<exists>es. trace w' = trace w @ es \<and> (\<forall>e \<in> set es. P e))"



lemma emits_refl [simp]: "emits P w w"
  by (simp add: emits_def)

lemma emits_same: "trace w' = trace w \<Longrightarrow> emits P w w'"
  by (simp add: emits_def)

lemma emits_one: "trace w' = trace w @ [e] \<Longrightarrow> P e \<Longrightarrow> emits P w w'"
  by (simp add: emits_def)

lemma emits_trans [trans]: "emits P w w' \<Longrightarrow> emits P w' w'' \<Longrightarrow> emits P w w''"
  by (auto simp: emits_def)

lemma emits_mono: "emits P w w' \<Longrightarrow> (\<And>e. P e \<Longrightarrow> Q e) \<Longrightarrow> emits Q w w'"
  by (auto simp: emits_def)

lemma emits_calls: "emits P w (w'\<lparr>calls := n\<rparr>) = emits P w w'" "emits P (w\<lparr>calls := n\<rparr>) w' = emits P w w'"
  by (simp_all add: emits_def)

text \<open>One datagram at most leaves through \<open>forward_to_peer\<close>.\<close>

lemma forward_trace:
  assumes "forward_to_peer E i payload st w = (st', w')"
  obtains "trace w' = trace w"
  | wire w1 where "trace w' = trace w @ [Udp_Out (addr (sessions st ! i)) wire]"
      "encrypt_packet E (session_key (sessions st ! i))
         (pkt_header @ htobe64 (send_seq (sessions st ! i)) @ payload) w = (Some wire, w1)"
proof -
  let ?s = "sessions st ! i"
  obtain r w1 where e: "encrypt_packet E (session_key ?s) (pkt_header @ htobe64 (send_seq ?s) @ payload) w = (r, w1)"
    by (metis surj_pair)
  have w1: "trace w1 = trace w"
    using encrypt_packet_world [of E "session_key ?s" "pkt_header @ htobe64 (send_seq ?s) @ payload" w]
    by (simp add: e)
  show ?thesis
  proof (cases "r = None \<or> \<not> os_sendto E (calls w1)")
    case True
    then have "trace w' = trace w"
      using assms e w1 by (auto simp: forward_to_peer_def sys_sendto_def Let_def split: option.splits)
    then show ?thesis by (rule that(1))
  next
    case False
    then obtain wire where r: "r = Some wire" by auto
    have "trace w' = trace w @ [Udp_Out (addr ?s) wire]"
      using assms e w1 False r by (auto simp: forward_to_peer_def sys_sendto_def sys_time_def Let_def)
    then show ?thesis using e r by (intro that(2)) simp_all
  qed
qed

lemma forward_emission:
  assumes "gcm_correct E" "rand_fills E" "forward_to_peer E i payload st w = (st', w')"
  obtains "trace w' = trace w"
  | wire where "trace w' = trace w @ [Udp_Out (addr (sessions st ! i)) wire]"
      "decrypt_packet E (session_key (sessions st ! i)) wire
         = Some (pkt_header @ htobe64 (send_seq (sessions st ! i)) @ payload)"
      "length wire = length payload + WIRE_OVERHEAD"
  using assms(3)
proof (rule forward_trace, goal_cases)
  case 1
  then show ?case by simp
next
  case (2 wire w1)
  note d = decrypt_encrypt_packet [OF assms(1,2) 2(4)]
  show ?case using 2(2) [OF 2(3) d(1)] d(2) by (simp add: WIRE_OVERHEAD_def)
qed

section \<open>Plaintext layout\<close>

lemma plain_split:
  assumes "HEADER_SIZE + SEQ_SIZE \<le> length plain" "take HEADER_SIZE plain = pkt_header"
  shows "plain = pkt_header @ htobe64 (be64toh (sub_bytes HEADER_SIZE SEQ_SIZE plain)) @ drop (HEADER_SIZE + SEQ_SIZE) plain"
proof -
  have "htobe64 (be64toh (sub_bytes HEADER_SIZE SEQ_SIZE plain)) = sub_bytes HEADER_SIZE SEQ_SIZE plain"
    using assms(1) by (intro htobe64_be64toh) simp
  then show ?thesis
    by (metis add.commute append_take_drop_id assms(2) drop_drop sub_bytes_def)
qed

lemma plain_fields:
  "take HEADER_SIZE (pkt_header @ htobe64 seq @ payload) = pkt_header"
  "sub_bytes HEADER_SIZE SEQ_SIZE (pkt_header @ htobe64 seq @ payload) = htobe64 seq"
  "drop (HEADER_SIZE + SEQ_SIZE) (pkt_header @ htobe64 seq @ payload) = payload"
  by (simp_all add: sub_bytes_mid)

section \<open>Updates in place\<close>

text \<open>Updates of a session that keep what lookups read.\<close>

definition same_place :: "peer_session \<Rightarrow> peer_session \<Rightarrow> bool" where
  "same_place s s' \<longleftrightarrow> active s' = active s \<and> addr s' = addr s \<and> routes s' = routes s \<and> route_count s' = route_count s"

lemma same_place_lookups:
  assumes "same_place (sessions st ! i) s" "tables_ok st"
  shows "find_session_by_addr (upd_session i (\<lambda>_. s) st) = find_session_by_addr st"
    "route_lookup (upd_session i (\<lambda>_. s) st) = route_lookup st"
proof -
  let ?st = "upd_session i (\<lambda>_. s) st"
  have n: "sessions ?st ! k = (if k = i then s else sessions st ! k)" if "k < session_slots st" for k
    using that tables_okD(1,2) [OF assms(2)] by (simp add: upd_session_nth)
  have p: "same_place (sessions st ! k) (sessions ?st ! k)" if "k < session_slots st" for k
    using assms(1) n [OF that] by (auto simp: same_place_def)
  show "find_session_by_addr ?st = find_session_by_addr st"
    using p by (intro ext) (auto simp: find_session_by_addr_def same_place_def intro!: first_idx_cong)
  have "route_table ?st = route_table st"
    unfolding route_table_def upd_session_simps
    by (rule arg_cong [where f = concat], rule map_cong [OF refl]) (use p in \<open>auto simp: same_place_def\<close>)
  then show "route_lookup ?st = route_lookup st" by (intro ext) (simp add: route_lookup_table)
qed

section \<open>Acceptance\<close>

lemma decrypt_data_SomeD:
  assumes "decrypt_data E now s wire = (Some (plain, prev), s1)"
  obtains "\<not> prev" "decrypt_packet E (session_key s) wire = Some plain" "s1 = s\<lparr>prev_key_active := False\<rparr>"
  | "prev" "decrypt_packet E (session_key s) wire = None" "prev_key_active s" "now \<le> prev_key_expires s"
    "decrypt_packet E (prev_session_key s) wire = Some plain" "s1 = s"
  using assms by (auto simp: decrypt_data_def split: option.splits if_splits)

lemma check_seq_in_place:
  assumes "check_seq prev plain s = (rc, s')"
  shows "same_place s s'"
  using assms by (auto simp: check_seq_def same_place_def Let_def split: if_splits prod.splits)

lemma accepted_in_place:
  assumes "data_accepted E now wire s0 s payload"
  shows "same_place s0 s"
proof -
  obtain plain prev s1 rc where d: "decrypt_data E now (s0\<lparr>last_seen := now\<rparr>) wire = (Some (plain, prev), s1)"
      and c: "check_seq prev plain s1 = (rc, s)"
    using assms by (auto simp: data_accepted_def)
  have "same_place s0 s1" using d by (rule decrypt_data_SomeD) (simp_all add: same_place_def)
  then show ?thesis using check_seq_in_place [OF c] by (simp add: same_place_def)
qed

text \<open>
  The guarantee behind a delivered payload: which key opened the packet, that its number was fresh, and
  the frame the packet must have been.
\<close>

definition genuine :: "('k, 'c, 'p) env \<Rightarrow> int \<Rightarrow> peer_session \<Rightarrow> bytes \<Rightarrow> bytes \<Rightarrow> bool" where
  "genuine E now s wire payload \<longleftrightarrow>
     (\<exists>key seq iv o1 o2 tag. wire = iv @ o1 @ o2 @ tag \<and> length iv = CRYPTO_IV_LEN \<and> length tag = CRYPTO_TAG_LEN \<and>
        gcm_seal E key iv (pkt_header @ htobe64 seq @ payload) = Some (o1, o2, tag) \<and>
        (key = session_key s \<and> fst (check_replay seq (recv_seq_highest s) (recv_seq_window s)) = 0 \<or>
         key = prev_session_key s \<and> prev_key_active s \<and> now \<le> prev_key_expires s))"

lemma accepted_genuine:
  assumes "gcm_authentic E" "data_accepted E now wire s0 s payload"
  shows "genuine E now s0 wire payload"
proof -
  from assms(2) obtain plain prev s1 rc where
      d: "decrypt_data E now (s0\<lparr>last_seen := now\<rparr>) wire = (Some (plain, prev), s1)"
    and h: "HEADER_SIZE + SEQ_SIZE \<le> length plain" "take HEADER_SIZE plain = pkt_header"
    and c: "check_seq prev plain s1 = (rc, s)" "0 \<le> rc"
    and p: "payload = drop (HEADER_SIZE + SEQ_SIZE) plain"
    by (auto simp: data_accepted_def)
  define seq where "seq = be64toh (sub_bytes HEADER_SIZE SEQ_SIZE plain)"
  have plain: "plain = pkt_header @ htobe64 seq @ payload" unfolding seq_def p using h by (rule plain_split)
  have s1: "recv_seq_highest s1 = recv_seq_highest s0" "recv_seq_window s1 = recv_seq_window s0"
    using d by (auto elim!: decrypt_data_SomeD)
  define key where "key = (if prev then prev_session_key s0 else session_key s0)"
  have "decrypt_packet E key wire = Some plain" using d by (auto simp: key_def elim!: decrypt_data_SomeD)
  then obtain iv o1 o2 tag where f: "wire = iv @ o1 @ o2 @ tag" "length iv = CRYPTO_IV_LEN"
      "length tag = CRYPTO_TAG_LEN" "gcm_seal E key iv plain = Some (o1, o2, tag)"
    by (rule decrypt_packet_sealed [OF assms(1)])
  have "key = session_key s0 \<and> fst (check_replay seq (recv_seq_highest s0) (recv_seq_window s0)) = 0 \<or>
         key = prev_session_key s0 \<and> prev_key_active s0 \<and> now \<le> prev_key_expires s0"
  proof (cases prev)
    case True
    with d show ?thesis by (auto simp: key_def elim!: decrypt_data_SomeD)
  next
    case False
    then have "fst (check_replay seq (recv_seq_highest s0) (recv_seq_window s0)) = rc"
      using c(1) s1 by (auto simp: check_seq_def seq_def Let_def split: prod.splits)
    with c(2) check_replay_rc [of seq "recv_seq_highest s0" "recv_seq_window s0"] False show ?thesis
      by (auto simp: key_def)
  qed
  with f plain show "genuine E now s0 wire payload" unfolding genuine_def by blast
qed

text \<open>What a session does with the payload afterwards.\<close>

lemma deliver_payload_trace:
  assumes "deliver_payload E i payload st w = (st', w')"
  obtains "trace w' = trace w" "payload = [] \<or> (is_ipv4 payload \<and> \<not> check_allowed_src (sessions st ! i) (ip_src payload)) \<or> \<not> os_write E (calls w)"
  | fwd where "payload \<noteq> []" "is_ipv4 payload" "route_lookup st (ip_dst payload) = Some fwd" "fwd \<noteq> i"
      "check_allowed_src (sessions st ! i) (ip_src payload)"
      "forward_to_peer E fwd payload st w = (st', w')"
  | "payload \<noteq> []" "is_ipv4 payload \<Longrightarrow> check_allowed_src (sessions st ! i) (ip_src payload)"
      "is_ipv4 payload \<Longrightarrow> route_lookup st (ip_dst payload) \<in> {None, Some i}"
      "st' = st" "trace w' = trace w @ [Tun_Out payload]"
proof -
  let ?s = "sessions st ! i"
  have a: "route_count ?s = 0 \<Longrightarrow> check_allowed_src ?s ip" for ip by (simp add: check_allowed_src_def)
  consider "payload = []" | "is_ipv4 payload" "\<not> check_allowed_src ?s (ip_src payload)" "payload \<noteq> []"
    | "payload \<noteq> []" "is_ipv4 payload \<Longrightarrow> check_allowed_src ?s (ip_src payload)" by blast
  then show ?thesis
  proof cases
    case 1
    with assms show ?thesis by (intro that(1)) (auto simp: deliver_payload_def)
  next
    case 2
    then have "route_count ?s > 0" using a by (cases "route_count ?s") auto
    with 2 assms show ?thesis by (intro that(1)) (auto simp: deliver_payload_def)
  next
    case 3
    show ?thesis
    proof (cases "\<exists>fwd. is_ipv4 payload \<and> route_lookup st (ip_dst payload) = Some fwd \<and> fwd \<noteq> i")
      case True
      then obtain fwd where f: "is_ipv4 payload" "route_lookup st (ip_dst payload) = Some fwd" "fwd \<noteq> i" by auto
      with 3 assms show ?thesis by (intro that(2)) (auto simp: deliver_payload_def)
    next
      case False
      then have r: "(st', w') = (st, snd (sys_write E payload w))"
          and n: "is_ipv4 payload \<Longrightarrow> route_lookup st (ip_dst payload) \<in> {None, Some i}"
        using 3 assms by (auto simp: deliver_payload_def split: option.splits if_splits)
      show ?thesis
      proof (cases "os_write E (calls w)")
        case True
        with r n 3 show ?thesis by (intro that(3)) (auto simp: sys_write_def)
      next
        case False
        with r show ?thesis by (intro that(1)) (auto simp: sys_write_def Let_def)
      qed
    qed
  qed
qed

section \<open>Traces of the socket handlers\<close>

lemma session_init_trace: "session_init E i a pub key cfg ob st w = (st', w') \<Longrightarrow> trace w' = trace w"
  by (auto simp: session_init_def split: prod.splits dest: init_slot_fields(15))

lemma handle_response_trace:
  assumes "handle_response E my_key my_pub psk wire src j st w = (st', w')"
  shows "trace w' = trace w"
  using assms
  by (auto simp: handle_response_def Let_def client_recv_world(1) session_init_trace
        split: prod.splits option.splits)

lemma handle_inbound_trace:
  assumes "handle_inbound E my_key my_pub psk now wire src st0 w = (st', w')"
  obtains "trace w' = trace w"
  | resp km enc pub v v' where "trace w' = trace w @ [Udp_Out src resp]" "hs_frame E psk pub enc = Some resp"
      "encrypt_identity E km my_pub (replicate HS_ENCRYPTED_PUB_LEN 0) v = (Some enc, v')"
      "pub = precomp_eph_pub (snd (tie_break my_pub src st0))"
proof -
  obtain skip st where t: "tie_break my_pub src st0 = (skip, st)" by (metis surj_pair)
  obtain r w1 where r: "handshake_server_respond E wire src psk my_key my_pub (precomp_eph_key st) (precomp_eph_pub st) w
      = (r, w1)" by (metis surj_pair)
  have "w' = w \<or> trace w' = trace w1"
  proof (cases "skip \<or> in_cooldown st now (find_session_by_addr st src) \<or> r = None")
    case True
    then show ?thesis using assms by (auto simp: handle_inbound_def t r split: if_splits)
  next
    case False
    then obtain pp key where k: "r = Some (pp, key)" by auto
    obtain st1 w2 where f: "refresh_precomp_eph E st w1 = (st1, w2)" by (metis surj_pair)
    have "trace w2 = trace w1"
      using f generate_eph_keypair_world [of E w1]
      by (auto simp: refresh_precomp_eph_def split: prod.splits option.splits)
    moreover have "trace w' = trace w2"
      using assms False k f by (auto simp: handle_inbound_def t r session_init_trace Let_def
          split: if_splits option.splits prod.splits)
    ultimately show ?thesis by simp
  qed
  with server_respond_outcome [OF r] show ?thesis
    using that t by auto
qed

lemma new_events:
  "trace w' = trace w \<Longrightarrow> drop (length (trace w)) (trace w') = []"
  "trace w' = trace w @ es \<Longrightarrow> drop (length (trace w)) (trace w') = es"
  by simp_all

lemma hs_output:
  assumes "handle_udp E my_key my_pub psk dgram src st w = (st', w')"
    and "hs_shaped psk (take (BUFFER_SIZE + WIRE_OVERHEAD) dgram)"
  shows "trace w' = trace w \<or> (\<exists>resp. trace w' = trace w @ [Udp_Out src resp])"
proof (cases "match_pending st src")
  case None
  then have "handle_inbound E my_key my_pub psk (os_time E (calls w)) (take (BUFFER_SIZE + WIRE_OVERHEAD) dgram) src st
      (w\<lparr>calls := Suc (calls w)\<rparr>) = (st', w')"
    using assms by (simp add: handle_udp_def sys_time_def)
  then show ?thesis by (rule handle_inbound_trace) auto
next
  case (Some j)
  then have "handle_response E my_key my_pub psk (take (BUFFER_SIZE + WIRE_OVERHEAD) dgram) src j st
      (w\<lparr>calls := Suc (calls w)\<rparr>) = (st', w')"
    using assms by (simp add: handle_udp_def sys_time_def)
  then show ?thesis using handle_response_trace by fastforce
qed

text \<open>What leaves for another session is the payload, sealed under the key and the next number of that session.\<close>

definition relayed :: "('k, 'c, 'p) env \<Rightarrow> peer_session \<Rightarrow> bytes \<Rightarrow> out_event \<Rightarrow> bool" where
  "relayed E s payload e \<longleftrightarrow> (\<exists>out. e = Udp_Out (addr s) out \<and> length out = length payload + WIRE_OVERHEAD \<and>
     decrypt_packet E (session_key s) out = Some (pkt_header @ htobe64 (send_seq s) @ payload))"

lemma relay_target:
  assumes "gcm_correct E" "rand_fills E" "peer_inv st" "route_lookup st dst = Some fwd" "forward_to_peer E fwd payload st w = (st', w')"
    and "e \<in> set (drop (length (trace w)) (trace w'))"
  shows "fwd < session_slots st" "active (sessions st ! fwd)" "relayed E (sessions st ! fwd) payload e"
proof -
  show "fwd < session_slots st" "active (sessions st ! fwd)" using route_lookup_active [OF assms(3,4)] .
  show "relayed E (sessions st ! fwd) payload e"
    using assms(5,6) by (elim forward_emission [OF assms(1,2)]) (auto simp: new_events relayed_def)
qed

lemma data_output:
  assumes E: "gcm_authentic E" "gcm_correct E" "rand_fills E" and inv: "peer_inv st"
    and h: "handle_data E now wire src st w = (st', w')" and e: "e \<in> set (drop (length (trace w)) (trace w'))"
  shows "\<exists>i payload. find_session_by_addr st src = Some i \<and> payload \<noteq> [] \<and>
     genuine E now (sessions st ! i) wire payload \<and>
     (is_ipv4 payload \<longrightarrow> check_allowed_src (sessions st ! i) (ip_src payload)) \<and>
     (case (if is_ipv4 payload then route_lookup st (ip_dst payload) else None) of
        Some fwd \<Rightarrow> active (sessions st ! fwd) \<and> (if fwd = i then e = Tun_Out payload else relayed E (sessions st ! fwd) payload e)
      | None \<Rightarrow> e = Tun_Out payload)"
  using h
proof (rule handle_data_outcome)
  fix i s payload
  assume i: "find_session_by_addr st src = Some i" and acc: "data_accepted E now wire (sessions st ! i) s payload"
    and tm: "tame (sessions st ! i) s" and d: "deliver_payload E i payload (upd_session i (\<lambda>_. s) st) w = (st', w')"
  let ?st = "upd_session i (\<lambda>_. s) st"
  note t = peer_invD(1) [OF inv] and g = accepted_genuine [OF E(1) acc] and sp = accepted_in_place [OF acc]
  have nth: "sessions ?st ! k = (if k = i then s else sessions st ! k)" if "k < session_slots st" for k
    using that tables_okD(1,2) [OF t] by (simp add: upd_session_nth)
  have al: "check_allowed_src (sessions ?st ! i) ip = check_allowed_src (sessions st ! i) ip" for ip
    using find_session_by_addr_SomeD(1) [OF i] sp by (simp add: nth check_allowed_src_def same_place_def)
  note rl = same_place_lookups(2) [OF sp t]
  have inv': "peer_inv ?st" by (rule upd_session_inv [OF inv]) (rule tm)
  have act: "active (sessions st ! i)" using find_session_by_addr_SomeD [OF i] by simp
  show ?thesis
    using d
  proof (rule deliver_payload_trace)
    fix fwd
    assume f: "payload \<noteq> []" "is_ipv4 payload" "route_lookup ?st (ip_dst payload) = Some fwd" "fwd \<noteq> i"
      "check_allowed_src (sessions ?st ! i) (ip_src payload)" "forward_to_peer E fwd payload ?st w = (st', w')"
    note r = relay_target [OF E(2,3) inv' f(3,6) e]
    have "sessions ?st ! fwd = sessions st ! fwd" using nth r(1) f(4) by simp
    with r have "active (sessions st ! fwd)" "relayed E (sessions st ! fwd) payload e" by simp_all
    with i g f(1,2,4) f(3) [unfolded rl] f(5) [unfolded al] show ?thesis by (intro exI [of _ i] exI [of _ payload]) simp
  next
    assume f: "payload \<noteq> []" "is_ipv4 payload \<Longrightarrow> check_allowed_src (sessions ?st ! i) (ip_src payload)"
      "is_ipv4 payload \<Longrightarrow> route_lookup ?st (ip_dst payload) \<in> {None, Some i}" "trace w' = trace w @ [Tun_Out payload]"
    have "e = Tun_Out payload" using e by (simp add: new_events(2) [OF f(4)])
    moreover have "is_ipv4 payload \<Longrightarrow> route_lookup st (ip_dst payload) = None \<or> route_lookup st (ip_dst payload) = Some i"
      using f(3) unfolding rl by simp
    ultimately show ?thesis using i g act f(1) f(2) [unfolded al] by (intro exI [of _ i] exI [of _ payload]) (simp, fastforce)
  qed (use e in \<open>simp add: new_events\<close>)
qed (use e in simp_all)

section \<open>Reception of a packet the peer sent\<close>

lemma handle_data_current:
  assumes "find_session_by_addr st src = Some k"
    and "decrypt_packet E (session_key (sessions st ! k)) wire = Some (pkt_header @ htobe64 seq @ payload)"
    and "check_replay seq (recv_seq_highest (sessions st ! k)) (recv_seq_window (sessions st ! k)) = (rc, h, win)"
    and "s = (sessions st ! k)\<lparr>last_seen := now, prev_key_active := False, recv_seq_highest := h, recv_seq_window := win\<rparr>"
  shows "handle_data E now wire src st w =
     (if rc < 0 then (upd_session k (\<lambda>_. s) st, w) else deliver_payload E k payload (upd_session k (\<lambda>_. s) st) w)"
  using assms(2,3) plain_fields [of seq payload]
  by (simp add: handle_data_def assms(1,4) decrypt_data_def check_seq_def Let_def)

lemma handle_udp_data:
  assumes "\<not> hs_shaped psk wire" "length wire \<le> BUFFER_SIZE + WIRE_OVERHEAD"
  shows "handle_udp E my_key my_pub psk wire src st w
    = handle_data E (os_time E (calls w)) wire src st (w\<lparr>calls := Suc (calls w)\<rparr>)"
  using assms by (simp add: handle_udp_def sys_time_def)

section \<open>A concrete packet\<close>

text \<open>A 20-byte IPv4 packet from 10.0.0.5 to 192.168.1.1.\<close>

definition sample_payload :: bytes where
  "sample_payload = 0x45 # replicate 11 0 @ [10, 0, 0, 5, 192, 168, 1, 1]"

lemma sample_payload_facts:
  "is_ipv4 sample_payload" "ip_src sample_payload = 0x0a000005" "ip_dst sample_payload = 0xc0a80101"
  "length sample_payload = 20"
  by (simp_all add: is_ipv4_def ip_src_def ip_dst_def ntohl_def sub_bytes_def be_value_def sample_payload_def
        drop_bit_eq_div)

lemma sample_no_route: "route_lookup sample_state 0xc0a80101 = None"
  by (simp add: route_lookup_table sample_route_table scan_route_def prefix_matches_def net8_def net16_def)

lemma sample_by_addr: "find_session_by_addr sample_state addr_a = Some 0"
  unfolding find_session_by_addr_def
  by (intro first_idx_unique) (auto simp: sample_state_def addr_a_def addr_b_def less_Suc_eq numeral_2_eq_2)

lemma sample_session0: "sessions sample_state ! 0 = sample_session 2 net8 addr_a"
  by (simp add: sample_sessions_nth MAX_PEERS_def)

lemma sample_fresh:
  "send_seq (sessions sample_state ! 0) = 0" "recv_seq_highest (sessions sample_state ! 0) = 0"
  "recv_seq_window (sessions sample_state ! 0) = replicate 32 0"
  by (simp_all add: sample_session0 sample_session_def zero_session_def window_size)

lemma sample_allowed: "check_allowed_src (sessions sample_state ! 0) 0x0a000005"
  by (simp add: sample_session0 check_allowed_src_def prefix_matches_def net8_def)

lemma sample_forward:
  "\<exists>st' w' wire. forward_to_peer sample_env i payload st w = (st', w') \<and>
     trace w' = trace w @ [Udp_Out (addr (sessions st ! i)) wire] \<and> length wire = length payload + WIRE_OVERHEAD"
  by (simp add: forward_to_peer_def encrypt_packet_def sys_rand_def sys_sendto_def sys_time_def Let_def const_defs)

lemma sample_hs_size: "length wire = length sample_payload + WIRE_OVERHEAD \<Longrightarrow> \<not> hs_shaped None wire"
  by (simp add: hs_shaped_def hs_size_def sample_payload_facts const_defs)

text \<open>A 20-byte packet of session 0 from 10.0.0.5, on its way to the tunnel or to session 1.\<close>

lemma sample_received:
  assumes "is_ipv4 payload" "ip_src payload = 0x0a000005" "length payload = 20"
  shows "\<exists>wire st. \<not> hs_shaped None wire \<and> wire = take (BUFFER_SIZE + WIRE_OVERHEAD) wire \<and>
     handle_udp sample_env 3 (be_bytes 32 3) None wire addr_a sample_state fresh_world
       = deliver_payload sample_env 0 payload st (fresh_world\<lparr>calls := 1\<rparr>) \<and>
     route_lookup st = route_lookup sample_state \<and> sessions st ! 1 = sessions sample_state ! 1 \<and>
     check_allowed_src (sessions st ! 0) (ip_src payload)"
proof -
  obtain st1 w1 wire where f: "forward_to_peer sample_env 0 payload sample_state fresh_world = (st1, w1)"
      "trace w1 = trace fresh_world @ [Udp_Out (addr (sessions sample_state ! 0)) wire]"
      "length wire = length payload + WIRE_OVERHEAD"
    using sample_forward by blast
  have hs: "\<not> hs_shaped None wire" using f(3) assms(3) by (simp add: hs_shaped_def hs_size_def const_defs)
  have len: "length wire \<le> BUFFER_SIZE + WIRE_OVERHEAD" by (simp add: f(3) assms(3) BUFFER_SIZE_def)
  have dec: "decrypt_packet sample_env (session_key (sessions sample_state ! 0)) wire
      = Some (pkt_header @ htobe64 0 @ payload)"
    using f(1,2) by (auto elim!: forward_emission [OF sample_gcm_correct sample_rand_fills] simp: sample_fresh(1))
  have c: "check_replay 0 (recv_seq_highest (sessions sample_state ! 0)) (recv_seq_window (sessions sample_state ! 0))
      = (0, 0, (replicate 32 0)[0 := 1])"
    by (simp add: sample_fresh check_replay_def window_size)
  note run = handle_udp_data [OF hs len] handle_data_current [OF sample_by_addr dec c refl]
  define s where "s = (sessions sample_state ! 0)\<lparr>last_seen := os_time sample_env (calls fresh_world), prev_key_active := False,
      recv_seq_highest := 0, recv_seq_window := (replicate 32 0)[0 := 1]\<rparr>"
  have sp: "same_place (sessions sample_state ! 0) s" by (simp add: same_place_def s_def)
  let ?st = "upd_session 0 (\<lambda>_. s) sample_state"
  have n: "sessions ?st ! 0 = s" "sessions ?st ! 1 = sessions sample_state ! 1"
    using tables_okD(1) [OF peer_invD(1) [OF sample_state_inv]] by (simp_all add: upd_session_nth MAX_PEERS_def)
  have "check_allowed_src (sessions ?st ! 0) (ip_src payload)"
    using sample_allowed sp by (simp add: n assms(2) check_allowed_src_def same_place_def)
  moreover have "handle_udp sample_env 3 (be_bytes 32 3) None wire addr_a sample_state fresh_world
      = deliver_payload sample_env 0 payload ?st (fresh_world\<lparr>calls := 1\<rparr>)"
    unfolding run s_def by (simp add: fresh_world_def)
  ultimately show ?thesis
    using hs len n(2) same_place_lookups(2) [OF sp peer_invD(1) [OF sample_state_inv]] by (intro exI [of _ wire] exI [of _ ?st]) simp
qed

lemma sample_delivered:
  "\<exists>wire st' w'. handle_udp sample_env 3 (be_bytes 32 3) None wire addr_a sample_state fresh_world = (st', w') \<and>
     wire = take (BUFFER_SIZE + WIRE_OVERHEAD) wire \<and> \<not> hs_shaped None wire \<and>
     Tun_Out sample_payload \<in> set (drop (length (trace fresh_world)) (trace w'))"
proof -
  obtain wire st where w: "\<not> hs_shaped None wire" "wire = take (BUFFER_SIZE + WIRE_OVERHEAD) wire"
      "handle_udp sample_env 3 (be_bytes 32 3) None wire addr_a sample_state fresh_world
         = deliver_payload sample_env 0 sample_payload st (fresh_world\<lparr>calls := 1\<rparr>)"
      "route_lookup st = route_lookup sample_state" "check_allowed_src (sessions st ! 0) (ip_src sample_payload)"
    using sample_received [OF sample_payload_facts(1,2,4)] by blast
  obtain st' w' where h: "handle_udp sample_env 3 (be_bytes 32 3) None wire addr_a sample_state fresh_world = (st', w')"
    by (metis surj_pair)
  have "sample_payload \<noteq> []" by (simp add: sample_payload_def)
  then have "Tun_Out sample_payload \<in> set (drop (length (trace fresh_world)) (trace w'))"
    using h w(4,5) sample_payload_facts sample_no_route by (auto simp: w(3) deliver_payload_def sys_write_def)
  with h w(1,2) show ?thesis by blast
qed

text \<open>From 10.0.0.5 to 10.1.2.3, which session 1 owns.\<close>

definition relay_payload :: bytes where
  "relay_payload = 0x45 # replicate 11 0 @ [10, 0, 0, 5, 10, 1, 2, 3]"

lemma relay_payload_facts:
  "is_ipv4 relay_payload" "ip_src relay_payload = 0x0a000005" "ip_dst relay_payload = 0x0a010203"
  "length relay_payload = 20"
  by (simp_all add: is_ipv4_def ip_src_def ip_dst_def ntohl_def sub_bytes_def be_value_def relay_payload_def
        drop_bit_eq_div)

lemma sample_relayed:
  "\<exists>wire st' w' out. handle_udp sample_env 3 (be_bytes 32 3) None wire addr_a sample_state fresh_world = (st', w') \<and>
     wire = take (BUFFER_SIZE + WIRE_OVERHEAD) wire \<and> \<not> hs_shaped None wire \<and>
     Udp_Out addr_b out \<in> set (drop (length (trace fresh_world)) (trace w'))"
proof -
  obtain wire st where w: "\<not> hs_shaped None wire" "wire = take (BUFFER_SIZE + WIRE_OVERHEAD) wire"
      "handle_udp sample_env 3 (be_bytes 32 3) None wire addr_a sample_state fresh_world
         = deliver_payload sample_env 0 relay_payload st (fresh_world\<lparr>calls := 1\<rparr>)"
      "route_lookup st = route_lookup sample_state" "sessions st ! 1 = sessions sample_state ! 1"
      "check_allowed_src (sessions st ! 0) (ip_src relay_payload)"
    using sample_received [OF relay_payload_facts(1,2,4)] by blast
  have a: "addr (sessions sample_state ! 1) = addr_b" by (simp add: sample_sessions_nth MAX_PEERS_def)
  obtain st' w' out where o: "forward_to_peer sample_env 1 relay_payload st (fresh_world\<lparr>calls := 1\<rparr>) = (st', w')"
      "trace w' = trace fresh_world @ [Udp_Out addr_b out]"
    using sample_forward [of 1 relay_payload st "fresh_world\<lparr>calls := 1\<rparr>"] w(5) a by auto
  have "relay_payload \<noteq> []" by (simp add: relay_payload_def)
  then have "handle_udp sample_env 3 (be_bytes 32 3) None wire addr_a sample_state fresh_world = (st', w')"
    using w(3,4,6) relay_payload_facts sample_route o(1) by (simp add: deliver_payload_def)
  moreover have "Udp_Out addr_b out \<in> set (drop (length (trace fresh_world)) (trace w'))" by (simp add: new_events(2) [OF o(2)])
  ultimately show ?thesis using w(1,2) by blast
qed

section \<open>Properties\<close>

text \<open>C2. Only genuine traffic passes: whatever leaves the program because of a datagram that is not a
  handshake comes from a session whose address is the sender's, and its payload was sealed in exactly
  that datagram under the session key with a number the replay window accepts, or under the previous
  key within its grace period, and has an allowed source address. When the destination is routed to another
  active session, what leaves is that same payload, sealed anew under the key and the next number of that
  session and sent to its address; otherwise it is the payload, written to the tunnel unchanged. A datagram
  of handshake shape causes at most an answer to its sender.\<close>

theorem output_genuine:
  assumes "gcm_authentic E" "gcm_correct E" "rand_fills E" "peer_inv st"
    and "handle_udp E my_key my_pub psk dgram src st w = (st', w')"
    and "wire = take (BUFFER_SIZE + WIRE_OVERHEAD) dgram"
    and "e \<in> set (drop (length (trace w)) (trace w'))"
  shows "if hs_shaped psk wire then \<exists>resp. e = Udp_Out src resp
    else \<exists>i payload. find_session_by_addr st src = Some i \<and> payload \<noteq> [] \<and>
        genuine E (os_time E (calls w)) (sessions st ! i) wire payload \<and>
        (is_ipv4 payload \<longrightarrow> check_allowed_src (sessions st ! i) (ip_src payload)) \<and>
        (case (if is_ipv4 payload then route_lookup st (ip_dst payload) else None) of
           Some fwd \<Rightarrow> active (sessions st ! fwd) \<and>
             (if fwd = i then e = Tun_Out payload else relayed E (sessions st ! fwd) payload e)
         | None \<Rightarrow> e = Tun_Out payload)"
proof (cases "hs_shaped psk wire")
  case True
  then show ?thesis using hs_output [OF assms(5)] assms(6,7) by (auto simp: new_events)
next
  case False
  then have "handle_data E (os_time E (calls w)) wire src st (w\<lparr>calls := Suc (calls w)\<rparr>) = (st', w')"
    using assms(5,6) by (simp add: handle_udp_def sys_time_def)
  from data_output [OF assms(1-4) this] assms(7) False show ?thesis by simp
qed

text \<open>C1. Delivery, once: a packet that one end sends through a session is, at an end that holds the same
  session key and has not seen its number, written unchanged to the tunnel device, provided the
  inner packet has an allowed source and is not routed to a third peer; the same datagram arriving
  again is dropped. (A datagram that happens to have the length and the first eight bytes of a
  handshake is excluded: the code takes it for one.)\<close>

theorem tunnel_delivers_once:
  assumes "gcm_correct E" "rand_fills E" "\<And>n. os_write E n"
    and "forward_to_peer E i payload stA w = (stA', w')" "trace w' = trace w @ [Udp_Out a wire]"
    and "peer_inv stB" "find_session_by_addr stB src = Some k"
    and "session_key (sessions stB ! k) = session_key (sessions stA ! i)"
    and "fst (check_replay (send_seq (sessions stA ! i)) (recv_seq_highest (sessions stB ! k))
           (recv_seq_window (sessions stB ! k))) = 0"
    and "payload \<noteq> []" "length payload \<le> BUFFER_SIZE" "\<not> hs_shaped psk wire"
    and "is_ipv4 payload \<Longrightarrow> check_allowed_src (sessions stB ! k) (ip_src payload) \<and>
           route_lookup stB (ip_dst payload) \<in> {None, Some k}"
    and "handle_udp E my_key my_pub psk wire src stB v = (stB', v')"
  shows "a = addr (sessions stA ! i) \<and> trace v' = trace v @ [Tun_Out payload] \<and>
    trace (snd (handle_udp E my_key my_pub psk wire src stB' u)) = trace u"
proof -
  let ?s = "sessions stB ! k" and ?seq = "send_seq (sessions stA ! i)"
  from assms(4,5) have a: "a = addr (sessions stA ! i)" and len: "length wire \<le> BUFFER_SIZE + WIRE_OVERHEAD"
      and dec: "decrypt_packet E (session_key ?s) wire = Some (pkt_header @ htobe64 ?seq @ payload)"
    using assms(8,11) by (auto elim!: forward_emission [OF assms(1,2)])
  note udp = handle_udp_data [OF assms(12) len] and t = peer_invD(1) [OF assms(6)]
  obtain h win where c: "check_replay ?seq (recv_seq_highest ?s) (recv_seq_window ?s) = (0, h, win)"
    using assms(9) by (metis fst_conv prod.exhaust)
  define s where "s = ?s\<lparr>last_seen := os_time E (calls v), prev_key_active := False, recv_seq_highest := h, recv_seq_window := win\<rparr>"
  let ?st = "upd_session k (\<lambda>_. s) stB"
  have k: "k < MAX_PEERS" "sessions ?st ! k = s" "session_wf ?s"
    using find_session_by_addr_SomeD(1) [OF assms(7)] tables_okD(1,2,5) [OF t] by (auto simp: upd_session_nth)
  have sp: "same_place ?s s" by (simp add: same_place_def s_def)
  note lk = same_place_lookups [OF sp t]
  have "deliver_payload E k payload ?st (v\<lparr>calls := Suc (calls v)\<rparr>) = (stB', v')"
    using assms(14) handle_data_current [OF assms(7) dec c s_def] by (simp add: udp)
  then have d: "stB' = ?st" "trace v' = trace v @ [Tun_Out payload]"
    using assms(3,10,13) sp by (auto simp: deliver_payload_def k(2) lk check_allowed_src_def same_place_def sys_write_def
        split: if_splits option.splits)
  obtain h' win' where again: "check_replay ?seq h win = (-1, h', win')"
    using check_replay_again [OF _ c] k(3) by (metis fst_conv prod.exhaust session_wf_def)
  have "find_session_by_addr ?st src = Some k" using assms(7) by (simp add: lk)
  from handle_data_current [OF this, of E wire ?seq payload "-1" h' win', OF _ _ refl] dec again
  have "snd (handle_data E now wire src ?st w2) = w2" for now w2 by (simp add: k(2)) (simp add: s_def)
  with a d show ?thesis by (simp add: udp)
qed

theorem tunnel_delivers_once_witness:
  "\<exists>stA' w' wire stB' v'. forward_to_peer sample_env 0 sample_payload sample_state fresh_world = (stA', w') \<and>
     trace w' = trace fresh_world @ [Udp_Out addr_a wire] \<and>
     handle_udp sample_env 3 (be_bytes 32 3) None wire addr_a sample_state fresh_world = (stB', v') \<and>
     trace v' = trace fresh_world @ [Tun_Out sample_payload] \<and>
     trace (snd (handle_udp sample_env 3 (be_bytes 32 3) None wire addr_a stB' v')) = trace v'"
proof -
  obtain stA' w' wire where f: "forward_to_peer sample_env 0 sample_payload sample_state fresh_world = (stA', w')"
      "trace w' = trace fresh_world @ [Udp_Out (addr (sessions sample_state ! 0)) wire]"
      "length wire = length sample_payload + WIRE_OVERHEAD"
    using sample_forward by blast
  obtain stB' v' where h: "handle_udp sample_env 3 (be_bytes 32 3) None wire addr_a sample_state fresh_world = (stB', v')"
    by (metis surj_pair)
  have fresh: "fst (check_replay (send_seq (sessions sample_state ! 0)) (recv_seq_highest (sessions sample_state ! 0))
      (recv_seq_window (sessions sample_state ! 0))) = 0"
    by (simp add: sample_fresh check_replay_def window_size)
  have "sample_payload \<noteq> []" "length sample_payload \<le> BUFFER_SIZE" by (simp_all add: sample_payload_def BUFFER_SIZE_def)
  from tunnel_delivers_once [OF sample_gcm_correct sample_rand_fills _ f(1,2) sample_state_inv sample_by_addr refl fresh
      this sample_hs_size [OF f(3)] _ h, of v']
  show ?thesis using f h sample_allowed sample_no_route by (auto simp: sample_payload_facts sample_session0)
qed

theorem output_genuine_witness:
  "(\<exists>wire st' w' i payload. handle_udp sample_env 3 (be_bytes 32 3) None wire addr_a sample_state fresh_world = (st', w') \<and>
      Tun_Out payload \<in> set (trace w') \<and> genuine sample_env 1000 (sessions sample_state ! i) wire payload) \<and>
   (\<exists>wire st' w' i payload out. handle_udp sample_env 3 (be_bytes 32 3) None wire addr_a sample_state fresh_world = (st', w') \<and>
      Udp_Out addr_b out \<in> set (trace w') \<and> genuine sample_env 1000 (sessions sample_state ! i) wire payload \<and>
      (\<exists>fwd. decrypt_packet sample_env (session_key (sessions sample_state ! fwd)) out = Some (pkt_header @ htobe64 (send_seq (sessions sample_state ! fwd)) @ payload)))"
proof -
  note laws = sample_gcm_authentic sample_gcm_correct sample_rand_fills sample_state_inv
  have w: "os_time sample_env (calls fresh_world) = 1000" "length (trace fresh_world) = 0" by (simp_all add: fresh_world_def)
  obtain wire st' w' where h: "handle_udp sample_env 3 (be_bytes 32 3) None wire addr_a sample_state fresh_world = (st', w')"
      "wire = take (BUFFER_SIZE + WIRE_OVERHEAD) wire" "\<not> hs_shaped None wire"
      "Tun_Out sample_payload \<in> set (drop (length (trace fresh_world)) (trace w'))"
    using sample_delivered by blast
  from output_genuine [OF laws h(1,2,4), unfolded if_not_P [OF h(3)]] obtain i payload where
      g: "genuine sample_env (os_time sample_env (calls fresh_world)) (sessions sample_state ! i) wire payload" and
      o: "case (if is_ipv4 payload then route_lookup sample_state (ip_dst payload) else None) of
           Some fwd \<Rightarrow> active (sessions sample_state ! fwd) \<and>
             (if fwd = i then Tun_Out sample_payload = Tun_Out payload else relayed sample_env (sessions sample_state ! fwd) payload (Tun_Out sample_payload))
         | None \<Rightarrow> Tun_Out sample_payload = Tun_Out payload"
    by blast
  have "payload = sample_payload" using o by (simp add: relayed_def split: option.splits if_splits)
  with g h(1,4) have 1: "\<exists>wire st' w' i payload. handle_udp sample_env 3 (be_bytes 32 3) None wire addr_a sample_state fresh_world = (st', w') \<and>
      Tun_Out payload \<in> set (trace w') \<and> genuine sample_env 1000 (sessions sample_state ! i) wire payload"
    unfolding w drop_0 by blast
  obtain wire st' w' out where h: "handle_udp sample_env 3 (be_bytes 32 3) None wire addr_a sample_state fresh_world = (st', w')"
      "wire = take (BUFFER_SIZE + WIRE_OVERHEAD) wire" "\<not> hs_shaped None wire"
      "Udp_Out addr_b out \<in> set (drop (length (trace fresh_world)) (trace w'))"
    using sample_relayed by blast
  from output_genuine [OF laws h(1,2,4), unfolded if_not_P [OF h(3)]] obtain i payload where
      g: "genuine sample_env (os_time sample_env (calls fresh_world)) (sessions sample_state ! i) wire payload" and
      o: "case (if is_ipv4 payload then route_lookup sample_state (ip_dst payload) else None) of
           Some fwd \<Rightarrow> active (sessions sample_state ! fwd) \<and>
             (if fwd = i then Udp_Out addr_b out = Tun_Out payload else relayed sample_env (sessions sample_state ! fwd) payload (Udp_Out addr_b out))
         | None \<Rightarrow> Udp_Out addr_b out = Tun_Out payload"
    by blast
  have "\<exists>fwd. relayed sample_env (sessions sample_state ! fwd) payload (Udp_Out addr_b out)"
    using o by (auto split: option.splits if_splits)
  with g 1 h(1,4) show ?thesis unfolding w drop_0 relayed_def by blast
qed

end
