(* ===== verification/Loop_Props.thy ===== *)
theory Loop_Props
  imports Data_Path
begin

text \<open>
  Properties of the event loop over time: the invariant along every run, what the periodic work
  leaves behind, how handshakes are rate limited, and how the loop ends.
\<close>

section \<open>What the periodic work leaves behind\<close>

text \<open>Sending touches the counter and the time of sending only.\<close>

lemma forward_to_peer_shape:
  assumes "forward_to_peer E i payload st w = (st', w')"
  shows "\<exists>t. st' = upd_session i (\<lambda>s. s\<lparr>send_seq := send_seq s + 1, last_sent := t s\<rparr>) st"
proof (cases "i < length (sessions st)")
  case True
  have c: "upd_session i h (upd_session i g st) = upd_session i (\<lambda>s. h (g s)) st" for h g
    using True by (simp add: upd_session_def)
  obtain r w1 where e: "encrypt_packet E (session_key (sessions st ! i))
      (pkt_header @ htobe64 (send_seq (sessions st ! i)) @ payload) w = (r, w1)" by (metis surj_pair)
  show ?thesis
  proof (cases "r = None \<or> \<not> os_sendto E (calls w1)")
    case True
    then have "st' = upd_session i (\<lambda>s. s\<lparr>send_seq := send_seq s + 1\<rparr>) st"
      using assms e by (auto simp: forward_to_peer_def sys_sendto_def Let_def split: option.splits)
    then show ?thesis by (intro exI [of _ last_sent]) simp
  next
    case False
    then obtain out where "r = Some out" by auto
    then have "\<exists>t. st' = upd_session i (\<lambda>s. s\<lparr>send_seq := send_seq s + 1, last_sent := t\<rparr>) st"
      using assms e False by (auto simp: forward_to_peer_def sys_sendto_def sys_time_def Let_def c)
    then show ?thesis by (auto intro: exI [of _ "\<lambda>_. _"])
  qed
next
  case False
  have n: "upd_session i g st = st" for g
    using False by (simp add: upd_session_def list_update_beyond not_less)
  then have "st' = st"
    using assms by (auto simp: forward_to_peer_def Let_def sys_time_def split: prod.splits option.splits bool.splits)
  then show ?thesis by (simp add: n)
qed

lemma upd_pending_timing:
  "length (pending_hs (expire_pending now j st)) = length (pending_hs st)"
  "cfg_handshake_timeout (expire_pending now j st) = cfg_handshake_timeout st"
  by (simp_all add: expire_pending_def drop_pending_def Let_def)

text \<open>\<open>young\<close>: not pending, or sent less than the time-out ago.\<close>

definition young :: "int \<Rightarrow> 'k peer_state \<Rightarrow> nat \<Rightarrow> bool" where
  "young now st j \<longleftrightarrow> p_active (pending_hs st ! j) \<longrightarrow> now - sent_at (pending_hs st ! j) < cfg_handshake_timeout st"

lemma expire_pending_young:
  assumes "k < length (pending_hs st)" "k = j \<or> young now st k"
  shows "young now (expire_pending now j st) k"
  using assms by (auto simp: young_def expire_pending_def drop_pending_def Let_def upd_pending_nth)

lemma expire_all_pending:
  assumes "n \<le> length (pending_hs st)" "k < n"
  shows "young now (fold (expire_pending now) [0..<n] st) k"
  using assms
proof (induction n arbitrary: k)
  case (Suc n)
  have l: "length (pending_hs (fold (expire_pending now) xs st)) = length (pending_hs st)" for xs
    by (induction xs arbitrary: st) (simp_all add: upd_pending_timing)
  show ?case
    using Suc.prems Suc.IH [of k]
    by (cases "k = n") (auto simp: l intro!: expire_pending_young)
qed simp

definition stale :: "int \<Rightarrow> 'k peer_state \<Rightarrow> nat \<Rightarrow> bool" where
  "stale now st j \<longleftrightarrow> active (sessions st ! j) \<and>
     now - (if last_seen (sessions st ! j) > 0 then last_seen (sessions st ! j) else last_handshake (sessions st ! j))
       > cfg_session_expiry st"

lemma expire_session_simps [simp]:
  "length (sessions (expire_session now j st)) = length (sessions st)"
  "cfg_session_expiry (expire_session now j st) = cfg_session_expiry st"
  "pending_hs (expire_session now j st) = pending_hs st"
  "cfg_handshake_timeout (expire_session now j st) = cfg_handshake_timeout st"
  "session_slots (expire_session now j st) = session_slots st"
  by (simp_all add: expire_session_def Let_def)

lemma expire_session_stale:
  assumes "k < length (sessions st)" "k = j \<or> \<not> stale now st k"
  shows "\<not> stale now (expire_session now j st) k"
  using assms by (auto simp: stale_def expire_session_def Let_def upd_session_nth)

lemma expire_session_fold [simp]:
  "length (sessions (fold (expire_session now) xs st)) = length (sessions st)"
  "pending_hs (fold (expire_session now) xs st) = pending_hs st"
  "cfg_handshake_timeout (fold (expire_session now) xs st) = cfg_handshake_timeout st"
  "session_slots (fold (expire_session now) xs st) = session_slots st"
  by (induction xs arbitrary: st) simp_all

lemma expire_all_sessions:
  assumes "n \<le> length (sessions st)" "k < n"
  shows "\<not> stale now (fold (expire_session now) [0..<n] st) k"
  using assms
proof (induction n arbitrary: k)
  case (Suc n)
  then show ?case
    using Suc.IH [of k] expire_session_stale [of k "fold (expire_session now) [0..<n] st" n now]
    by (cases "k = n") auto
qed simp

lemma forward_keeps:
  assumes "forward_to_peer E i payload st w = (st', w')"
  shows "pending_hs st' = pending_hs st" "cfg_handshake_timeout st' = cfg_handshake_timeout st"
    "session_slots st' = session_slots st" "k < length (sessions st) \<Longrightarrow> stale now st' k = stale now st k"
    "length (sessions st') = length (sessions st)"
proof -
  obtain t where "st' = upd_session i (\<lambda>s. s\<lparr>send_seq := send_seq s + 1, last_sent := t s\<rparr>) st"
    using forward_to_peer_shape [OF assms] by auto
  then show "pending_hs st' = pending_hs st" "cfg_handshake_timeout st' = cfg_handshake_timeout st"
    "session_slots st' = session_slots st" "k < length (sessions st) \<Longrightarrow> stale now st' k = stale now st k"
    "length (sessions st') = length (sessions st)"
    by (auto simp: stale_def upd_session_nth)
qed

lemma keepalive_keeps:
  "pending_hs (fst (keepalive E ki now j b)) = pending_hs (fst b) \<and>
   cfg_handshake_timeout (fst (keepalive E ki now j b)) = cfg_handshake_timeout (fst b) \<and>
   session_slots (fst (keepalive E ki now j b)) = session_slots (fst b) \<and>
   length (sessions (fst (keepalive E ki now j b))) = length (sessions (fst b)) \<and>
   (k < length (sessions (fst b)) \<longrightarrow> stale now' (fst (keepalive E ki now j b)) k = stale now' (fst b) k)"
proof (cases "forward_to_peer E j [] (fst b) (snd b)")
  case (Pair st' w')
  then show ?thesis using forward_keeps [OF Pair] by (cases b) (simp add: keepalive_def Let_def)
qed

lemma keepalives_keep:
  "pending_hs (fst (fold (keepalive E ki now) xs b)) = pending_hs (fst b) \<and>
   cfg_handshake_timeout (fst (fold (keepalive E ki now) xs b)) = cfg_handshake_timeout (fst b) \<and>
   session_slots (fst (fold (keepalive E ki now) xs b)) = session_slots (fst b) \<and>
   length (sessions (fst (fold (keepalive E ki now) xs b))) = length (sessions (fst b)) \<and>
   (k < length (sessions (fst b)) \<longrightarrow> stale now' (fst (fold (keepalive E ki now) xs b)) k = stale now' (fst b) k)"
proof (induction xs arbitrary: b)
  case (Cons x xs)
  show ?case
    using Cons.IH [of "keepalive E ki now x b"] keepalive_keeps [of E ki now x b k now'] by simp
qed simp

lemma periodic_clean:
  assumes "peer_inv st" "periodic E my_pub psk ki now st w = (st', w')" "k < MAX_PEERS"
  shows "young now st' k" "\<not> stale now st' k"
proof -
  have inv': "peer_inv st'" using periodic_inv [OF assms(1,2)] .
  let ?n = "length (peer_configs st)"
  obtain st1 w1 where f: "fold (check_peer E my_pub psk now) [0..<?n] (st, w) = (st1, w1)" by fastforce
  have inv1: "peer_inv st1"
    using checks_inv [OF assms(1), of E my_pub psk now w] by (simp add: f)
  define st2 where "st2 = fold (expire_pending now) [0..<MAX_PEERS] st1"
  define st3 where "st3 = fold (expire_session now) [0..<session_slots st2] st2"
  have inv2: "peer_inv st2" unfolding st2_def using inv1 by (rule fold_inv) (rule expire_pending_inv)
  note t1 = tables_okD [OF peer_invD(1) [OF inv1]] and t2 = tables_okD [OF peer_invD(1) [OF inv2]]
  have st': "st' = fst (fold (keepalive E ki now) [0..<session_slots st3] (st3, w1))"
    using assms(2) by (simp add: periodic_def f st2_def st3_def Let_def)
  note kp = keepalives_keep [of E ki now "[0..<session_slots st3]" "(st3, w1)" k now, folded st', unfolded fst_conv]
  have "young now st2 k" unfolding st2_def using t1(3) assms(3) by (intro expire_all_pending) simp_all
  then show "young now st' k" using kp by (simp add: young_def st3_def)
  show "\<not> stale now st' k"
  proof (cases "k < session_slots st2")
    case True
    then have "\<not> stale now st3 k" unfolding st3_def using t2(1,2) by (intro expire_all_sessions) simp_all
    with kp t2(1) assms(3) show ?thesis by (simp add: st3_def)
  next
    case False
    then show ?thesis
      using sessions_okD [OF peer_invD(2) [OF inv'] assms(3)] kp by (auto simp: stale_def st3_def)
  qed
qed

section \<open>What the handlers never touch\<close>

text \<open>The configured times and the stop flag.\<close>

definition settings :: "'k peer_state \<Rightarrow> bool \<times> int \<times> int \<times> int \<times> int \<times> int \<times> int" where
  "settings st = (stop_flag st, cfg_rekey_after st, cfg_reconnect_interval st, cfg_session_expiry st,
     cfg_prev_key_grace st, cfg_handshake_timeout st, cfg_handshake_cooldown st)"

named_theorems frame

lemma settings_upd [simp]:
  "settings (upd_session i f st) = settings st" "settings (upd_config i g st) = settings st"
  "settings (upd_pending i h st) = settings st" "settings (set_rekeying b s st) = settings st"
  "settings (st\<lparr>session_slots := n\<rparr>) = settings st" "settings (st\<lparr>print_sessions_flag := b\<rparr>) = settings st"
  by (simp_all add: settings_def upd_session_def upd_config_def upd_pending_def set_rekeying_def split: option.split)

lemma forward_frame [frame]: "forward_to_peer E i payload st w = (st', w') \<Longrightarrow> settings st' = settings st"
  by (auto dest!: forward_to_peer_shape)

lemma initiate_frame [frame]:
  assumes "initiate_outbound_handshake E ci my_pub psk st w = ((ok, st'), w')"
  shows "settings st' = settings st"
  using assms by (auto simp: initiate_outbound_handshake_def Let_def split: prod.splits option.splits)

lemma check_peer_frame [frame]: "settings (fst (check_peer E my_pub psk now i b)) = settings (fst b)"
  by (cases b) (auto simp: check_peer_def Let_def initiate_frame split: prod.splits)

lemma expire_frame [frame]:
  "settings (expire_pending now j st) = settings st" "settings (expire_session now j st) = settings st"
  by (simp_all add: expire_pending_def expire_session_def drop_pending_def Let_def)

lemma keepalive_frame [frame]: "settings (fst (keepalive E ki now j b)) = settings (fst b)"
proof (cases "forward_to_peer E j [] (fst b) (snd b)")
  case (Pair st' w')
  then show ?thesis using forward_frame [OF Pair] by (cases b) (simp add: keepalive_def Let_def)
qed

lemma periodic_frame [frame]:
  assumes "periodic E my_pub psk ki now st w = (st', w')"
  shows "settings st' = settings st"
proof -
  have f: "settings (fst (fold (check_peer E my_pub psk now) xs b)) = settings (fst b)"
      "settings (fold (expire_pending now) xs st0) = settings st0"
      "settings (fold (expire_session now) xs st0) = settings st0"
      "settings (fst (fold (keepalive E ki now) xs b)) = settings (fst b)" for xs b and st0 :: "'a peer_state"
    by (induction xs arbitrary: b st0) (simp_all add: frame)
  obtain st1 w1 where c: "fold (check_peer E my_pub psk now) [0..<length (peer_configs st)] (st, w) = (st1, w1)"
    by fastforce
  have "settings st1 = settings st" using f(1) [of "[0..<length (peer_configs st)]" "(st, w)"] by (simp add: c)
  moreover have "settings st' = settings st1"
    using assms f(2-4) by (simp add: periodic_def c Let_def) (metis fst_conv)
  ultimately show ?thesis by simp
qed

lemma alloc_frame [frame]: "alloc_session st pub a = (r, st') \<Longrightarrow> settings st' = settings st"
  by (auto simp: alloc_session_eq split: option.splits if_splits)

lemma session_init_frame [frame]: "session_init E i a pub key cfg ob st w = (st', w') \<Longrightarrow> settings st' = settings st"
  by (auto simp: session_init_def split: prod.splits)

lemma response_frame [frame]:
  assumes "handle_response E my_key my_pub psk wire src j st w = (st', w')"
  shows "settings st' = settings st"
  using assms
  by (auto simp: handle_response_def Let_def split: prod.splits option.splits dest!: session_init_frame alloc_frame)

lemma tie_break_frame [frame]: "tie_break my_pub src st = (skip, st') \<Longrightarrow> settings st' = settings st"
  by (auto simp: tie_break_def drop_pending_def Let_def split: option.splits if_splits)

lemma refresh_frame [frame]: "refresh_precomp_eph E st w = (st', w') \<Longrightarrow> settings st' = settings st"
  by (auto simp: refresh_precomp_eph_def settings_def split: prod.splits option.splits)

lemma inbound_frame [frame]:
  assumes "handle_inbound E my_key my_pub psk now wire src st w = (st', w')"
  shows "settings st' = settings st"
  using assms
  by (auto simp: handle_inbound_def Let_def split: prod.splits option.splits if_splits
        dest!: session_init_frame alloc_frame refresh_frame tie_break_frame)

lemma deliver_frame [frame]: "deliver_payload E i payload st w = (st', w') \<Longrightarrow> settings st' = settings st"
  by (auto simp: deliver_payload_def Let_def split: if_splits option.splits dest: forward_frame)

lemma data_frame [frame]:
  assumes "handle_data E now wire src st w = (st', w')"
  shows "settings st' = settings st"
  using assms by (rule handle_data_outcome) (auto dest: deliver_frame)

lemma udp_frame [frame]:
  assumes "handle_udp E my_key my_pub psk dgram src st w = (st', w')"
  shows "settings st' = settings st"
  using assms
  by (auto simp: handle_udp_def Let_def split: prod.splits option.splits if_splits
        dest: response_frame inbound_frame data_frame)

lemma events_frame [frame]:
  "handle_events E my_key my_pub psk evs st w = (fin, st', w') \<Longrightarrow> settings st' = settings st"
proof (induction evs arbitrary: st w)
  case (Cons ev evs)
  from Cons.prems show ?case
    by (auto simp: Let_def handle_tun_def split: fd_event.splits option.splits prod.splits if_splits
          dest!: Cons.IH dest: forward_frame udp_frame)
qed simp

section \<open>Properties\<close>

text \<open>C6. The tables stay consistent for ever: from any consistent state, whatever the environment
  answers and whatever packets, time-outs and signals arrive, in any order and for any number of
  iterations, the arrays keep their size, no two active sessions share a public key, every active
  session belongs to a configured peer, every pending handshake names a configured peer and holds its
  key, and a session marked as rekeying has such a handshake under way.\<close>

theorem event_loop_invariant:
  assumes "peer_inv st"
  shows "peer_inv (peer (event_loop E epoll_ok my_key my_pub psk ki inputs st w))"
  using loop.run_inv [of "\<lparr>last_rekey_check = 0, finished = False, peer = st, wrld = _\<rparr>"] assms
  by (auto simp: event_loop_def sys_cipher_ctx_def Let_def)

theorem event_loop_invariant_witness:
  "peer_inv (peer (event_loop sample_env True 3 (be_bytes 32 3) None 25
     [([], Wait_Ready [Tun_In (Some sample_payload), Udp_In (Some ([1, 2, 3], addr_a))]), ([SIGTERM], Wait_Interrupted)]
     sample_state fresh_world))"
  by (rule event_loop_invariant) (rule sample_state_inv)

text \<open>C25. No peer is forgotten: after the periodic work no pending handshake is older than the
  time-out, every active session was heard from or set up within the expiry time, and a session
  marked as rekeying has a pending handshake with its peer that is younger than the time-out; so a
  lost handshake blocks the next attempt for no longer than the time-out and one period.\<close>

theorem periodic_bounds_waiting:
  assumes "peer_inv st" "periodic E my_pub psk ki now st w = (st', w')"
  shows "(\<forall>j < MAX_PEERS. p_active (pending_hs st' ! j) \<longrightarrow> now - sent_at (pending_hs st' ! j) < cfg_handshake_timeout st) \<and>
    (\<forall>i < MAX_PEERS. active (sessions st' ! i) \<longrightarrow>
       now - (if last_seen (sessions st' ! i) > 0 then last_seen (sessions st' ! i) else last_handshake (sessions st' ! i))
         \<le> cfg_session_expiry st \<and>
       (rekeying (sessions st' ! i) \<longrightarrow>
          (\<exists>j < MAX_PEERS. p_active (pending_hs st' ! j) \<and> now - sent_at (pending_hs st' ! j) < cfg_handshake_timeout st \<and>
             pc_pub (peer_configs st' ! cfg_idx (pending_hs st' ! j)) = static_pub (sessions st' ! i))))"
proof -
  have c: "cfg_handshake_timeout st' = cfg_handshake_timeout st" "cfg_session_expiry st' = cfg_session_expiry st"
    using periodic_frame [OF assms(2)] by (simp_all add: settings_def)
  note p = periodic_clean [OF assms]
  have y: "now - sent_at (pending_hs st' ! j) < cfg_handshake_timeout st"
    if "j < MAX_PEERS" "p_active (pending_hs st' ! j)" for j
    using p(1) [OF that(1)] that(2) by (simp add: young_def c)
  have "now - (if last_seen (sessions st' ! i) > 0 then last_seen (sessions st' ! i) else last_handshake (sessions st' ! i))
       \<le> cfg_session_expiry st" if "i < MAX_PEERS" "active (sessions st' ! i)" for i
    using p(2) [OF that(1)] that(2) by (simp add: stale_def c)
  moreover have "rekey_ok st'" using periodic_inv [OF assms] by (rule peer_invD(4))
  ultimately show ?thesis using y unfolding rekey_ok_def by blast
qed

theorem periodic_bounds_waiting_witness:
  "\<exists>st' w'. periodic sample_env (be_bytes 32 3) None 25 1100 sample_state fresh_world = (st', w') \<and>
     (\<forall>j < MAX_PEERS. p_active (pending_hs st' ! j) \<longrightarrow> 1100 - sent_at (pending_hs st' ! j) < 5)"
proof -
  obtain st' w' where p: "periodic sample_env (be_bytes 32 3) None 25 1100 sample_state fresh_world = (st', w')"
    by (metis surj_pair)
  have "cfg_handshake_timeout sample_state = 5" by (simp add: sample_state_def init_state_def const_defs)
  with periodic_bounds_waiting [OF sample_state_inv p] p show ?thesis by auto
qed

text \<open>C30. The tie-break for simultaneous handshakes never takes effect: when it runs, no pending handshake
  matches the sender, because a packet of handshake shape from an address with a pending handshake has
  already been consumed as its response. So when both sides initiate at once, each treats the other's
  initiation as a response, gives up its own handshake and answers nothing, whoever has the higher key.\<close>

theorem tie_break_unreachable:
  assumes "peer_inv st" "hs_shaped psk (take (BUFFER_SIZE + WIRE_OVERHEAD) dgram)"
    and "handle_udp E my_key my_pub psk dgram src st w = (st', w')"
  shows "case match_pending st src of
      None \<Rightarrow> tie_break my_pub src st = (False, st)
    | Some j \<Rightarrow> \<not> p_active (pending_hs st' ! j) \<and> trace w' = trace w"
proof (cases "match_pending st src")
  case None
  then show ?thesis by (simp add: tie_break_def)
next
  case (Some j)
  then have r: "handle_response E my_key my_pub psk (take (BUFFER_SIZE + WIRE_OVERHEAD) dgram) src j st
      (w\<lparr>calls := Suc (calls w)\<rparr>) = (st', w')"
    using assms(2,3) by (simp add: handle_udp_def sys_time_def)
  have j: "j < length (pending_hs st)"
    using match_pending_SomeD(1) [OF Some] tables_okD(3) [OF peer_invD(1) [OF assms(1)]] by simp
  have al: "pending_hs st2 = pending_hs st1" if "alloc_session st1 pub a = (x, st2)" for x st1 st2 and pub a
    using that by (auto simp: alloc_session_eq split: option.splits if_splits)
  have "\<not> p_active (pending_hs st' ! j)"
    using r j by (auto simp: handle_response_def session_init_def Let_def al upd_pending_nth
        split: prod.splits option.splits dest!: al)
  with Some handle_response_trace [OF r] show ?thesis by simp
qed

theorem tie_break_unreachable_witness:
  "hs_shaped None (pkt_header @ replicate 80 0) \<and> tie_break (be_bytes 32 3) addr_a sample_state = (False, sample_state)"
proof -
  have h: "hs_shaped None (pkt_header @ replicate 80 0)" by (simp add: hs_shaped_def hs_size_def const_defs)
  moreover have "take (BUFFER_SIZE + WIRE_OVERHEAD) (pkt_header @ replicate 80 0) = pkt_header @ replicate 80 0"
    by (simp add: const_defs)
  ultimately have h': "hs_shaped None (take (BUFFER_SIZE + WIRE_OVERHEAD) (pkt_header @ replicate 80 0))" by simp
  obtain st' w' where u: "handle_udp sample_env 3 (be_bytes 32 3) None (pkt_header @ replicate 80 0) addr_a sample_state
      fresh_world = (st', w')" by (metis surj_pair)
  have "match_pending sample_state addr_a = None"
    by (simp add: match_pending_def sample_state_def init_state_def zero_pending_def)
  with tie_break_unreachable [OF sample_state_inv h' u] h show ?thesis by simp
qed

text \<open>Handshakes are rate limited: a packet of handshake shape from the address of a session that
  shook hands less than the cool-down ago, with no handshake of ours pending there, changes nothing,
  costs no key operation and gets no answer.\<close>

theorem cooldown_ignores_handshake:
  assumes "hs_shaped psk (take (BUFFER_SIZE + WIRE_OVERHEAD) dgram)" "match_pending st src = None"
    and "find_session_by_addr st src = Some i"
    and "os_time E (calls w) - last_handshake (sessions st ! i) < cfg_handshake_cooldown st"
  shows "handle_udp E my_key my_pub psk dgram src st w = (st, w\<lparr>calls := Suc (calls w)\<rparr>)"
  using assms by (simp add: handle_udp_def handle_inbound_def tie_break_def in_cooldown_def sys_time_def)

theorem cooldown_ignores_handshake_witness:
  "handle_udp sample_env 3 (be_bytes 32 3) None (pkt_header @ replicate 80 0) addr_a sample_state fresh_world
     = (sample_state, fresh_world\<lparr>calls := 1\<rparr>)"
proof -
  have "hs_shaped None (take (BUFFER_SIZE + WIRE_OVERHEAD) (pkt_header @ replicate 80 0))"
    by (simp add: hs_shaped_def hs_size_def const_defs)
  moreover have "match_pending sample_state addr_a = None"
    by (simp add: match_pending_def sample_state_def init_state_def zero_pending_def)
  moreover have "os_time sample_env (calls fresh_world) - last_handshake (sessions sample_state ! 0)
      < cfg_handshake_cooldown sample_state"
    by (simp add: sample_session0 fresh_world_def) (simp add: sample_session_def sample_state_def init_state_def const_defs)
  ultimately have "handle_udp sample_env 3 (be_bytes 32 3) None (pkt_header @ replicate 80 0) addr_a sample_state fresh_world
      = (sample_state, fresh_world\<lparr>calls := Suc (calls fresh_world)\<rparr>)"
    by (rule cooldown_ignores_handshake [OF _ _ sample_by_addr])
  then show ?thesis by (simp add: fresh_world_def)
qed

text \<open>C31. An unauthenticated packet keeps a session alive: any datagram from the session's address that
  is not of handshake shape, even one that no key opens, sets \<open>last_seen\<close> to the present.\<close>

theorem forged_packet_refreshes_session:
  assumes "peer_inv st" "\<not> hs_shaped psk dgram" "length dgram \<le> BUFFER_SIZE + WIRE_OVERHEAD"
    and "find_session_by_addr st src = Some i"
    and "decrypt_packet E (session_key (sessions st ! i)) dgram = None"
    and "prev_key_active (sessions st ! i) \<Longrightarrow> decrypt_packet E (prev_session_key (sessions st ! i)) dgram = None"
  shows "let (st', w') = handle_udp E my_key my_pub psk dgram src st w
         in sessions st' ! i = (sessions st ! i)\<lparr>last_seen := os_time E (calls w)\<rparr> \<and> trace w' = trace w"
proof -
  have i: "i < length (sessions st)"
    using find_session_by_addr_SomeD(1) [OF assms(4)] tables_okD(1,2) [OF peer_invD(1) [OF assms(1)]] by simp
  have "decrypt_data E (os_time E (calls w)) ((sessions st ! i)\<lparr>last_seen := os_time E (calls w)\<rparr>) dgram
      = (None, (sessions st ! i)\<lparr>last_seen := os_time E (calls w)\<rparr>)"
    using assms(5,6) by (simp add: decrypt_data_def)
  then show ?thesis
    by (simp add: handle_udp_data [OF assms(2,3)] handle_data_def assms(4) upd_session_nth i)
qed

theorem forged_packet_refreshes_session_witness:
  "sessions (fst (handle_udp sample_env 3 (be_bytes 32 3) None [1, 2, 3] addr_a sample_state fresh_world)) ! 0
     = (sessions sample_state ! 0)\<lparr>last_seen := 1000\<rparr>"
proof -
  have "decrypt_packet sample_env key [1, 2, 3] = None" for key by (simp add: decrypt_packet_def const_defs)
  moreover have "\<not> hs_shaped None [1, 2, 3]" "length [1 :: byte, 2, 3] \<le> BUFFER_SIZE + WIRE_OVERHEAD"
    by (simp_all add: hs_shaped_def hs_size_def const_defs)
  ultimately show ?thesis
    using forged_packet_refreshes_session [OF sample_state_inv _ _ sample_by_addr, of None "[1, 2, 3]" sample_env
        3 "be_bytes 32 3" fresh_world]
    by (simp add: fresh_world_def case_prod_beta Let_def)
qed

text \<open>A datagram that only the previous key opens, with a payload that is not dropped and not relayed.\<close>

definition old_key_packet :: "('k, 'c, 'p) env \<Rightarrow> 'k peer_state \<Rightarrow> sockaddr_in \<Rightarrow> nat \<Rightarrow> bytes \<Rightarrow> bytes \<Rightarrow> bool" where
  "old_key_packet E st src i wire payload \<longleftrightarrow> find_session_by_addr st src = Some i \<and>
     decrypt_packet E (session_key (sessions st ! i)) wire = None \<and> prev_key_active (sessions st ! i) \<and>
     (\<exists>seq. decrypt_packet E (prev_session_key (sessions st ! i)) wire = Some (pkt_header @ htobe64 seq @ payload)) \<and>
     payload \<noteq> [] \<and> (is_ipv4 payload \<longrightarrow> check_allowed_src (sessions st ! i) (ip_src payload) \<and>
       route_lookup st (ip_dst payload) \<in> {None, Some i})"

lemma old_key_accept:
  assumes "tables_ok st" "old_key_packet E st src i wire payload" "now \<le> prev_key_expires (sessions st ! i)"
  shows "handle_data E now wire src st w = (upd_session i (\<lambda>s. s\<lparr>last_seen := now\<rparr>) st, snd (sys_write E payload w))"
proof -
  let ?s = "(sessions st ! i)\<lparr>last_seen := now\<rparr>" let ?st = "upd_session i (\<lambda>_. ?s) st"
  obtain seq where d: "find_session_by_addr st src = Some i" "decrypt_packet E (session_key (sessions st ! i)) wire = None"
      "prev_key_active (sessions st ! i)" "decrypt_packet E (prev_session_key (sessions st ! i)) wire = Some (pkt_header @ htobe64 seq @ payload)"
      "payload \<noteq> []" "is_ipv4 payload \<Longrightarrow> check_allowed_src (sessions st ! i) (ip_src payload) \<and> route_lookup st (ip_dst payload) \<in> {None, Some i}"
    using assms(2) by (auto simp: old_key_packet_def)
  have i: "sessions ?st ! i = ?s"
    using find_session_by_addr_SomeD(1) [OF d(1)] tables_okD(1,2) [OF assms(1)] by (simp add: upd_session_nth)
  have "same_place (sessions st ! i) ?s" by (simp add: same_place_def)
  note lk = same_place_lookups(2) [OF this assms(1)]
  have "handle_data E now wire src st w = deliver_payload E i payload ?st w"
    using d(1-4) assms(3) plain_fields [of seq payload] by (simp add: handle_data_def decrypt_data_def check_seq_def Let_def)
  also have "\<dots> = (?st, snd (sys_write E payload w))"
    using d(5,6) by (cases "is_ipv4 payload") (auto simp: deliver_payload_def i lk check_allowed_src_def Let_def)
  also have "?st = upd_session i (\<lambda>s. s\<lparr>last_seen := now\<rparr>) st" by (simp add: upd_session_def)
  finally show ?thesis .
qed

lemma old_key_stays:
  fixes now
  assumes "tables_ok st" "old_key_packet E st src i wire payload"
  defines "st1 \<equiv> upd_session i (\<lambda>s. s\<lparr>last_seen := now\<rparr>) st"
  shows "old_key_packet E st1 src i wire payload" "sessions st1 ! i = (sessions st ! i)\<lparr>last_seen := now\<rparr>"
proof -
  let ?s = "(sessions st ! i)\<lparr>last_seen := now\<rparr>"
  have st1: "st1 = upd_session i (\<lambda>_. ?s) st" by (simp add: st1_def upd_session_def)
  have f: "find_session_by_addr st src = Some i" using assms(2) by (simp add: old_key_packet_def)
  show i: "sessions st1 ! i = ?s"
    using find_session_by_addr_SomeD(1) [OF f] tables_okD(1,2) [OF assms(1)] by (simp add: st1 upd_session_nth)
  have "same_place (sessions st ! i) ?s" by (simp add: same_place_def)
  from same_place_lookups [OF this assms(1)] have "find_session_by_addr st1 = find_session_by_addr st" "route_lookup st1 = route_lookup st"
    by (simp_all only: st1)
  then show "old_key_packet E st1 src i wire payload"
    using assms(2) by (simp add: old_key_packet_def i check_allowed_src_def)
qed

text \<open>C32. Packets under the previous key can be replayed: a datagram that opens only under the previous key is
  written to the tunnel every time it is received, at any times within the grace period and any number of times,
  and the replay window of the session does not change. This is so for every payload that is delivered at all:
  one that is not empty and, when it is an IPv4 packet, has an allowed source and is not routed to another
  session.\<close>

theorem previous_key_replay:
  assumes "peer_inv st" "old_key_packet E st src i wire payload" "\<And>n. os_write E n"
    and "list_all (\<lambda>now. now \<le> prev_key_expires (sessions st ! i)) nows"
    and "fold (\<lambda>now (st, w). handle_data E now wire src st w) nows (st, w) = (st', w')"
  shows "trace w' = trace w @ replicate (length nows) (Tun_Out payload) \<and>
    recv_seq_highest (sessions st' ! i) = recv_seq_highest (sessions st ! i) \<and>
    recv_seq_window (sessions st' ! i) = recv_seq_window (sessions st ! i)"
  using assms(1,2,4,5)
proof (induction nows arbitrary: st w)
  case (Cons now nows)
  note t = peer_invD(1) [OF Cons.prems(1)]
  let ?st = "upd_session i (\<lambda>s. s\<lparr>last_seen := now\<rparr>) st" and ?w = "snd (sys_write E payload w)"
  have now: "now \<le> prev_key_expires (sessions st ! i)" using Cons.prems(3) by simp
  note h = old_key_accept [OF t Cons.prems(2) now, of w] and k = old_key_stays [OF t Cons.prems(2), where now = now]
  have inv: "peer_inv ?st" by (rule handle_data_inv [OF Cons.prems(1) h])
  from Cons.IH [OF inv k(1), of ?w] have "trace w' = trace ?w @ replicate (length nows) (Tun_Out payload) \<and>
      recv_seq_highest (sessions st' ! i) = recv_seq_highest (sessions ?st ! i) \<and>
      recv_seq_window (sessions st' ! i) = recv_seq_window (sessions ?st ! i)"
    using Cons.prems(3,4) h k(2) by simp
  then show ?case using assms(3) k(2) by (simp add: sys_write_def)
qed simp

definition grace_state :: "nat peer_state" where
  "grace_state = upd_session 0 (\<lambda>s. s\<lparr>prev_session_key := be_bytes 32 55, prev_key_active := True, prev_key_expires := 2000\<rparr>) sample_state"

lemma grace_inv: "peer_inv grace_state"
  unfolding grace_state_def by (rule upd_session_inv [OF sample_state_inv]) (simp add: tame_def session_wf_def)

definition old_packet :: bytes where
  "old_packet = replicate 12 0 @ (pkt_header @ htobe64 9 @ sample_payload) @
     sample_tag (be_bytes 32 55) (replicate 12 0) (pkt_header @ htobe64 9 @ sample_payload)"

lemma old_packet_opens:
  "decrypt_packet sample_env (be_bytes 32 55) old_packet = Some (pkt_header @ htobe64 9 @ sample_payload)"
  "decrypt_packet sample_env (be_bytes 32 102) old_packet = None"
proof -
  have s: "sum_list (be_bytes 32 55) = 55" "sum_list (be_bytes 32 102) = 102" by code_simp+
  have d: "decrypt_packet sample_env key old_packet =
      (if sample_tag (be_bytes 32 55) (replicate 12 0) (pkt_header @ htobe64 9 @ sample_payload)
          = sample_tag key (replicate 12 0) (pkt_header @ htobe64 9 @ sample_payload)
       then Some (pkt_header @ htobe64 9 @ sample_payload) else None)" for key
    unfolding old_packet_def by (subst decrypt_packet_frame) (simp_all add: const_defs)
  show "decrypt_packet sample_env (be_bytes 32 55) old_packet = Some (pkt_header @ htobe64 9 @ sample_payload)"
    by (simp add: d)
  show "decrypt_packet sample_env (be_bytes 32 102) old_packet = None"
    by (simp add: d sample_tag_def s)
qed

theorem previous_key_replay_witness:
  "\<exists>st' w'. fold (\<lambda>now (st, w). handle_data sample_env now old_packet addr_a st w) [1100, 1500, 2000] (grace_state, fresh_world) = (st', w') \<and>
     trace w' = [Tun_Out sample_payload, Tun_Out sample_payload, Tun_Out sample_payload]"
proof -
  obtain st' w' where h: "fold (\<lambda>now (st, w). handle_data sample_env now old_packet addr_a st w) [1100, 1500, 2000] (grace_state, fresh_world) = (st', w')"
    by (metis surj_pair)
  let ?s = "(sessions sample_state ! 0)\<lparr>prev_session_key := be_bytes 32 55, prev_key_active := True, prev_key_expires := 2000\<rparr>"
  have g: "grace_state = upd_session 0 (\<lambda>_. ?s) sample_state" by (simp add: grace_state_def upd_session_def)
  note t = peer_invD(1) [OF sample_state_inv]
  have s: "sessions grace_state ! 0 = ?s" using tables_okD(1) [OF t] by (simp add: g upd_session_nth MAX_PEERS_def)
  have "same_place (sessions sample_state ! 0) ?s" by (simp add: same_place_def)
  note lk = same_place_lookups [OF this t, folded g]
  have "sample_payload \<noteq> []" by (simp add: sample_payload_def)
  then have "old_key_packet sample_env grace_state addr_a 0 old_packet sample_payload"
    using sample_by_addr sample_allowed sample_no_route sample_payload_facts old_packet_opens
    by (auto simp: old_key_packet_def lk s check_allowed_src_def sample_session0)
  from previous_key_replay [OF grace_inv this _ _ h] h show ?thesis by (simp add: s fresh_world_def numeral_3_eq_3)
qed

text \<open>When a session is due for a rekey: for every interval up to 536870911 seconds the threshold
  is four fifths of it, rounded down, strictly positive from two seconds on and below the interval;
  beyond that the 32-bit product overflows, and for 536870912 seconds the threshold is negative, so
  that the session is always due.\<close>

theorem rekey_due_value:
  "(0 < n \<longrightarrow> n \<le> 536870911 \<longrightarrow> rekey_due n = n * 4 div 5 \<and> rekey_due n < n \<and> (1 < n \<longrightarrow> 0 < rekey_due n)) \<and>
   rekey_due 536870912 < 0"
proof (intro conjI impI)
  assume n: "0 < n" "n \<le> 536870911"
  have "sint (word_of_int (n * 4) :: 32 word) = n * 4"
    using n by (simp add: signed_of_int signed_take_bit_int_eq_self del: of_int_mult)
  then have e: "rekey_due n = n * 4 div 5" using n by (simp add: rekey_due_def signed_divide_int_def)
  then show "rekey_due n = n * 4 div 5" "rekey_due n < n" "1 < n \<Longrightarrow> 0 < rekey_due n" using n by simp_all
next
  show "rekey_due 536870912 < 0" by (simp add: rekey_due_def signed_divide_int_def)
qed

theorem rekey_due_value_witness: "rekey_due 180 = 144"
  using rekey_due_value [of 180] by simp

end
