(* ===== verification/Buffers.thy ===== *)
theory Buffers
  imports Loop_Props
begin

text \<open>
  Everything the event loop reads, builds and sends fits the buffers it declares: \<^verbatim>\<open>buffer[BUFFER_SIZE]\<close>,
  \<^verbatim>\<open>plain_buf[HEADER_SIZE + SEQ_SIZE + BUFFER_SIZE]\<close> and \<^verbatim>\<open>wire_buf[BUFFER_SIZE + WIRE_OVERHEAD]\<close>. The interface
  \<open>inv_machine\<close> is interpreted a second time on \<open>loop_step\<close>.
\<close>

section \<open>Bounded output\<close>

fun fits :: "out_event \<Rightarrow> bool" where
  "fits (Udp_Out a wire) \<longleftrightarrow> length wire \<le> BUFFER_SIZE + WIRE_OVERHEAD"
| "fits (Tun_Out payload) \<longleftrightarrow> payload \<noteq> [] \<and> length payload \<le> BUFFER_SIZE"

text \<open>The laws of OpenSSL the bound rests on: lengths, and that GCM opens only what it sealed.\<close>

definition size_laws :: "('k, 'c, 'p) env \<Rightarrow> bytes \<Rightarrow> bool" where
  "size_laws E my_pub \<longleftrightarrow> gcm_correct E \<and> gcm_authentic E \<and> rand_fills E \<and> hmac_length E \<and> pub_length E \<and>
     length my_pub = DH_PUBKEY_LEN"

lemma size_lawsD:
  assumes "size_laws E my_pub"
  shows "gcm_correct E" "gcm_authentic E" "rand_fills E" "hmac_length E" "pub_length E" "length my_pub = DH_PUBKEY_LEN"
  using assms by (auto simp: size_laws_def)

text \<open>\<open>io_ok\<close>: a step that keeps the length of the prepared public key and emits only what fits.\<close>

definition io_ok :: "'k peer_state \<times> world \<Rightarrow> 'k peer_state \<times> world \<Rightarrow> bool" where
  "io_ok b b' \<longleftrightarrow> (length (precomp_eph_pub (fst b)) = DH_PUBKEY_LEN \<longrightarrow>
     length (precomp_eph_pub (fst b')) = DH_PUBKEY_LEN \<and> emits fits (snd b) (snd b'))"

lemma io_ok_refl [simp]: "io_ok b b"
  by (simp add: io_ok_def)

lemma io_ok_trans [trans]: "io_ok b c \<Longrightarrow> io_ok c d \<Longrightarrow> io_ok b d"
  by (auto simp: io_ok_def intro: emits_trans)

lemma io_okI: "precomp_eph_pub st' = precomp_eph_pub st \<Longrightarrow> emits fits w w' \<Longrightarrow> io_ok (st, w) (st', w')"
  by (simp add: io_ok_def)

lemma io_ok_fold: "(\<And>x b. io_ok b (f x b)) \<Longrightarrow> io_ok b (fold f xs b)"
proof (induction xs arbitrary: b)
  case (Cons x xs)
  show ?case using io_ok_trans [OF Cons.prems [of b x] Cons.IH [OF Cons.prems]] by simp
qed simp

lemma hs_size_fits: "hs_size psk \<le> BUFFER_SIZE + WIRE_OVERHEAD"
  by (simp add: hs_size_def const_defs)

lemma forward_io:
  assumes "size_laws E my_pub" "length payload \<le> BUFFER_SIZE" "forward_to_peer E i payload st w = (st', w')"
  shows "io_ok (st, w) (st', w')"
proof (rule io_okI)
  show "precomp_eph_pub st' = precomp_eph_pub st" using forward_to_peer_shape [OF assms(3)] by auto
  show "emits fits w w'"
    using assms(2,3) by (elim forward_emission [OF size_lawsD(1,3) [OF assms(1)]])
      (auto intro: emits_same emits_one)
qed

lemma initiate_io:
  assumes "size_laws E my_pub" "initiate_outbound_handshake E ci my_pub psk st w = ((ok, st'), w')"
  shows "io_ok (st, w) (st', w')"
proof -
  obtain t w1 where t: "sys_time E w = (t, w1)" by (cases "sys_time E w")
  have w1: "trace w1 = trace w" using t by (auto simp: sys_time_def)
  let ?st = "upd_config ci (\<lambda>c. c\<lparr>last_attempt := t\<rparr>) st"
  let ?c = "peer_configs ?st ! ci"
  obtain r w2 where h: "handshake_client_send E (endpoint ?c) psk my_pub (Some (pc_pub ?c)) w1 = (r, w2)"
    by (metis surj_pair)
  have "emits fits w w2"
  proof (cases r)
    case None
    then show ?thesis using client_send_None [OF h [unfolded None]] w1 by (simp add: emits_same)
  next
    case (Some hs)
    obtain pkt where p: "trace w2 = trace w1 @ [Udp_Out (endpoint ?c) pkt]"
      using h [unfolded Some] by (rule client_send_SomeD)
    have "length pkt = hs_size psk"
      by (rule client_frame [OF size_lawsD(1,4,5,6) [OF assms(1)] h [unfolded Some] p])
    then show ?thesis using p w1 hs_size_fits [of psk] by (auto intro: emits_one)
  qed
  moreover have "precomp_eph_pub st' = precomp_eph_pub st" "w' = w1 \<or> trace w' = trace w2"
    using assms(2) t h
    by (auto simp: initiate_outbound_handshake_def sys_time_def Let_def split: option.splits)
  ultimately show ?thesis using w1 by (auto intro!: io_okI simp: emits_def)
qed

lemma check_peer_io:
  assumes "size_laws E my_pub"
  shows "io_ok b (check_peer E my_pub psk now i b)"
proof -
  obtain st w where b: "b = (st, w)" by (cases b)
  let ?cfg = "peer_configs st ! i" and ?s = "find_session_by_pub st (pc_pub (peer_configs st ! i))"
  obtain ok1 cfg1 w1 where r: "resolve_endpoint E ?cfg w = ((ok1, cfg1), w1)" by (metis surj_pair)
  have w1: "trace w1 = trace w"
    using r by (auto simp: resolve_endpoint_def sys_getaddrinfo_def split: option.splits)
  let ?st2 = "set_rekeying True ?s (upd_config i (\<lambda>_. cfg1) st)"
  obtain ok st3 w3 where h: "initiate_outbound_handshake E i my_pub psk ?st2 w1 = ((ok, st3), w3)"
    by (metis surj_pair)
  have "io_ok (st, w) (?st2, w1)" using w1 by (auto intro!: io_okI emits_same)
  also have "io_ok (?st2, w1) (st3, w3)" using initiate_io [OF assms h] .
  also have "io_ok (st3, w3) (if \<not> ok then set_rekeying False ?s st3 else st3, w3)" by (auto intro!: io_okI)
  finally show ?thesis using r h by (simp add: b check_peer_def Let_def)
qed

lemma periodic_io:
  assumes "size_laws E my_pub" "periodic E my_pub psk ki now st w = (st', w')"
  shows "io_ok (st, w) (st', w')"
proof -
  have k: "io_ok b (keepalive E ki now j b)" for j b
    using forward_io [OF assms(1), of "[]" j "fst b" "snd b"]
    by (cases b; cases "forward_to_peer E j [] (fst b) (snd b)") (simp add: keepalive_def Let_def)
  obtain st1 w1 where f: "fold (check_peer E my_pub psk now) [0..<length (peer_configs st)] (st, w) = (st1, w1)"
    by fastforce
  have "io_ok (st, w) (st1, w1)"
    unfolding f [symmetric] by (rule io_ok_fold) (rule check_peer_io [OF assms(1)])
  also have "precomp_eph_pub (fold (expire_pending now) xs st0) = precomp_eph_pub st0"
      "precomp_eph_pub (fold (expire_session now) xs st0) = precomp_eph_pub st0" for xs and st0 :: "'a peer_state"
    by (induction xs arbitrary: st0)
       (simp_all add: expire_pending_def expire_session_def drop_pending_def Let_def)
  then have "io_ok (st1, w1) (fold (expire_session now) ys (fold (expire_pending now) xs st1), w1)" for xs ys
    by (intro io_okI) simp_all
  also have "io_ok (st3, w1) (fold (keepalive E ki now) xs (st3, w1))" for st3 xs by (rule io_ok_fold) (rule k)
  finally have io: "io_ok (st, w) (fold (keepalive E ki now) zs
      (fold (expire_session now) ys (fold (expire_pending now) xs st1), w1))" for xs ys zs .
  show ?thesis
    using assms(2) io unfolding periodic_def f Let_def prod.case by metis
qed

lemma handle_tun_io:
  assumes "size_laws E my_pub" "length buffer \<le> BUFFER_SIZE" "handle_tun E buffer st w = (st', w')"
  shows "io_ok (st, w) (st', w')"
  using assms by (auto simp: handle_tun_def split: if_splits option.splits intro: forward_io)

lemma deliver_io:
  assumes "size_laws E my_pub" "length payload \<le> BUFFER_SIZE" "deliver_payload E i payload st w = (st', w')"
  shows "io_ok (st, w) (st', w')"
proof -
  have p: "precomp_eph_pub st' = precomp_eph_pub st"
    using assms(3) forward_to_peer_shape
    by (fastforce simp: deliver_payload_def Let_def split: if_splits option.splits)
  show ?thesis
    using assms(3)
  proof (rule deliver_payload_trace)
    assume "trace w' = trace w"
    with p show ?thesis by (intro io_okI emits_same)
  next
    fix fwd assume "forward_to_peer E fwd payload st w = (st', w')"
    with assms(1,2) show ?thesis by (rule forward_io)
  next
    assume "payload \<noteq> []" "trace w' = trace w @ [Tun_Out payload]"
    with assms(2) have "emits fits w w'" by (auto intro: emits_one)
    with p show ?thesis by (rule io_okI)
  qed
qed

lemma handle_data_io:
  assumes "size_laws E my_pub" "length wire \<le> BUFFER_SIZE + WIRE_OVERHEAD" "handle_data E now wire src st w = (st', w')"
  shows "io_ok (st, w) (st', w')"
  using assms(3)
proof (rule handle_data_outcome)
  fix i s payload
  assume acc: "data_accepted E now wire (sessions st ! i) s payload"
    and d: "deliver_payload E i payload (upd_session i (\<lambda>_. s) st) w = (st', w')"
  obtain key plain where "decrypt_packet E key wire = Some plain" "payload = drop (HEADER_SIZE + SEQ_SIZE) plain"
    using acc by (auto simp: data_accepted_def elim!: decrypt_data_SomeD)
  moreover have "length wire = length plain + CRYPTO_OVERHEAD"
    using decrypt_packet_length [OF size_lawsD(1,2) [OF assms(1)] calculation(1)] .
  ultimately have "length payload \<le> BUFFER_SIZE" using assms(2) by (simp add: WIRE_OVERHEAD_def)
  from deliver_io [OF assms(1) this d] show ?thesis by (simp add: io_ok_def)
qed (auto intro: io_okI)

lemma alloc_init_pub:
  "alloc_session st pub a = (r, st') \<Longrightarrow> precomp_eph_pub st' = precomp_eph_pub st"
  "session_init E i a pub key cfg ob st w = (st', w') \<Longrightarrow> precomp_eph_pub st' = precomp_eph_pub st"
  by (auto simp: alloc_session_eq session_init_def split: option.splits if_splits prod.splits)

lemma handle_response_io:
  assumes "handle_response E my_key my_pub psk wire src j st w = (st', w')"
  shows "io_ok (st, w) (st', w')"
proof (rule io_okI)
  show "precomp_eph_pub st' = precomp_eph_pub st"
    using assms by (auto simp: handle_response_def Let_def split: prod.splits option.splits dest!: alloc_init_pub)
  show "emits fits w w'" using handle_response_trace [OF assms] by (rule emits_same)
qed

lemma tie_break_pub: "precomp_eph_pub (snd (tie_break my_pub src st)) = precomp_eph_pub st"
  by (auto simp: tie_break_def drop_pending_def Let_def split: option.splits)

lemma handle_inbound_pub:
  assumes "pub_length E" "handle_inbound E my_key my_pub psk now wire src st w = (st', w')"
    and "length (precomp_eph_pub st) = DH_PUBKEY_LEN"
  shows "length (precomp_eph_pub st') = DH_PUBKEY_LEN"
proof -
  have r: "length (precomp_eph_pub st2) = DH_PUBKEY_LEN"
    if "refresh_precomp_eph E st1 w1 = (st2, w2)" "length (precomp_eph_pub st1) = DH_PUBKEY_LEN" for st1 w1 st2 w2
    using that assms(1)
    by (auto simp: refresh_precomp_eph_def pub_length_def split: prod.splits option.splits dest: generate_eph_keypair_SomeD(1))
  obtain skip st1 where t: "tie_break my_pub src st = (skip, st1)" by (metis surj_pair)
  have "length (precomp_eph_pub st1) = DH_PUBKEY_LEN" using tie_break_pub [of my_pub src st] t assms(3) by simp
  with assms(2) t show ?thesis
    by (auto simp: handle_inbound_def Let_def split: prod.splits option.splits if_splits
          dest!: alloc_init_pub dest: r)
qed

lemma handle_inbound_io:
  assumes "size_laws E my_pub" "handle_inbound E my_key my_pub psk now wire src st w = (st', w')"
  shows "io_ok (st, w) (st', w')"
proof -
  note L = size_lawsD [OF assms(1)]
  have "emits fits w w'" if p: "length (precomp_eph_pub st) = DH_PUBKEY_LEN"
    using assms(2)
  proof (rule handle_inbound_trace)
    assume "trace w' = trace w"
    then show ?thesis by (rule emits_same)
  next
    fix resp km enc pub v v'
    assume tr: "trace w' = trace w @ [Udp_Out src resp]" and f: "hs_frame E psk pub enc = Some resp"
      and e: "encrypt_identity E km my_pub (replicate HS_ENCRYPTED_PUB_LEN 0) v = (Some enc, v')"
      and pub: "pub = precomp_eph_pub (snd (tie_break my_pub src st))"
    have "length enc = HS_ENCRYPTED_PUB_LEN"
      using L(1,6) _ e by (rule encrypt_identity_SomeD) (auto simp: HS_ENCRYPTED_PUB_LEN_def)
    then have "length resp = hs_size psk"
      using hs_frame_parts(1) [OF L(4) f] p pub by (simp add: tie_break_pub)
    then show ?thesis using tr hs_size_fits [of psk] by (auto intro: emits_one)
  qed
  then show ?thesis using handle_inbound_pub [OF L(5) assms(2)] by (simp add: io_ok_def)
qed

lemma handle_udp_io:
  assumes "size_laws E my_pub" "handle_udp E my_key my_pub psk dgram src st w = (st', w')"
  shows "io_ok (st, w) (st', w')"
proof -
  have "io_ok (st, w\<lparr>calls := Suc (calls w)\<rparr>) (st', w')"
    using assms(2) unfolding handle_udp_def sys_time_def prod.case Let_def
    by (auto split: option.splits if_splits
          intro: handle_response_io handle_inbound_io [OF assms(1)] handle_data_io [OF assms(1), rotated])
  then show ?thesis by (simp add: io_ok_def emits_calls)
qed

lemma handle_events_io:
  assumes "size_laws E my_pub"
  shows "handle_events E my_key my_pub psk evs st w = (fin, st', w') \<Longrightarrow> io_ok (st, w) (st', w')"
proof (induction evs arbitrary: st w)
  case (Cons ev evs)
  have t: "io_ok (st, w) (st1, w1)" if "handle_tun E (take BUFFER_SIZE p) st w = (st1, w1)" for p st1 w1
    by (rule handle_tun_io [OF assms _ that]) simp
  from Cons.prems show ?case
    by (auto simp: Let_def split: fd_event.splits option.splits prod.splits if_splits
          dest!: Cons.IH intro: io_ok_trans [OF t] io_ok_trans [OF handle_udp_io [OF assms]])
qed simp

section \<open>The loop\<close>

definition io_inv :: "('k, 'c, 'p) env \<Rightarrow> bytes \<Rightarrow> 'k loop_state \<Rightarrow> bool" where
  "io_inv E my_pub l \<longleftrightarrow> (size_laws E my_pub \<longrightarrow>
     length (precomp_eph_pub (peer l)) = DH_PUBKEY_LEN \<and> (\<forall>e \<in> set (trace (wrld l)). fits e))"

lemma io_ok_inv:
  assumes "io_ok (peer l, wrld l) (st', w')" "io_inv E my_pub l" "size_laws E my_pub"
  shows "length (precomp_eph_pub st') = DH_PUBKEY_LEN \<and> (\<forall>e \<in> set (trace w'). fits e)"
  using assms by (auto simp: io_ok_def io_inv_def emits_def)

lemma loop_step_io: "io_inv E my_pub l \<Longrightarrow> io_inv E my_pub (loop_step E my_key my_pub psk ki l inp)"
proof (cases "size_laws E my_pub \<and> \<not> (finished l \<or> stop_flag (peer l))")
  case False
  then show "io_inv E my_pub l \<Longrightarrow> ?thesis" by (auto simp: io_inv_def loop_step_def)
next
  case True
  assume inv: "io_inv E my_pub l"
  note L = True [THEN conjunct1]
  obtain now w1 where t: "sys_time E (wrld l) = (now, w1)" by (metis surj_pair)
  have w1: "io_ok (peer l, wrld l) (peer l, w1)" using t by (auto simp: sys_time_def io_ok_def emits_calls)
  obtain st2 w2 where p: "(if now - last_rekey_check l \<ge> 10 then periodic E my_pub psk ki now (peer l) w1
      else (peer l, w1)) = (st2, w2)" by (metis surj_pair)
  have "io_ok (peer l, w1) (st2, w2)" using p periodic_io [OF L] by (auto split: if_splits)
  then have 2: "io_ok (peer l, wrld l) (st2, w2)" by (rule io_ok_trans [OF w1])
  have s: "precomp_eph_pub (fold handle_signal sigs st2) = precomp_eph_pub st2" for sigs
    by (induction sigs arbitrary: st2) (simp_all add: handle_signal_def)
  let ?st3 = "fold handle_signal (fst inp) st2"
  have 3: "io_ok (peer l, wrld l) (?st3, w2)" using 2 s [of "fst inp"] by (simp add: io_ok_def)
  have 4: "io_ok (peer l, wrld l) (st4, w4)"
    if "handle_events E my_key my_pub psk evs (?st3\<lparr>print_sessions_flag := False\<rparr>) w2 = (fin, st4, w4)" for evs fin st4 w4
    using handle_events_io [OF L that] 3 by (auto simp: io_ok_def intro: emits_trans)
  show ?thesis
    using True io_ok_inv [OF 3 inv L] io_ok_inv [OF 4 inv L]
    by (auto simp: loop_step_def t p io_inv_def Let_def split: wait_result.splits prod.splits)
qed

interpretation loop_io: inv_machine "loop_step E my_key my_pub psk ki" "io_inv E my_pub"
  by unfold_locales (rule loop_step_io)

section \<open>Leaving the loop\<close>

lemma stop_flag_settings: "stop_flag st = fst (settings st)"
  by (simp add: settings_def)

lemma signals_stop: "stop_flag (fold handle_signal sigs st) \<longleftrightarrow> stop_flag st \<or> (\<exists>s \<in> set sigs. s \<noteq> SIGUSR1)"
  by (induction sigs arbitrary: st) (auto simp: handle_signal_def)

lemma loop_step_stopped:
  assumes "sig \<in> set sigs" "sig = SIGINT \<or> sig = SIGTERM"
  shows "finished (loop_step E my_key my_pub psk ki l (sigs, r))
    \<or> stop_flag (peer (loop_step E my_key my_pub psk ki l (sigs, r)))"
proof -
  have s: "stop_flag (fold handle_signal sigs st)" for st :: "'a peer_state"
    using assms(1,2) by (auto simp: signals_stop)
  have "stop_flag st'" if "handle_events E my_key my_pub psk evs (fold handle_signal sigs st\<lparr>print_sessions_flag := False\<rparr>) w
      = (fin, st', w')" for evs st w fin st' w'
    using events_frame [OF that] s [of st] by (simp add: stop_flag_settings)
  then show ?thesis
    by (auto simp: loop_step_def s Let_def split: wait_result.split prod.splits)
qed

lemma halted_run:
  "finished l \<or> stop_flag (peer l) \<Longrightarrow> run_steps (loop_step E my_key my_pub psk ki) l inputs = l"
  by (induction inputs) (auto simp: loop_step_def)

section \<open>Properties\<close>

text \<open>C11. No buffer is overrun and no oversized packet is emitted: as long as the program runs, every
  datagram it sends has at most \<^verbatim>\<open>sizeof(wire_buf)\<close> = 2092 bytes and every packet it writes to the tunnel
  has between 1 and \<^verbatim>\<open>BUFFER_SIZE\<close> = 2048 bytes, whatever it receives.\<close>

theorem output_fits_buffers:
  assumes "size_laws E my_pub" "length (precomp_eph_pub st) = DH_PUBKEY_LEN" "trace w = []"
    and "e \<in> set (trace (wrld (event_loop E epoll_ok my_key my_pub psk ki inputs st w)))"
  shows "case e of Udp_Out a wire \<Rightarrow> length wire \<le> 2092
    | Tun_Out payload \<Rightarrow> 1 \<le> length payload \<and> length payload \<le> 2048"
proof -
  have i: "io_inv E my_pub \<lparr>last_rekey_check = 0, finished = fin, peer = st, wrld = w\<lparr>calls := n\<rparr>\<rparr>" for fin n
    using assms(2,3) by (simp add: io_inv_def)
  have "io_inv E my_pub (event_loop E epoll_ok my_key my_pub psk ki inputs st w)"
    by (auto simp: event_loop_def sys_cipher_ctx_def Let_def intro: loop_io.run_inv i)
  with assms(1,4) have "fits e" by (simp add: io_inv_def)
  then show ?thesis by (cases e) (auto simp: const_defs Suc_le_eq)
qed

lemma sample_size_laws: "size_laws sample_env (be_bytes 32 3)"
  using sample_laws sample_gcm_correct sample_gcm_authentic sample_rand_fills
  by (simp add: size_laws_def DH_PUBKEY_LEN_def)

text \<open>With the concrete tables nothing is due at the start, and a packet for 10.1.2.3 is sent to session 1.\<close>

lemma fold_still: "(\<And>x. x \<in> set xs \<Longrightarrow> f x b = b) \<Longrightarrow> fold f xs b = b"
  by (induction xs) auto

lemma sample_check_peer:
  assumes "k < 2"
  shows "check_peer sample_env my_pub psk 1002 k (sample_state, w) = (sample_state, w)"
proof -
  have p: "find_session_by_pub sample_state (be_bytes 32 2) = Some 0" "find_session_by_pub sample_state (be_bytes 32 7) = Some 1"
    using find_session_by_pub_eq [of sample_state 0] find_session_by_pub_eq [of sample_state 1] sample_state_inv
    by (simp_all add: peer_inv_def sample_sessions_nth MAX_PEERS_def)
  have r: "rekey_due (cfg_rekey_after sample_state) = 144"
    by (simp add: sample_state_def init_state_def const_defs rekey_due_def signed_divide_int_def)
  have "peer_configs sample_state ! k = sample_config 2 net8 addr_a \<or> peer_configs sample_state ! k = sample_config 7 net16 addr_b"
    using assms by (auto simp: sample_state_def less_2_cases_iff)
  then obtain i where i: "find_session_by_pub sample_state (pc_pub (peer_configs sample_state ! k)) = Some i" "i < 2"
    using p by (auto simp: sample_config_def)
  have "last_handshake (sessions sample_state ! i) = 1000"
    using i(2) by (auto simp: sample_sessions_nth MAX_PEERS_def sample_session_def less_2_cases_iff)
  with i(1) r show ?thesis by (simp add: check_peer_def Let_def)
qed

lemma sample_periodic: "periodic sample_env my_pub psk 25 1002 sample_state w = (sample_state, w)"
proof -
  have n: "session_slots sample_state = 2" "length (peer_configs sample_state) = 2" by (simp_all add: sample_state_def)
  have t: "last_handshake (sessions sample_state ! k) = 1000" "last_sent (sessions sample_state ! k) = 1000"
      "last_seen (sessions sample_state ! k) = 0" if "k < 2" for k
    using that by (auto simp: sample_sessions_nth MAX_PEERS_def sample_session_def zero_session_def less_2_cases_iff)
  have c: "fold (check_peer sample_env my_pub psk 1002) [0..<2] (sample_state, w) = (sample_state, w)"
    by (rule fold_still) (simp add: sample_check_peer)
  have "expire_pending 1002 k sample_state = sample_state" if "k < MAX_PEERS" for k
    using that by (simp add: expire_pending_def sample_state_def init_state_def zero_pending_def)
  then have p: "fold (expire_pending 1002) [0..<MAX_PEERS] sample_state = sample_state" by (intro fold_still) simp
  have "cfg_session_expiry sample_state = 540" by (simp add: sample_state_def init_state_def const_defs)
  then have "expire_session 1002 k sample_state = sample_state" if "k < 2" for k
    using t [OF that] by (simp add: expire_session_def)
  then have s: "fold (expire_session 1002) [0..<2] sample_state = sample_state" by (intro fold_still) simp
  have "keepalive sample_env 25 1002 k (sample_state, w) = (sample_state, w)" if "k < 2" for k
    using t(2) [OF that] by (simp add: keepalive_def)
  then have "fold (keepalive sample_env 25 1002) [0..<2] (sample_state, w) = (sample_state, w)" by (intro fold_still) simp
  with c p s show ?thesis by (simp add: periodic_def n Let_def)
qed

lemma sample_loop_sends:
  "\<exists>wire. trace (wrld (event_loop sample_env True 3 (be_bytes 32 3) None 25 [([], Wait_Ready [Tun_In (Some relay_payload)])]
     sample_state fresh_world)) = [Udp_Out addr_b wire]"
proof -
  have a: "addr (sessions sample_state ! Suc 0) = addr_b" by (simp add: sample_sessions_nth MAX_PEERS_def)
  have b: "take BUFFER_SIZE relay_payload = relay_payload" "relay_payload \<noteq> []"
    using relay_payload_facts(4) by (auto simp: BUFFER_SIZE_def)
  have st: "sample_state\<lparr>print_sessions_flag := False\<rparr> = sample_state" "\<not> stop_flag sample_state"
    by (simp_all add: sample_state_def init_state_def)
  obtain st' w' wire where f: "forward_to_peer sample_env 1 relay_payload sample_state (fresh_world\<lparr>calls := Suc (Suc (Suc 0))\<rparr>) = (st', w')"
      "trace w' = trace fresh_world @ [Udp_Out addr_b wire]"
    using sample_forward [of 1 relay_payload sample_state "fresh_world\<lparr>calls := Suc (Suc (Suc 0))\<rparr>"] a by auto
  have "handle_tun sample_env relay_payload sample_state (fresh_world\<lparr>calls := Suc (Suc (Suc 0))\<rparr>) = (st', w')"
    using relay_payload_facts sample_route f(1) by (simp add: handle_tun_def)
  then show ?thesis using f(2) b sample_periodic [of "be_bytes 32 3" None]
    by (simp add: event_loop_def sys_cipher_ctx_def loop_step_def sys_time_def fresh_world_def st)
qed

theorem output_fits_buffers_witness:
  "\<exists>wire. trace (wrld (event_loop sample_env True 3 (be_bytes 32 3) None 25 [([], Wait_Ready [Tun_In (Some relay_payload)])]
     sample_state fresh_world)) = [Udp_Out addr_b wire] \<and> length wire \<le> 2092"
proof -
  obtain wire where t: "trace (wrld (event_loop sample_env True 3 (be_bytes 32 3) None 25
      [([], Wait_Ready [Tun_In (Some relay_payload)])] sample_state fresh_world)) = [Udp_Out addr_b wire]"
    using sample_loop_sends by blast
  have "length (precomp_eph_pub sample_state) = DH_PUBKEY_LEN" "trace fresh_world = []"
    by (simp_all add: sample_state_def init_state_def fresh_world_def)
  from output_fits_buffers [OF sample_size_laws this, of "Udp_Out addr_b wire" True 3 None 25 "[([], Wait_Ready [Tun_In (Some relay_payload)])]"]
  show ?thesis by (simp add: t)
qed

text \<open>C26. A stop signal ends the program: when \<^verbatim>\<open>SIGINT\<close> or \<^verbatim>\<open>SIGTERM\<close> arrives in some round, no later
  round runs, so nothing that comes after it is read, sent or changed.\<close>

theorem stop_signal_ends_loop:
  assumes "sig \<in> set sigs" "sig = SIGINT \<or> sig = SIGTERM"
  shows "event_loop E epoll_ok my_key my_pub psk ki (before @ (sigs, r) # after) st w
       = event_loop E epoll_ok my_key my_pub psk ki (before @ [(sigs, r)]) st w"
  by (simp add: halted_run [OF loop_step_stopped [OF assms]] event_loop_def Let_def split: prod.split)

theorem stop_signal_ends_loop_witness:
  "event_loop sample_env True 3 (be_bytes 32 3) None 25
     [([SIGUSR1, SIGTERM], Wait_Interrupted), ([], Wait_Ready [Tun_In (Some sample_payload)])] sample_state fresh_world
   = event_loop sample_env True 3 (be_bytes 32 3) None 25 [([SIGUSR1, SIGTERM], Wait_Interrupted)] sample_state fresh_world"
  using stop_signal_ends_loop [of SIGTERM "[SIGUSR1, SIGTERM]" sample_env True 3 "be_bytes 32 3" None 25 "[]"
      Wait_Interrupted "[([], Wait_Ready [Tun_In (Some sample_payload)])]"]
  by simp

end
