(* ===== verification/LibC.thy ===== *)
theory LibC
  imports Hex
begin

text \<open>
  The string functions of the C library the configuration code calls: \<open>strchr\<close>, \<open>strrchr\<close>, \<open>atoi\<close> and
  \<open>inet_pton\<close>. Strings are lists of characters without the terminating NUL. \<open>atoi\<close> is the conversion
  of \<open>strtol\<close> (a 64-bit \<open>long\<close> that saturates) to a 32-bit \<open>int\<close>, as on the Linux systems the program
  is built for; \<open>inet_pton\<close> is the scanner of the GNU library. Both read decimal numerals back.
\<close>

section \<open>Searching\<close>

definition strchr :: "string \<Rightarrow> char \<Rightarrow> nat option" where
  "strchr s c = first_idx (\<lambda>i. s ! i = c) (length s)"

definition strrchr :: "string \<Rightarrow> char \<Rightarrow> nat option" where
  "strrchr s c = map_option (\<lambda>i. length s - Suc i) (strchr (rev s) c)"

lemma strchr_split:
  assumes "c \<notin> set s"
  shows "strchr (s @ c # t) c = Some (length s)"
proof -
  have n: "(s @ c # t) ! i \<noteq> c" if "i < length s" for i
    using assms that by (auto simp: nth_append dest: nth_mem)
  obtain i where i: "strchr (s @ c # t) c = Some i"
    unfolding strchr_def using first_idx_exI [of "\<lambda>i. (s @ c # t) ! i = c" "length s"] by fastforce
  then have "(s @ c # t) ! i = c" "\<And>j. j < i \<Longrightarrow> (s @ c # t) ! j \<noteq> c"
    unfolding strchr_def by (blast dest: first_idx_SomeD)+
  then have "i = length s" using n by (metis linorder_neqE_nat nth_append_length)
  with i show ?thesis by simp
qed

lemma strchr_absent: "c \<notin> set s \<Longrightarrow> strchr s c = None"
  by (auto simp: strchr_def in_set_conv_nth)

lemma strchr_SomeD: "strchr s c = Some i \<Longrightarrow> i < length s \<and> s ! i = c"
  by (auto simp: strchr_def dest: first_idx_SomeD)

lemma strrchr_split:
  assumes "c \<notin> set t"
  shows "strrchr (s @ c # t) c = Some (length s)"
  using strchr_split [of c "rev t" "rev s"] assms by (simp add: strrchr_def)

section \<open>Numbers\<close>

definition c_isdigit :: "char \<Rightarrow> bool" where
  "c_isdigit c = (let n = of_char c :: nat in 48 \<le> n \<and> n \<le> 57)"

definition digit_val :: "char \<Rightarrow> nat" where
  "digit_val c = of_char c - 48"

fun strtol_digits :: "nat \<Rightarrow> string \<Rightarrow> nat" where
  "strtol_digits acc [] = acc"
| "strtol_digits acc (c # cs) = (if c_isdigit c then strtol_digits (10 * acc + digit_val c) cs else acc)"

definition strtol :: "string \<Rightarrow> int" where
  "strtol s =
     (let t = dropWhile c_isspace s
      in if t \<noteq> [] \<and> hd t = CHR ''-'' then max (- (2 ^ 63)) (- int (strtol_digits 0 (tl t)))
         else if t \<noteq> [] \<and> hd t = CHR ''+'' then min (2 ^ 63 - 1) (int (strtol_digits 0 (tl t)))
         else min (2 ^ 63 - 1) (int (strtol_digits 0 t)))"

definition atoi :: "string \<Rightarrow> int" where
  "atoi s = sint (word_of_int (strtol s) :: 32 word)"

text \<open>
  The scanner of \<^verbatim>\<open>inet_pton(AF_INET, ...)\<close>: whether the current octet has a digit, the number of octets
  begun, the finished octets and the current one.
\<close>

fun inet_pton4 :: "bool \<Rightarrow> nat \<Rightarrow> nat list \<Rightarrow> nat \<Rightarrow> string \<Rightarrow> nat list option" where
  "inet_pton4 saw_digit octets tmp tp [] = (if octets < 4 then None else Some (tmp @ [tp]))"
| "inet_pton4 saw_digit octets tmp tp (ch # src) =
     (if c_isdigit ch then
        (let newval = tp * 10 + digit_val ch
         in if saw_digit \<and> tp = 0 then None
            else if newval > 255 then None
            else if saw_digit then inet_pton4 True octets tmp newval src
            else if octets + 1 > 4 then None
            else inet_pton4 True (octets + 1) tmp newval src)
      else if ch = CHR ''.'' \<and> saw_digit then
        (if octets = 4 then None else inet_pton4 False octets (tmp @ [tp]) 0 src)
      else None)"

text \<open>The address as the number \<open>ntohl\<close> makes of it.\<close>

definition inet_pton :: "string \<Rightarrow> u32 option" where
  "inet_pton s = map_option (\<lambda>os. word_of_nat (foldl (\<lambda>a b. 256 * a + b) 0 os)) (inet_pton4 False 0 [] 0 s)"

section \<open>Decimal numerals are read back\<close>

definition digit :: "nat \<Rightarrow> char" where
  "digit n = ''0123456789'' ! n"

fun dec :: "nat \<Rightarrow> string" where
  "dec n = (if n < 10 then [digit n] else dec (n div 10) @ [digit (n mod 10)])"

declare dec.simps [simp del]

lemma digit_facts:
  assumes "n < 10"
  shows "c_isdigit (digit n)" "digit_val (digit n) = n" "\<not> c_isspace (digit n)"
    "digit n \<notin> {CHR ''-'', CHR ''+'', CHR ''.'', CHR ''/'', CHR '':''}"
proof -
  have "n \<in> set [0..<10]" using assms by simp
  moreover have "\<forall>k \<in> set [0..<10]. c_isdigit (digit k) \<and> digit_val (digit k) = k \<and> \<not> c_isspace (digit k) \<and>
      digit k \<notin> {CHR ''-'', CHR ''+'', CHR ''.'', CHR ''/'', CHR '':''}" by code_simp
  ultimately show "c_isdigit (digit n)" "digit_val (digit n) = n" "\<not> c_isspace (digit n)"
    "digit n \<notin> {CHR ''-'', CHR ''+'', CHR ''.'', CHR ''/'', CHR '':''}" by auto
qed

lemma dec_chars: "c \<in> set (dec n) \<Longrightarrow> \<exists>k < 10. c = digit k"
proof (induction n rule: dec.induct)
  case (1 n)
  have "digit (n mod 10) = digit (n mod 10) \<and> n mod 10 < 10" by simp
  with 1 show ?case by (auto simp: dec.simps [of n] split: if_splits) (metis mod_less_divisor zero_less_numeral)
qed

lemma dec_not_special:
  "CHR ''.'' \<notin> set (dec n)" "CHR ''/'' \<notin> set (dec n)" "CHR '':'' \<notin> set (dec n)"
  using dec_chars [of _ n] digit_facts(4) by fastforce+

lemma dec_nonempty [simp]: "dec n \<noteq> []"
  by (simp add: dec.simps [of n])

lemma strtol_digits_dec:
  "strtol_digits acc (dec n @ s) = strtol_digits (10 ^ length (dec n) * acc + n) s"
proof (induction n arbitrary: acc s rule: dec.induct)
  case (1 n)
  show ?case
  proof (cases "n < 10")
    case True
    then show ?thesis by (simp add: dec.simps [of n] digit_facts)
  next
    case False
    then have "strtol_digits acc (dec n @ s) =
        strtol_digits (10 ^ length (dec (n div 10)) * acc + n div 10) (digit (n mod 10) # s)"
      using 1 [OF False, of acc "digit (n mod 10) # s"] by (simp add: dec.simps [of n])
    also have "\<dots> = strtol_digits (10 ^ length (dec n) * acc + n) s"
      using False by (simp add: dec.simps [of n] digit_facts algebra_simps)
    finally show ?thesis .
  qed
qed

lemma atoi_dec:
  assumes "n < 2 ^ 31"
  shows "atoi (dec n) = int n"
proof -
  obtain k cs where d: "dec n = digit k # cs" "k < 10"
    using dec_chars [of "hd (dec n)" n] by (metis dec_nonempty list.collapse list.set_sel(1))
  have "strtol (dec n) = min (2 ^ 63 - 1) (int (strtol_digits 0 (dec n)))"
    using digit_facts [OF d(2)] by (simp add: strtol_def d(1))
  also have "\<dots> = int n" using strtol_digits_dec [of 0 n "[]"] assms by simp
  finally have "atoi (dec n) = sint (word_of_int (int n) :: 32 word)" by (simp only: atoi_def)
  also have "\<dots> = signed_take_bit 31 (int n)" by (simp only: signed_of_int) simp
  also have "\<dots> = int n" using assms by (intro signed_take_bit_int_eq_self) simp_all
  finally show ?thesis .
qed

lemma dec_step: "10 \<le> n \<Longrightarrow> dec n = dec (n div 10) @ [digit (n mod 10)]"
  by (simp add: dec.simps [of n])

lemma dec_small: "n < 10 \<Longrightarrow> dec n = [digit n]"
  "10 \<le> n \<Longrightarrow> n < 100 \<Longrightarrow> dec n = [digit (n div 10), digit (n mod 10)]"
  "100 \<le> n \<Longrightarrow> n < 1000 \<Longrightarrow> dec n = [digit (n div 10 div 10), digit (n div 10 mod 10), digit (n mod 10)]"
  by (simp_all add: dec_step dec.simps [of "n div 10 div 10"] dec.simps [of n] dec.simps [of "n div 10"]
        less_mult_imp_div_less div_le_mono [of 100 n 10, simplified])

lemma length_dec_octet: "n \<le> 255 \<Longrightarrow> length (dec n) \<le> 3"
  by (cases "n < 10"; cases "n < 100") (simp_all add: dec_small)

lemma pton_octet:
  assumes "a \<le> 255" "k < 4"
  shows "inet_pton4 False k tmp 0 (dec a @ s) = inet_pton4 True (Suc k) tmp a s"
proof -
  consider "a < 10" | "10 \<le> a" "a < 100" | "100 \<le> a" "a < 1000" using assms(1) by linarith
  then show ?thesis
  proof cases
    case 3
    obtain q x y z where d: "q = a div 10" "x = q div 10" "y = q mod 10" "z = a mod 10" by simp
    then have v: "x * 10 + y = q" "q * 10 + z = a" "x < 10" "y < 10" "z < 10" "x > 0" "q > 0" "q \<le> 255"
      using 3 assms(1) by simp_all
    have "dec a = [digit x, digit y, digit z]" using 3 d by (simp add: dec_small)
    then show ?thesis
      using v assms by (simp add: digit_facts Let_def)
  qed (use assms in \<open>auto simp: dec_small digit_facts Let_def\<close>)
qed

definition dotted :: "nat \<Rightarrow> nat \<Rightarrow> nat \<Rightarrow> nat \<Rightarrow> string" where
  "dotted a b c d = dec a @ ''.'' @ dec b @ ''.'' @ dec c @ ''.'' @ dec d"

definition ip_of :: "nat \<Rightarrow> nat \<Rightarrow> nat \<Rightarrow> nat \<Rightarrow> u32" where
  "ip_of a b c d = word_of_nat (256 * (256 * (256 * a + b) + c) + d)"

lemma pton_dot: "k < 4 \<Longrightarrow> inet_pton4 True k tmp tp (CHR ''.'' # s) = inet_pton4 False k (tmp @ [tp]) 0 s"
  by (simp add: c_isdigit_def)

lemma inet_pton_dotted:
  assumes "a \<le> 255" "b \<le> 255" "c \<le> 255" "d \<le> 255"
  shows "inet_pton (dotted a b c d) = Some (ip_of a b c d)"
proof -
  have "inet_pton4 True (Suc (Suc (Suc (Suc 0)))) tmp d [] = Some (tmp @ [d])" for tmp by simp
  then have "inet_pton4 False 0 [] 0 (dotted a b c d) = Some [a, b, c, d]"
    using assms pton_octet [OF assms(4), of 3 _ "[]"]
    by (simp add: dotted_def pton_octet pton_dot numeral_3_eq_3 del: inet_pton4.simps)
  then show ?thesis by (simp add: inet_pton_def ip_of_def)
qed

end
