(* ===== verification/Config.thy ===== *)
theory Config
  imports LibC Sessions
begin

text \<open>
  The configuration file of \<^verbatim>\<open>src/src/peer.c\<close>: \<open>parse_cidr\<close> and the state machine of \<open>load_config\<close>
  over the events of the YAML parser. The parser is a library; what it delivers for the file is an
  input, a list of events after which it reports an error (a well-formed file ends with the end of
  the stream, and nothing is asked of the parser after that). The value of a scalar is the C string
  up to its first NUL.
\<close>

section \<open>Prefixes\<close>

definition cidr_prefix :: "string \<Rightarrow> int \<Rightarrow> ip_prefix option" where
  "cidr_prefix buf len =
     (case inet_pton buf of
        None \<Rightarrow> None
      | Some a \<Rightarrow>
          (let m = (if len = 0 then 0 else push_bit (nat (32 - len)) (-1))
           in Some \<lparr>network = a AND m, mask = m, prefix_len = len\<rparr>))"

definition parse_cidr :: "string \<Rightarrow> ip_prefix option" where
  "parse_cidr cidr =
     (let buf = take 31 cidr
      in case strchr buf CHR ''/'' of
           None \<Rightarrow> cidr_prefix buf 32
         | Some slash \<Rightarrow>
             (let len = atoi (drop (Suc slash) buf)
              in if len < 0 \<or> len > 32 then None else cidr_prefix (take slash buf) len))"

section \<open>The state machine\<close>

datatype yaml_event =
    YAML_NO_EVENT | YAML_STREAM_START | YAML_STREAM_END | YAML_DOCUMENT_START | YAML_DOCUMENT_END | YAML_ALIAS
  | YAML_SCALAR string | YAML_SEQUENCE_START | YAML_SEQUENCE_END | YAML_MAPPING_START | YAML_MAPPING_END

datatype cfg_state = S_ROOT | S_ROOT_VAL | S_PEERS_SEQ | S_PEER_MAP | S_PEER_VAL | S_ALLOWED_IPS_SEQ

text \<open>The local variables of \<open>main\<close> that the configuration sets, and the log level.\<close>

record options =
  tunnel_name :: string
  bind_address :: string
  udp_port :: int
  keepalive_secs :: int
  keyfile :: string
  psk_text :: string
  has_psk :: bool
  log_level :: int

definition default_options :: options where
  "default_options = \<lparr>tunnel_name = [], bind_address = [], udp_port = 5040, keepalive_secs = KEEPALIVE_INTERVAL_SECS,
     keyfile = ''peer.key'', psk_text = [], has_psk = False, log_level = 0\<rparr>"

record 'k loader =
  ld_state :: cfg_state
  ld_key :: string
  ld_peer_key :: string
  ld_ok :: bool
  ld_opts :: options
  ld_peer :: "'k peer_state"
  ld_world :: world

text \<open>A scalar of the root mapping. An unknown key is skipped.\<close>

definition set_option :: "string \<Rightarrow> string \<Rightarrow> options \<times> 'k peer_state \<Rightarrow> options \<times> 'k peer_state" where
  "set_option key v b =
     (let (opts, st) = b
      in if key = ''interface'' then (opts\<lparr>tunnel_name := take 15 v\<rparr>, st)
         else if key = ''address'' then (opts\<lparr>bind_address := take 63 v\<rparr>, st)
         else if key = ''port'' then (opts\<lparr>udp_port := atoi v\<rparr>, st)
         else if key = ''keepalive_interval'' then (opts\<lparr>keepalive_secs := atoi v\<rparr>, st)
         else if key = ''rekey_after'' then (opts, st\<lparr>cfg_rekey_after := atoi v\<rparr>)
         else if key = ''reconnect_interval'' then (opts, st\<lparr>cfg_reconnect_interval := atoi v\<rparr>)
         else if key = ''session_expiry'' then (opts, st\<lparr>cfg_session_expiry := atoi v\<rparr>)
         else if key = ''prev_key_grace'' then (opts, st\<lparr>cfg_prev_key_grace := atoi v\<rparr>)
         else if key = ''handshake_timeout'' then (opts, st\<lparr>cfg_handshake_timeout := atoi v\<rparr>)
         else if key = ''handshake_cooldown'' then (opts, st\<lparr>cfg_handshake_cooldown := atoi v\<rparr>)
         else if key = ''private_key_file'' then (opts\<lparr>keyfile := take 255 v\<rparr>, st)
         else if key = ''verbose'' \<and> v = ''true'' then (opts\<lparr>log_level := 1\<rparr>, st)
         else if key = ''pre_shared_key'' then (opts\<lparr>psk_text := take 255 v, has_psk := True\<rparr>, st)
         else (opts, st))"

text \<open>
  The local array \<open>buf[256]\<close> of the endpoint is not initialised and \<open>strncpy\<close> writes 255 bytes of it, so a
  value of 255 characters or more is not terminated: what is read then goes on with \<open>junk\<close>, whatever
  the stack holds from \<open>buf[255]\<close> up to the next NUL.
\<close>

definition endpoint_text :: "string \<Rightarrow> string \<Rightarrow> string" where
  "endpoint_text junk v = (if length v < 255 then v else take 255 v @ junk)"

text \<open>The Boolean is whether the endpoint was accepted.\<close>

definition set_endpoint ::
    "('k, 'c, 'p) env \<Rightarrow> string \<Rightarrow> string \<Rightarrow> peer_config \<Rightarrow> world \<Rightarrow> (bool \<times> peer_config) \<times> world" where
  "set_endpoint E junk v pc w =
     (let buf = endpoint_text junk v
      in case strrchr buf CHR '':'' of
           None \<Rightarrow> ((False, pc), w)
         | Some colon \<Rightarrow>
             if colon = 0 then ((False, pc), w)
             else
               let eport = atoi (drop (Suc colon) buf)
               in if eport \<le> 0 \<or> eport > 65535 then ((False, pc), w)
                  else
                    let pc1 = pc\<lparr>endpoint_host := take 255 (take colon buf), endpoint_port := eport,
                                endpoint := (endpoint pc)\<lparr>sin_port := word_of_int eport\<rparr>\<rparr>
                    in case resolve_endpoint E pc1 w of
                         ((False, pc2), w1) \<Rightarrow> ((False, pc2), w1)
                       | ((True, pc2), w1) \<Rightarrow> ((True, pc2\<lparr>has_endpoint := True\<rparr>), w1))"

text \<open>A scalar of a peer: \<open>bare0x\<close> is the choice of \<open>sscanf\<close> described with \<open>hex_to_bytes\<close>.\<close>

definition set_peer_option ::
    "('k, 'c, 'p) env \<Rightarrow> bool \<Rightarrow> string \<Rightarrow> string \<Rightarrow> string \<Rightarrow> peer_config \<Rightarrow> world
       \<Rightarrow> (bool \<times> peer_config) \<times> world" where
  "set_peer_option E bare0x junk key v pc w =
     (if key = ''public_key'' then
        (case hex_to_bytes bare0x v DH_PUBKEY_LEN of
           None \<Rightarrow> ((False, pc), w)
         | Some pub \<Rightarrow> ((True, pc\<lparr>pc_pub := pub\<rparr>), w))
      else if key = ''endpoint'' then set_endpoint E junk v pc w
      else ((True, pc), w))"

text \<open>An entry of \<open>allowed_ips\<close>.\<close>

definition add_route :: "string \<Rightarrow> peer_config \<Rightarrow> bool \<times> peer_config" where
  "add_route v pc =
     (if pc_route_count pc \<ge> MAX_ROUTES_PER_PEER then (False, pc)
      else case parse_cidr v of
             None \<Rightarrow> (False, pc)
           | Some r \<Rightarrow> (True, pc\<lparr>pc_routes := (pc_routes pc)[pc_route_count pc := r],
                               pc_route_count := pc_route_count pc + 1\<rparr>))"

text \<open>One event. \<open>peer_configs[peer_config_count - 1]\<close> is the last entry of the list.\<close>

definition load_step ::
    "('k, 'c, 'p) env \<Rightarrow> bool \<Rightarrow> string \<Rightarrow> 'k loader \<Rightarrow> yaml_event \<Rightarrow> 'k loader" where
  "load_step E bare0x junk l ev =
     (let st = ld_peer l; cur = length (peer_configs st) - 1
      in case ld_state l of
           S_ROOT \<Rightarrow>
             (case ev of
                YAML_SCALAR v \<Rightarrow> l\<lparr>ld_key := take 63 v, ld_state := S_ROOT_VAL\<rparr>
              | _ \<Rightarrow> l)
         | S_ROOT_VAL \<Rightarrow>
             (case ev of
                YAML_SCALAR v \<Rightarrow>
                  (let (opts, st1) = set_option (ld_key l) v (ld_opts l, st)
                   in l\<lparr>ld_opts := opts, ld_peer := st1, ld_state := S_ROOT\<rparr>)
              | YAML_SEQUENCE_START \<Rightarrow> if ld_key l = ''peers'' then l\<lparr>ld_state := S_PEERS_SEQ\<rparr> else l
              | _ \<Rightarrow> l)
         | S_PEERS_SEQ \<Rightarrow>
             (case ev of
                YAML_SEQUENCE_END \<Rightarrow> l\<lparr>ld_state := S_ROOT\<rparr>
              | YAML_MAPPING_START \<Rightarrow>
                  if length (peer_configs st) \<ge> MAX_PEERS then l\<lparr>ld_ok := False\<rparr>
                  else l\<lparr>ld_peer := st\<lparr>peer_configs := peer_configs st @ [zero_config]\<rparr>, ld_state := S_PEER_MAP\<rparr>
              | _ \<Rightarrow> l)
         | S_PEER_MAP \<Rightarrow>
             (case ev of
                YAML_MAPPING_END \<Rightarrow> l\<lparr>ld_state := S_PEERS_SEQ\<rparr>
              | YAML_SCALAR v \<Rightarrow> l\<lparr>ld_peer_key := take 63 v, ld_state := S_PEER_VAL\<rparr>
              | _ \<Rightarrow> l)
         | S_PEER_VAL \<Rightarrow>
             (case ev of
                YAML_SCALAR v \<Rightarrow>
                  (let ((okv, pc), w1) = set_peer_option E bare0x junk (ld_peer_key l) v (peer_configs st ! cur) (ld_world l);
                       l1 = l\<lparr>ld_peer := upd_config cur (\<lambda>_. pc) st, ld_world := w1\<rparr>
                   in if okv then l1\<lparr>ld_state := S_PEER_MAP\<rparr> else l1\<lparr>ld_ok := False\<rparr>)
              | YAML_SEQUENCE_START \<Rightarrow>
                  if ld_peer_key l = ''allowed_ips'' then l\<lparr>ld_state := S_ALLOWED_IPS_SEQ\<rparr> else l
              | _ \<Rightarrow> l)
         | S_ALLOWED_IPS_SEQ \<Rightarrow>
             (case ev of
                YAML_SEQUENCE_END \<Rightarrow> l\<lparr>ld_state := S_PEER_MAP\<rparr>
              | YAML_SCALAR v \<Rightarrow>
                  (let (okv, pc) = add_route v (peer_configs st ! cur);
                       l1 = l\<lparr>ld_peer := upd_config cur (\<lambda>_. pc) st\<rparr>
                   in if okv then l1 else l1\<lparr>ld_ok := False\<rparr>)
              | _ \<Rightarrow> l))"

text \<open>The loop: it ends at the end of the stream, at an event that is refused, and when the parser fails.\<close>

fun load_events ::
    "('k, 'c, 'p) env \<Rightarrow> bool \<Rightarrow> string \<Rightarrow> 'k loader \<Rightarrow> yaml_event list \<Rightarrow> 'k loader" where
  "load_events E bare0x junk l [] = l\<lparr>ld_ok := False\<rparr>"
| "load_events E bare0x junk l (ev # evs) =
     (let l1 = load_step E bare0x junk l ev
      in if ev = YAML_STREAM_END \<or> \<not> ld_ok l1 then l1 else load_events E bare0x junk l1 evs)"

text \<open>The whole function; \<open>None\<close> is a file that cannot be opened or a parser that cannot be initialised.\<close>

definition start_loader :: "options \<Rightarrow> 'k peer_state \<Rightarrow> world \<Rightarrow> 'k loader" where
  "start_loader opts st w = \<lparr>ld_state = S_ROOT, ld_key = [], ld_peer_key = [], ld_ok = True, ld_opts = opts,
     ld_peer = st, ld_world = w\<rparr>"

definition load_config ::
    "('k, 'c, 'p) env \<Rightarrow> bool \<Rightarrow> string \<Rightarrow> yaml_event list option \<Rightarrow> options \<Rightarrow> 'k peer_state \<Rightarrow> world
       \<Rightarrow> bool \<times> options \<times> 'k peer_state \<times> world" where
  "load_config E bare0x junk file opts st w =
     (case file of
        None \<Rightarrow> (False, opts, st, w)
      | Some evs \<Rightarrow>
          (let l = load_events E bare0x junk (start_loader opts st w) evs
           in (ld_ok l, ld_opts l, ld_peer l, ld_world l)))"

section \<open>Prefixes are well-formed\<close>

lemma cidr_prefix_wf:
  assumes "cidr_prefix buf len = Some r" "0 \<le> len" "len \<le> 32"
  shows "prefix_wf r \<and> prefix_len r = len"
  using assms by (auto simp: cidr_prefix_def prefix_wf_def Let_def and.assoc split: option.splits)

lemma parse_cidr_wf: "parse_cidr v = Some r \<Longrightarrow> prefix_wf r"
  by (auto simp: parse_cidr_def Let_def split: option.splits if_splits dest: cidr_prefix_wf)

lemma parse_cidr_dotted:
  assumes "a \<le> 255" "b \<le> 255" "c \<le> 255" "d \<le> 255" "p \<le> 32"
  shows "parse_cidr (dotted a b c d @ ''/'' @ dec p) = cidr_prefix (dotted a b c d) (int p)"
proof -
  have "length (dec p) \<le> 3" using assms(5) by (intro length_dec_octet) simp
  then have "length (dotted a b c d @ ''/'' @ dec p) \<le> 31"
    using assms(1-4) [THEN length_dec_octet] by (simp add: dotted_def)
  then have t: "take 31 (dotted a b c d @ ''/'' @ dec p) = dotted a b c d @ CHR ''/'' # dec p" by simp
  have "CHR ''/'' \<notin> set (dotted a b c d)" by (simp add: dotted_def dec_not_special)
  with strchr_split [OF this] t atoi_dec [of p] assms(5) show ?thesis
    by (simp add: parse_cidr_def Let_def)
qed

lemma top_bits_eq:
  fixes x a :: u32
  assumes "p \<le> 32"
  shows "x AND push_bit (32 - p) (-1) = a AND push_bit (32 - p) (-1) \<longleftrightarrow> unat x div 2 ^ (32 - p) = unat a div 2 ^ (32 - p)"
proof -
  have "x AND push_bit (32 - p) (-1) = push_bit (32 - p) (drop_bit (32 - p) x)" for x :: u32
    by (rule bit_word_eqI) (auto simp: bit_simps)
  moreover have r: "drop_bit (32 - p) (push_bit (32 - p) (drop_bit (32 - p) x)) = drop_bit (32 - p) x" for x :: u32
    by (rule bit_word_eqI) (auto simp: bit_simps dest: bit_imp_le_length)
  moreover have "push_bit (32 - p) (drop_bit (32 - p) x) = push_bit (32 - p) (drop_bit (32 - p) a) \<longleftrightarrow>
      drop_bit (32 - p) x = drop_bit (32 - p) a"
    by (metis r)
  moreover have "drop_bit (32 - p) x = drop_bit (32 - p) a \<longleftrightarrow> drop_bit (32 - p) (unat x) = drop_bit (32 - p) (unat a)"
    by (simp only: word_unat_eq_iff unat_drop_bit_eq)
  ultimately show ?thesis by (simp only: drop_bit_eq_div [where ?'a = nat])
qed

section \<open>What the loader keeps\<close>

text \<open>
  No session and no handshake exists while the configuration is read, every entry of the table is
  well-formed, and a state inside a peer has an entry to write to.
\<close>

definition entry_ok :: "peer_config \<Rightarrow> bool" where
  "entry_ok c \<longleftrightarrow> config_wf c \<and>
     (has_endpoint c \<longrightarrow> endpoint_host c \<noteq> [] \<and> length (endpoint_host c) \<le> 255 \<and> 1 \<le> endpoint_port c \<and> endpoint_port c \<le> 65535)"

definition fresh_tables :: "'k peer_state \<Rightarrow> bool" where
  "fresh_tables st \<longleftrightarrow> sessions st = replicate MAX_PEERS zero_session \<and> session_slots st = 0 \<and>
     pending_hs st = replicate MAX_PEERS zero_pending \<and> precomp_eph_pub st = replicate DH_PUBKEY_LEN 0 \<and>
     \<not> stop_flag st \<and> length (peer_configs st) \<le> MAX_PEERS \<and> (\<forall>c \<in> set (peer_configs st). entry_ok c)"

definition options_ok :: "options \<Rightarrow> bool" where
  "options_ok o1 \<longleftrightarrow> length (tunnel_name o1) < 16 \<and> length (bind_address o1) < 64 \<and> length (keyfile o1) < 256 \<and>
     length (psk_text o1) < 256"

definition loader_ok :: "'k loader \<Rightarrow> bool" where
  "loader_ok l \<longleftrightarrow> fresh_tables (ld_peer l) \<and> options_ok (ld_opts l) \<and> length (ld_key l) < 64 \<and> length (ld_peer_key l) < 64 \<and>
     (ld_state l \<in> {S_PEER_MAP, S_PEER_VAL, S_ALLOWED_IPS_SEQ} \<longrightarrow> peer_configs (ld_peer l) \<noteq> [])"

lemma blank_session_wf [simp]: "session_wf zero_session" "\<not> active zero_session" "\<not> p_active zero_pending"
  by (simp_all add: session_wf_def zero_session_def zero_pending_def)

lemma fresh_tables_inv: "fresh_tables st \<Longrightarrow> peer_inv st"
  by (auto simp: fresh_tables_def peer_inv_def tables_ok_def sessions_ok_def pending_ok_def rekey_ok_def entry_ok_def)

lemma zero_entry_ok [simp]: "entry_ok zero_config"
  by (simp add: entry_ok_def config_wf_def zero_config_def)

lemma add_route_ok: "entry_ok pc \<Longrightarrow> add_route v pc = (r, pc') \<Longrightarrow> entry_ok pc'"
  by (auto simp: add_route_def entry_ok_def config_wf_def take_Suc_conv_app_nth split: if_splits option.splits
        dest: parse_cidr_wf)

lemma strrchr_host: "strrchr s c = Some i \<Longrightarrow> i \<noteq> 0 \<Longrightarrow> take 255 (take i s) \<noteq> []"
  by (auto simp: strrchr_def dest: strchr_SomeD)

lemma entry_ok_endpoint:
  assumes "entry_ok pc" "h \<noteq> []" "length h \<le> 255" "1 \<le> p" "p \<le> 65535"
  shows "entry_ok (pc\<lparr>endpoint_host := h, endpoint_port := p, endpoint := a\<rparr>)"
    "entry_ok (pc\<lparr>endpoint_host := h, endpoint_port := p, endpoint := a, has_endpoint := True\<rparr>)"
  using assms by (auto simp: entry_ok_def config_wf_def)

lemma set_endpoint_ok:
  assumes "entry_ok pc" "set_endpoint E junk v pc w = ((r, pc'), w')"
  shows "entry_ok pc'"
proof (cases "strrchr (endpoint_text junk v) CHR '':''")
  case None
  then show ?thesis using assms by (simp add: set_endpoint_def)
next
  case (Some i)
  let ?h = "take 255 (take i (endpoint_text junk v))" and ?p = "atoi (drop (Suc i) (endpoint_text junk v))"
  show ?thesis
  proof (cases "i = 0 \<or> ?p \<le> 0 \<or> 65535 < ?p")
    case True
    then show ?thesis using assms Some by (auto simp: set_endpoint_def Let_def split: if_splits)
  next
    case False
    then have h: "?h \<noteq> []" "length ?h \<le> 255" "1 \<le> ?p" "?p \<le> 65535" using strrchr_host [OF Some] by auto
    show ?thesis
      using assms(2) False entry_ok_endpoint [OF assms(1) h]
      by (auto simp: set_endpoint_def Some resolve_endpoint_def Let_def simp del: take_take
            split: prod.splits option.splits)
  qed
qed

lemma set_peer_option_ok:
  "entry_ok pc \<Longrightarrow> set_peer_option E b junk key v pc w = ((r, pc'), w') \<Longrightarrow> entry_ok pc'"
  by (auto simp: set_peer_option_def hex_to_bytes_def split: if_splits option.splits dest: set_endpoint_ok)
     (auto simp: entry_ok_def config_wf_def dest: hex_scan_length)

lemma fresh_upd_config:
  assumes "fresh_tables st" "entry_ok pc"
  shows "fresh_tables (upd_config i (\<lambda>_. pc) st)"
  using assms set_update_subset_insert [of "peer_configs st" i pc] by (auto simp: fresh_tables_def upd_config_def)

lemma upd_config_Nil [simp]: "peer_configs (upd_config i f st) = [] \<longleftrightarrow> peer_configs st = []"
  by (simp add: upd_config_def)

lemma set_option_ok:
  assumes "set_option key v (opts, st) = (opts', st')"
  shows "fresh_tables st \<Longrightarrow> fresh_tables st'" "options_ok opts \<Longrightarrow> options_ok opts'"
    "peer_configs st' = peer_configs st"
  using assms by (auto simp: set_option_def fresh_tables_def options_ok_def split: if_splits)

lemma current_entry_ok:
  "fresh_tables st \<Longrightarrow> peer_configs st \<noteq> [] \<Longrightarrow> entry_ok (peer_configs st ! (length (peer_configs st) - 1))"
  by (simp add: fresh_tables_def)

lemma load_step_ok:
  assumes "loader_ok l"
  shows "loader_ok (load_step E b junk l ev)"
proof (cases "ld_state l")
  case S_ROOT_VAL
  show ?thesis
  proof (cases ev)
    case (YAML_SCALAR v)
    obtain opts st where s: "set_option (ld_key l) v (ld_opts l, ld_peer l) = (opts, st)" by (metis surj_pair)
    show ?thesis using assms set_option_ok [OF s] by (auto simp: load_step_def S_ROOT_VAL YAML_SCALAR s loader_ok_def)
  qed (use assms S_ROOT_VAL in \<open>auto simp: load_step_def loader_ok_def\<close>)
next
  case S_PEERS_SEQ
  then show ?thesis using assms
    by (cases ev) (auto simp: load_step_def loader_ok_def fresh_tables_def Let_def)
next
  case S_PEER_VAL
  note e = current_entry_ok [of "ld_peer l"]
  show ?thesis
  proof (cases ev)
    case (YAML_SCALAR v)
    obtain r pc w where s: "set_peer_option E b junk (ld_peer_key l) v
        (peer_configs (ld_peer l) ! (length (peer_configs (ld_peer l)) - 1)) (ld_world l) = ((r, pc), w)"
      by (metis surj_pair)
    have "entry_ok pc" using assms e S_PEER_VAL by (intro set_peer_option_ok [OF _ s]) (auto simp: loader_ok_def)
    with assms show ?thesis
      using s by (auto simp: load_step_def S_PEER_VAL YAML_SCALAR loader_ok_def fresh_upd_config Let_def)
  qed (use assms S_PEER_VAL in \<open>auto simp: load_step_def loader_ok_def\<close>)
next
  case S_ALLOWED_IPS_SEQ
  note e = current_entry_ok [of "ld_peer l"]
  show ?thesis
  proof (cases ev)
    case (YAML_SCALAR v)
    obtain r pc where s: "add_route v (peer_configs (ld_peer l) ! (length (peer_configs (ld_peer l)) - 1)) = (r, pc)"
      by (metis surj_pair)
    have "entry_ok pc" using assms e S_ALLOWED_IPS_SEQ by (intro add_route_ok [OF _ s]) (auto simp: loader_ok_def)
    with assms show ?thesis
      using s by (auto simp: load_step_def S_ALLOWED_IPS_SEQ YAML_SCALAR loader_ok_def fresh_upd_config Let_def)
  qed (use assms S_ALLOWED_IPS_SEQ in \<open>auto simp: load_step_def loader_ok_def\<close>)
qed (use assms in \<open>cases ev; auto simp: load_step_def loader_ok_def\<close>)+

interpretation loader: inv_machine "load_step E b junk" loader_ok
  by unfold_locales (rule load_step_ok)

text \<open>The loop of \<open>load_config\<close> runs the machine on the events it takes.\<close>

lemma load_events_run:
  "\<exists>n. load_events E b junk l evs = run_steps (load_step E b junk) l (take n evs) \<or>
       load_events E b junk l evs = (run_steps (load_step E b junk) l (take n evs))\<lparr>ld_ok := False\<rparr>"
proof (induction evs arbitrary: l)
  case Nil
  show ?case by simp
next
  case (Cons ev evs)
  let ?l = "load_step E b junk l ev"
  show ?case
  proof (cases "ev = YAML_STREAM_END \<or> \<not> ld_ok ?l")
    case True
    then show ?thesis by (intro exI [of _ 1]) auto
  next
    case False
    obtain n where "load_events E b junk ?l evs = run_steps (load_step E b junk) ?l (take n evs) \<or>
       load_events E b junk ?l evs = (run_steps (load_step E b junk) ?l (take n evs))\<lparr>ld_ok := False\<rparr>"
      using Cons.IH by blast
    with False show ?thesis by (intro exI [of _ "Suc n"]) (auto simp: Let_def)
  qed
qed

lemma load_events_ok:
  assumes "loader_ok l"
  shows "loader_ok (load_events E b junk l evs)"
proof -
  have "loader_ok (x\<lparr>ld_ok := False\<rparr>) = loader_ok x" for x :: "'a loader" by (simp add: loader_ok_def)
  then show ?thesis
    using load_events_run [of E b junk l evs] loader.run_prefix_inv [OF assms, of E b junk _ evs] by metis
qed

lemma init_fresh: "fresh_tables init_state" "options_ok default_options"
  by (simp_all add: fresh_tables_def init_state_def options_ok_def default_options_def)

lemma load_config_ok:
  assumes "load_config E b junk file opts st w = (ok, opts', st', w')" "fresh_tables st" "options_ok opts"
  shows "fresh_tables st' \<and> options_ok opts'"
proof -
  have "loader_ok (start_loader opts st w)" using assms(2,3) by (simp add: loader_ok_def start_loader_def)
  from load_events_ok [OF this, of E b junk] show ?thesis
    using assms by (auto simp: load_config_def loader_ok_def Let_def split: option.splits)
qed

section \<open>Reading back a configuration\<close>

text \<open>
  \<open>peer_events\<close> is the event sequence of a peer written with a public key, an optional endpoint and
  its prefixes, \<open>config_events\<close> that of a file; \<open>config_of\<close> is the table entry such a peer stands for.
\<close>

record peer_spec =
  sp_pub :: bytes
  sp_endpoint :: "(string \<times> nat) option"
  sp_ips :: "string list"

definition peer_events :: "peer_spec \<Rightarrow> yaml_event list" where
  "peer_events sp = [YAML_MAPPING_START, YAML_SCALAR ''public_key'', YAML_SCALAR (bytes_to_hex (sp_pub sp) DH_PUBKEY_LEN)] @
     (case sp_endpoint sp of None \<Rightarrow> []
      | Some (h, p) \<Rightarrow> [YAML_SCALAR ''endpoint'', YAML_SCALAR (h @ CHR '':'' # dec p)]) @
     [YAML_SCALAR ''allowed_ips'', YAML_SEQUENCE_START] @ map YAML_SCALAR (sp_ips sp) @
     [YAML_SEQUENCE_END, YAML_MAPPING_END]"

definition config_events :: "(string \<times> string) list \<Rightarrow> peer_spec list \<Rightarrow> yaml_event list" where
  "config_events kvs sps = [YAML_STREAM_START, YAML_DOCUMENT_START, YAML_MAPPING_START] @
     concat (map (\<lambda>(k, v). [YAML_SCALAR k, YAML_SCALAR v]) kvs) @ [YAML_SCALAR ''peers'', YAML_SEQUENCE_START] @
     concat (map peer_events sps) @ [YAML_SEQUENCE_END, YAML_MAPPING_END, YAML_DOCUMENT_END, YAML_STREAM_END]"

definition spec_ok :: "peer_spec \<Rightarrow> bool" where
  "spec_ok sp \<longleftrightarrow> length (sp_pub sp) = DH_PUBKEY_LEN \<and> length (sp_ips sp) \<le> MAX_ROUTES_PER_PEER \<and>
     (\<forall>v \<in> set (sp_ips sp). parse_cidr v \<noteq> None) \<and>
     (case sp_endpoint sp of None \<Rightarrow> True | Some (h, p) \<Rightarrow> h \<noteq> [] \<and> length h < 249 \<and> 0 < p \<and> p \<le> 65535)"

definition config_of :: "(string \<Rightarrow> int \<Rightarrow> sockaddr_in) \<Rightarrow> peer_spec \<Rightarrow> peer_config" where
  "config_of resolver sp =
     (let pc = zero_config\<lparr>pc_pub := sp_pub sp,
                 pc_routes := map (\<lambda>v. the (parse_cidr v)) (sp_ips sp) @
                   replicate (MAX_ROUTES_PER_PEER - length (sp_ips sp)) zero_prefix,
                 pc_route_count := length (sp_ips sp)\<rparr>
      in case sp_endpoint sp of None \<Rightarrow> pc
         | Some (h, p) \<Rightarrow> pc\<lparr>has_endpoint := True, endpoint := resolver h (int p), endpoint_host := h, endpoint_port := int p\<rparr>)"

lemma load_step_ok_mono: "ld_ok (load_step E b junk l ev) \<Longrightarrow> ld_ok l"
  by (cases "ld_state l"; cases ev) (auto simp: load_step_def Let_def split: if_splits prod.splits)

lemma run_ok_mono: "ld_ok (run_steps (load_step E b junk) l evs) \<Longrightarrow> ld_ok l"
  by (induction evs arbitrary: l) (auto dest: load_step_ok_mono)

lemma load_events_append:
  "ld_ok (run_steps (load_step E b junk) l evs) \<Longrightarrow> YAML_STREAM_END \<notin> set evs \<Longrightarrow>
     load_events E b junk l (evs @ rest) = load_events E b junk (run_steps (load_step E b junk) l evs) rest"
  by (induction evs arbitrary: l) (auto simp: Let_def dest: run_ok_mono)

lemma options_run:
  assumes "list_all (\<lambda>kv. length (fst kv) < 64) kvs" "ld_state l = S_ROOT"
  shows "\<exists>key. run_steps (load_step E b junk) l (concat (map (\<lambda>(k, v). [YAML_SCALAR k, YAML_SCALAR v]) kvs)) =
     l\<lparr>ld_key := key, ld_opts := fst (fold (\<lambda>(k, v). set_option k v) kvs (ld_opts l, ld_peer l)),
       ld_peer := snd (fold (\<lambda>(k, v). set_option k v) kvs (ld_opts l, ld_peer l))\<rparr>"
  using assms
proof (induction kvs arbitrary: l)
  case Nil
  show ?case by (intro exI [of _ "ld_key l"]) simp
next
  case (Cons kv kvs)
  obtain k v where kv: "kv = (k, v)" by fastforce
  have k: "take 63 k = k" using Cons.prems(1) kv by simp
  obtain opts st where s: "set_option k v (ld_opts l, ld_peer l) = (opts, st)" by (metis surj_pair)
  let ?l = "l\<lparr>ld_key := k, ld_opts := opts, ld_peer := st\<rparr>"
  have "run_steps (load_step E b junk) l [YAML_SCALAR k, YAML_SCALAR v] = ?l"
    using Cons.prems(2) k s by (simp add: load_step_def)
  moreover obtain key where "run_steps (load_step E b junk) ?l (concat (map (\<lambda>(k, v). [YAML_SCALAR k, YAML_SCALAR v]) kvs)) =
     ?l\<lparr>ld_key := key, ld_opts := fst (fold (\<lambda>(k, v). set_option k v) kvs (opts, st)),
       ld_peer := snd (fold (\<lambda>(k, v). set_option k v) kvs (opts, st))\<rparr>"
    using Cons.IH [of ?l] Cons.prems by auto
  ultimately show ?case using kv s by (intro exI [of _ key]) simp
qed

lemma routes_run:
  assumes "ld_state l = S_ALLOWED_IPS_SEQ" "peer_configs (ld_peer l) = pcs @ [pc]"
    and "pc_route_count pc + length ips \<le> MAX_ROUTES_PER_PEER" "\<And>v. v \<in> set ips \<Longrightarrow> parse_cidr v \<noteq> None"
    and "length (pc_routes pc) = MAX_ROUTES_PER_PEER"
  shows "run_steps (load_step E b junk) l (map YAML_SCALAR ips) =
     l\<lparr>ld_peer := (ld_peer l)\<lparr>peer_configs := pcs @ [pc\<lparr>pc_routes := take (pc_route_count pc) (pc_routes pc) @
         map (\<lambda>v. the (parse_cidr v)) ips @ drop (pc_route_count pc + length ips) (pc_routes pc),
       pc_route_count := pc_route_count pc + length ips\<rparr>]\<rparr>\<rparr>"
  using assms
proof (induction ips arbitrary: l pc)
  case Nil
  then have "(ld_peer l)\<lparr>peer_configs := pcs @ [pc]\<rparr> = ld_peer l" by simp
  with Nil show ?case by simp
next
  case (Cons v ips)
  obtain r where r: "parse_cidr v = Some r" using Cons.prems(4) by fastforce
  let ?pc = "pc\<lparr>pc_routes := (pc_routes pc)[pc_route_count pc := r], pc_route_count := pc_route_count pc + 1\<rparr>"
  let ?l = "l\<lparr>ld_peer := (ld_peer l)\<lparr>peer_configs := pcs @ [?pc]\<rparr>\<rparr>"
  have "load_step E b junk l (YAML_SCALAR v) = ?l"
    using Cons.prems r by (simp add: load_step_def add_route_def upd_config_def Let_def)
  moreover have "run_steps (load_step E b junk) ?l (map YAML_SCALAR ips) =
     ?l\<lparr>ld_peer := (ld_peer ?l)\<lparr>peer_configs := pcs @ [?pc\<lparr>pc_routes := take (pc_route_count ?pc) (pc_routes ?pc) @
         map (\<lambda>v. the (parse_cidr v)) ips @ drop (pc_route_count ?pc + length ips) (pc_routes ?pc),
       pc_route_count := pc_route_count ?pc + length ips\<rparr>]\<rparr>\<rparr>"
    using Cons.prems by (intro Cons.IH) simp_all
  ultimately show ?case
    using Cons.prems(3,5) r by (simp add: take_Suc_conv_app_nth)
qed

lemma pub_read_back:
  assumes "length pub = DH_PUBKEY_LEN"
  shows "hex_to_bytes b (bytes_to_hex pub DH_PUBKEY_LEN) DH_PUBKEY_LEN = Some pub"
  using bytes_to_hex_facts [of DH_PUBKEY_LEN pub] assms by (simp add: hex_to_bytes_def hex_scan_digits)

lemma endpoint_read_back:
  assumes "h \<noteq> []" "length h < 249" "0 < p" "p \<le> 65535" "\<And>n. os_getaddrinfo E n h (int p) = Some (a)"
  shows "set_endpoint E junk (h @ CHR '':'' # dec p) pc w =
     ((True, pc\<lparr>endpoint_host := h, endpoint_port := int p, endpoint := a, has_endpoint := True\<rparr>),
      w\<lparr>calls := Suc (calls w)\<rparr>)"
proof -
  have "length (dec p) \<le> 5" if "p < 100000"
    using that by (simp add: dec.simps [of p] dec.simps [of "p div 10"] dec.simps [of "p div 10 div 10"]
      dec.simps [of "p div 10 div 10 div 10"] dec.simps [of "p div 10 div 10 div 10 div 10"])
  then have "endpoint_text junk (h @ CHR '':'' # dec p) = h @ CHR '':'' # dec p"
    using assms by (simp add: endpoint_text_def)
  with assms show ?thesis
    by (simp add: set_endpoint_def strrchr_split dec_not_special atoi_dec resolve_endpoint_def sys_getaddrinfo_def Let_def)
qed

text \<open>The machine inside a peer, event by event.\<close>

lemma step_new_peer:
  "ld_state l = S_PEERS_SEQ \<Longrightarrow> length (peer_configs (ld_peer l)) < MAX_PEERS \<Longrightarrow> load_step E b junk l YAML_MAPPING_START =
     l\<lparr>ld_peer := (ld_peer l)\<lparr>peer_configs := peer_configs (ld_peer l) @ [zero_config]\<rparr>, ld_state := S_PEER_MAP\<rparr>"
  by (simp add: load_step_def Let_def)

lemma step_peer_key:
  "ld_state l = S_PEER_MAP \<Longrightarrow> load_step E b junk l (YAML_SCALAR v) = l\<lparr>ld_peer_key := take 63 v, ld_state := S_PEER_VAL\<rparr>"
  by (simp add: load_step_def)

lemma step_peer_val:
  assumes "ld_state l = S_PEER_VAL" "peer_configs (ld_peer l) = pcs @ [pc]"
    and "ld_peer_key l = key" "ld_world l = w0" "set_peer_option E b junk key v pc w0 = ((True, pc'), w)"
  shows "load_step E b junk l (YAML_SCALAR v) =
     l\<lparr>ld_peer := (ld_peer l)\<lparr>peer_configs := pcs @ [pc']\<rparr>, ld_world := w, ld_state := S_PEER_MAP\<rparr>"
  using assms by (simp add: load_step_def upd_config_def)

lemma step_ips:
  "ld_state l = S_PEER_VAL \<Longrightarrow> ld_peer_key l = ''allowed_ips'' \<Longrightarrow>
     load_step E b junk l YAML_SEQUENCE_START = l\<lparr>ld_state := S_ALLOWED_IPS_SEQ\<rparr>"
  by (simp add: load_step_def)

lemma step_ends:
  "ld_state l = S_ALLOWED_IPS_SEQ \<Longrightarrow> load_step E b junk l YAML_SEQUENCE_END = l\<lparr>ld_state := S_PEER_MAP\<rparr>"
  "ld_state l = S_PEER_MAP \<Longrightarrow> load_step E b junk l YAML_MAPPING_END = l\<lparr>ld_state := S_PEERS_SEQ\<rparr>"
  by (simp_all add: load_step_def)

text \<open>Counting the calls of \<open>getaddrinfo\<close> makes the world after a peer explicit.\<close>

definition lookups :: "peer_spec \<Rightarrow> nat" where
  "lookups sp = (if sp_endpoint sp = None then 0 else 1)"

lemma endpoint_run:
  assumes "spec_ok sp" "\<And>n h p. os_getaddrinfo E n h p = Some (resolver h p)"
    and "ld_state l = S_PEER_MAP" "peer_configs (ld_peer l) = pcs @ [pc]"
  shows "run_steps (load_step E b junk) l
      ((case sp_endpoint sp of None \<Rightarrow> [] | Some (h, p) \<Rightarrow> [YAML_SCALAR ''endpoint'', YAML_SCALAR (h @ CHR '':'' # dec p)]) @
       [YAML_SCALAR ''allowed_ips'', YAML_SEQUENCE_START]) =
     l\<lparr>ld_state := S_ALLOWED_IPS_SEQ, ld_peer_key := ''allowed_ips'',
       ld_world := (ld_world l)\<lparr>calls := calls (ld_world l) + lookups sp\<rparr>,
       ld_peer := (ld_peer l)\<lparr>peer_configs := pcs @ [case sp_endpoint sp of None \<Rightarrow> pc | Some (h, p) \<Rightarrow>
         pc\<lparr>has_endpoint := True, endpoint := resolver h (int p), endpoint_host := h, endpoint_port := int p\<rparr>]\<rparr>\<rparr>"
proof (cases "sp_endpoint sp")
  case None
  have "(ld_peer l)\<lparr>peer_configs := pcs @ [pc]\<rparr> = ld_peer l" using assms(4) by simp
  with None assms(3) show ?thesis by (simp add: step_peer_key step_ips lookups_def)
next
  case (Some hp)
  obtain h p where hp: "hp = (h, p)" by fastforce
  have ok: "h \<noteq> []" "length h < 249" "0 < p" "p \<le> 65535" using assms(1) Some hp by (auto simp: spec_ok_def)
  have e: "set_peer_option E b junk ''endpoint'' (h @ CHR '':'' # dec p) pc w =
     ((True, pc\<lparr>endpoint_host := h, endpoint_port := int p, endpoint := resolver h (int p), has_endpoint := True\<rparr>),
      w\<lparr>calls := Suc (calls w)\<rparr>)" for w
    using endpoint_read_back [OF ok assms(2) [of _ h "int p"]] by (simp add: set_peer_option_def)
  show ?thesis
    using assms(3,4) by (simp add: Some hp step_peer_key step_peer_val [OF _ _ _ _ e] step_ips lookups_def)
qed

lemma peer_run:
  assumes "spec_ok sp" "\<And>n h p. os_getaddrinfo E n h p = Some (resolver h p)"
    and "ld_state l = S_PEERS_SEQ" "length (peer_configs (ld_peer l)) < MAX_PEERS"
  shows "run_steps (load_step E b junk) l (peer_events sp) =
     l\<lparr>ld_peer_key := ''allowed_ips'', ld_world := (ld_world l)\<lparr>calls := calls (ld_world l) + lookups sp\<rparr>,
       ld_peer := (ld_peer l)\<lparr>peer_configs := peer_configs (ld_peer l) @ [config_of resolver sp]\<rparr>\<rparr>"
proof -
  let ?pcs = "peer_configs (ld_peer l)"
  let ?at = "\<lambda>s key w pc. l\<lparr>ld_state := s, ld_peer_key := key, ld_world := w, ld_peer := (ld_peer l)\<lparr>peer_configs := ?pcs @ [pc]\<rparr>\<rparr>"
  let ?pc1 = "zero_config\<lparr>pc_pub := sp_pub sp\<rparr>"
  let ?pc2 = "case sp_endpoint sp of None \<Rightarrow> ?pc1 | Some (h, p) \<Rightarrow>
     ?pc1\<lparr>has_endpoint := True, endpoint := resolver h (int p), endpoint_host := h, endpoint_port := int p\<rparr>"
  let ?w = "(ld_world l)\<lparr>calls := calls (ld_world l) + lookups sp\<rparr>"
  have len: "length (sp_pub sp) = DH_PUBKEY_LEN" "length (sp_ips sp) \<le> MAX_ROUTES_PER_PEER"
      "\<And>v. v \<in> set (sp_ips sp) \<Longrightarrow> parse_cidr v \<noteq> None"
    using assms(1) by (auto simp: spec_ok_def)
  have z: "pc_route_count ?pc2 = 0" "pc_routes ?pc2 = replicate MAX_ROUTES_PER_PEER zero_prefix"
    by (simp_all add: zero_config_def split: option.split prod.split)
  have o: "set_peer_option E b junk ''public_key'' (bytes_to_hex (sp_pub sp) DH_PUBKEY_LEN) zero_config w = ((True, ?pc1), w)" for w
    by (simp add: set_peer_option_def pub_read_back [OF len(1)])
  have p: "run_steps (load_step E b junk) l
      [YAML_MAPPING_START, YAML_SCALAR ''public_key'', YAML_SCALAR (bytes_to_hex (sp_pub sp) DH_PUBKEY_LEN)]
      = ?at S_PEER_MAP ''public_key'' (ld_world l) ?pc1"
    using assms(3,4) by (simp add: step_new_peer step_peer_key step_peer_val [OF _ _ _ _ o])
  have e: "run_steps (load_step E b junk) (?at S_PEER_MAP ''public_key'' (ld_world l) ?pc1)
      ((case sp_endpoint sp of None \<Rightarrow> [] | Some (h, p) \<Rightarrow> [YAML_SCALAR ''endpoint'', YAML_SCALAR (h @ CHR '':'' # dec p)]) @
       [YAML_SCALAR ''allowed_ips'', YAML_SEQUENCE_START]) = ?at S_ALLOWED_IPS_SEQ ''allowed_ips'' ?w ?pc2"
    by (subst endpoint_run [OF assms(1,2), where pcs = ?pcs and pc = ?pc1]) simp_all
  have c: "?pc2\<lparr>pc_routes := map (\<lambda>v. the (parse_cidr v)) (sp_ips sp) @
        drop (length (sp_ips sp)) (replicate MAX_ROUTES_PER_PEER zero_prefix), pc_route_count := length (sp_ips sp)\<rparr>
      = config_of resolver sp"
    by (simp add: config_of_def Let_def split: option.split prod.split)
  have r: "run_steps (load_step E b junk) (?at S_ALLOWED_IPS_SEQ ''allowed_ips'' ?w ?pc2) (map YAML_SCALAR (sp_ips sp))
      = ?at S_ALLOWED_IPS_SEQ ''allowed_ips'' ?w (config_of resolver sp)"
    using len z c [symmetric] by (subst routes_run [where pcs = ?pcs and pc = ?pc2]) simp_all
  have ev: "peer_events sp = [YAML_MAPPING_START, YAML_SCALAR ''public_key'', YAML_SCALAR (bytes_to_hex (sp_pub sp) DH_PUBKEY_LEN)] @
      (((case sp_endpoint sp of None \<Rightarrow> [] | Some (h, p) \<Rightarrow> [YAML_SCALAR ''endpoint'', YAML_SCALAR (h @ CHR '':'' # dec p)]) @
       [YAML_SCALAR ''allowed_ips'', YAML_SEQUENCE_START]) @ (map YAML_SCALAR (sp_ips sp) @ [YAML_SEQUENCE_END, YAML_MAPPING_END]))"
    by (simp add: peer_events_def)
  show ?thesis
    using assms(3)
    by (subst ev, subst run_steps_append, subst p, subst run_steps_append, subst e, subst run_steps_append, subst r)
      (simp add: step_ends)
qed

lemma peers_run:
  assumes "\<And>n h p. os_getaddrinfo E n h p = Some (resolver h p)" "list_all spec_ok sps"
    and "ld_state l = S_PEERS_SEQ" "length (peer_configs (ld_peer l)) + length sps \<le> MAX_PEERS"
  shows "\<exists>key n. run_steps (load_step E b junk) l (concat (map peer_events sps)) =
     l\<lparr>ld_peer_key := key, ld_world := (ld_world l)\<lparr>calls := n\<rparr>,
       ld_peer := (ld_peer l)\<lparr>peer_configs := peer_configs (ld_peer l) @ map (config_of resolver) sps\<rparr>\<rparr>"
  using assms(2-)
proof (induction sps arbitrary: l)
  case Nil
  show ?case by (intro exI [of _ "ld_peer_key l"] exI [of _ "calls (ld_world l)"]) simp
next
  case (Cons sp sps)
  let ?l = "l\<lparr>ld_peer_key := ''allowed_ips'', ld_world := (ld_world l)\<lparr>calls := calls (ld_world l) + lookups sp\<rparr>,
       ld_peer := (ld_peer l)\<lparr>peer_configs := peer_configs (ld_peer l) @ [config_of resolver sp]\<rparr>\<rparr>"
  have p: "run_steps (load_step E b junk) l (peer_events sp) = ?l"
    using Cons.prems by (intro peer_run [OF _ assms(1)]) auto
  obtain key n where "run_steps (load_step E b junk) ?l (concat (map peer_events sps)) =
     ?l\<lparr>ld_peer_key := key, ld_world := (ld_world ?l)\<lparr>calls := n\<rparr>,
       ld_peer := (ld_peer ?l)\<lparr>peer_configs := peer_configs (ld_peer ?l) @ map (config_of resolver) sps\<rparr>\<rparr>"
    using Cons.IH [of ?l] Cons.prems by auto
  then show ?case by (intro exI [of _ key] exI [of _ n]) (simp add: p)
qed

lemma options_keep_configs:
  "peer_configs (snd (fold (\<lambda>(k, v). set_option k v) kvs (opts, st))) = peer_configs st"
proof (induction kvs arbitrary: opts st)
  case (Cons kv kvs)
  obtain k v where kv: "kv = (k, v)" by fastforce
  obtain opts' st' where s: "set_option k v (opts, st) = (opts', st')" by (metis surj_pair)
  show ?case using Cons.IH [of opts' st'] set_option_ok(3) [OF s] by (simp add: kv s)
qed simp

text \<open>All events of the file but the last.\<close>

lemma config_run:
  assumes "\<And>n h p. os_getaddrinfo E n h p = Some (resolver h p)" "list_all spec_ok sps"
    and "length sps \<le> MAX_PEERS" "list_all (\<lambda>kv. length (fst kv) < 64) kvs" "peer_configs st = []"
  shows "\<exists>key pkey n. run_steps (load_step E b junk) (start_loader opts st w) (butlast (config_events kvs sps)) =
     (let (opts', st') = fold (\<lambda>(k, v). set_option k v) kvs (opts, st)
      in \<lparr>ld_state = S_ROOT, ld_key = key, ld_peer_key = pkey, ld_ok = True, ld_opts = opts',
           ld_peer = st'\<lparr>peer_configs := map (config_of resolver) sps\<rparr>, ld_world = w\<lparr>calls := n\<rparr>\<rparr>)"
proof -
  obtain opts' st' where f: "fold (\<lambda>(k, v). set_option k v) kvs (opts, st) = (opts', st')" by (metis surj_pair)
  let ?run = "run_steps (load_step E b junk)"
  have pc: "peer_configs st' = []" using options_keep_configs [of kvs opts st] f assms(5) by simp
  have h: "?run (start_loader opts st w) [YAML_STREAM_START, YAML_DOCUMENT_START, YAML_MAPPING_START] = start_loader opts st w"
    by (simp add: load_step_def start_loader_def)
  obtain key where o: "?run (start_loader opts st w) (concat (map (\<lambda>(k, v). [YAML_SCALAR k, YAML_SCALAR v]) kvs)) =
      (start_loader opts st w)\<lparr>ld_key := key, ld_opts := opts', ld_peer := st'\<rparr>"
    using options_run [OF assms(4), where l = "start_loader opts st w" and E = E and b = b and junk = junk] f
    by (auto simp: start_loader_def)
  let ?l = "(start_loader opts st w)\<lparr>ld_state := S_PEERS_SEQ, ld_key := ''peers'', ld_opts := opts', ld_peer := st'\<rparr>"
  have s: "?run ((start_loader opts st w)\<lparr>ld_key := key, ld_opts := opts', ld_peer := st'\<rparr>)
      [YAML_SCALAR ''peers'', YAML_SEQUENCE_START] = ?l"
    by (simp add: load_step_def start_loader_def)
  obtain pkey n where p: "?run ?l (concat (map peer_events sps)) = ?l\<lparr>ld_peer_key := pkey, ld_world := (ld_world ?l)\<lparr>calls := n\<rparr>,
       ld_peer := (ld_peer ?l)\<lparr>peer_configs := peer_configs (ld_peer ?l) @ map (config_of resolver) sps\<rparr>\<rparr>"
    using peers_run [OF assms(1,2), where l = ?l and b = b and junk = junk] assms(3) pc by auto
  have "butlast (config_events kvs sps) = [YAML_STREAM_START, YAML_DOCUMENT_START, YAML_MAPPING_START] @
     (concat (map (\<lambda>(k, v). [YAML_SCALAR k, YAML_SCALAR v]) kvs) @ ([YAML_SCALAR ''peers'', YAML_SEQUENCE_START] @
     (concat (map peer_events sps) @ [YAML_SEQUENCE_END, YAML_MAPPING_END, YAML_DOCUMENT_END])))"
    by (simp add: config_events_def butlast_append)
  then have "?run (start_loader opts st w) (butlast (config_events kvs sps)) = ?l\<lparr>ld_state := S_ROOT, ld_peer_key := pkey,
      ld_world := w\<lparr>calls := n\<rparr>, ld_peer := st'\<lparr>peer_configs := map (config_of resolver) sps\<rparr>\<rparr>"
    by (simp only: run_steps_append h o s p) (simp add: load_step_def start_loader_def pc)
  then show ?thesis
    by (intro exI [of _ "''peers''"] exI [of _ pkey] exI [of _ n]) (simp add: f start_loader_def)
qed

section \<open>Properties\<close>

text \<open>C34. A prefix written as \<^verbatim>\<open>a.b.c.d/p\<close> is read as that prefix: \<open>parse_cidr\<close> accepts it, and the entry
  it makes matches exactly the addresses that agree with \<^verbatim>\<open>a.b.c.d\<close> in the first \<open>p\<close> bits.\<close>

theorem parse_cidr_meaning:
  assumes "a \<le> 255" "b \<le> 255" "c \<le> 255" "d \<le> 255" "p \<le> 32"
  shows "\<exists>r. parse_cidr (dotted a b c d @ ''/'' @ dec p) = Some r \<and> prefix_len r = int p \<and> prefix_wf r \<and>
     (\<forall>x. prefix_matches x r \<longleftrightarrow> unat x div 2 ^ (32 - p) = unat (ip_of a b c d) div 2 ^ (32 - p))"
proof -
  let ?m = "push_bit (32 - p) (-1) :: u32"
  let ?r = "\<lparr>network = ip_of a b c d AND ?m, mask = ?m, prefix_len = int p\<rparr>"
  have m: "(if int p = 0 then 0 else push_bit (nat (32 - int p)) (-1)) = ?m"
    by (auto simp: push_bit_eq_mult nat_diff_distrib' intro!: bit_word_eqI)
  have c: "cidr_prefix (dotted a b c d) (int p) = Some ?r"
    by (simp only: cidr_prefix_def inet_pton_dotted [OF assms(1-4)] option.case Let_def m)
  have "prefix_wf ?r" using cidr_prefix_wf [OF c] assms(5) by simp
  moreover have "prefix_matches x ?r \<longleftrightarrow> unat x div 2 ^ (32 - p) = unat (ip_of a b c d) div 2 ^ (32 - p)" for x
    using top_bits_eq [OF assms(5)] by (simp add: prefix_matches_def)
  ultimately show ?thesis using parse_cidr_dotted [OF assms] c by (intro exI [of _ ?r]) simp
qed

theorem parse_cidr_meaning_witness:
  "\<exists>r. parse_cidr ''10.9.0.1/24'' = Some r \<and> prefix_len r = 24 \<and> prefix_matches 0x0A0900FE r \<and> \<not> prefix_matches 0x0A090101 r"
proof -
  have "dotted 10 9 0 1 @ ''/'' @ dec 24 = ''10.9.0.1/24''" by (simp add: dotted_def dec_small digit_def)
  with parse_cidr_meaning [of 10 9 0 1 24] show ?thesis by (auto simp: ip_of_def)
qed

text \<open>C13. Whatever the file contains, the configuration that is read leaves the tables consistent: at most
  64 peers, each with a 32-byte key and at most 16 well-formed prefixes, an endpoint only with a host
  name and a port between 1 and 65535, every string inside its array, and no session or handshake.\<close>

theorem load_config_well_formed:
  assumes "load_config E bare0x junk file default_options init_state w = (ok, opts, st, w')"
  shows "peer_inv st \<and> length (peer_configs st) \<le> 64 \<and> length (tunnel_name opts) < 16 \<and> length (bind_address opts) < 64 \<and>
     length (keyfile opts) < 256 \<and> length (psk_text opts) < 256 \<and>
     list_all (\<lambda>c. length (pc_pub c) = 32 \<and> pc_route_count c \<le> 16 \<and>
        list_all prefix_wf (take (pc_route_count c) (pc_routes c)) \<and>
        (if has_endpoint c then endpoint_host c \<noteq> [] \<and> 1 \<le> endpoint_port c \<and> endpoint_port c \<le> 65535 else True))
       (peer_configs st)"
proof -
  have "fresh_tables st \<and> options_ok opts" by (rule load_config_ok [OF assms init_fresh])
  then show ?thesis
    by (auto simp: fresh_tables_inv fresh_tables_def options_ok_def entry_ok_def config_wf_def list_all_iff const_defs)
qed

text \<open>C12. A configuration that is written out is read back: on the events of a file with any root options
  and up to 64 well-formed peers, \<open>load_config\<close> succeeds, applies the options in order, and fills the
  table with exactly those peers, in order, each with its key, its resolved endpoint and its prefixes.\<close>

theorem load_config_reads_back:
  fixes E :: "('k, 'c, 'p) env"
  assumes "\<And>n h p. os_getaddrinfo E n h p = Some (resolver h p)" "list_all spec_ok sps" "length sps \<le> 64"
    and "list_all (\<lambda>kv. length (fst kv) < 64) kvs"
  shows "\<exists>w'. load_config E bare0x junk (Some (config_events kvs sps)) default_options init_state w =
     (let (opts, st) = fold (\<lambda>(k, v). set_option k v) kvs (default_options, init_state)
      in (True, opts, st\<lparr>peer_configs := map (config_of resolver) sps\<rparr>, w'))"
proof -
  obtain opts' st' where f: "fold (\<lambda>(k, v). set_option k v) kvs (default_options, init_state :: 'k peer_state) = (opts', st')"
    by (metis surj_pair)
  have "peer_configs init_state = []" by (simp add: init_state_def)
  then obtain key pkey n where r: "run_steps (load_step E bare0x junk) (start_loader default_options init_state w)
      (butlast (config_events kvs sps)) = \<lparr>ld_state = S_ROOT, ld_key = key, ld_peer_key = pkey, ld_ok = True,
        ld_opts = opts', ld_peer = st'\<lparr>peer_configs := map (config_of resolver) sps\<rparr>, ld_world = w\<lparr>calls := n\<rparr>\<rparr>"
    using config_run [OF assms(1), where sps = sps and kvs = kvs and st = init_state and b = bare0x and junk = junk
        and opts = default_options and w = w] assms(2-) f
    by (auto simp: MAX_PEERS_def)
  have "YAML_STREAM_END \<notin> set (butlast (config_events kvs sps))"
    by (auto simp: config_events_def butlast_append peer_events_def split: option.splits)
  moreover have "config_events kvs sps = butlast (config_events kvs sps) @ [YAML_STREAM_END]"
    by (simp add: config_events_def butlast_append)
  ultimately have "load_events E bare0x junk (start_loader default_options init_state w) (config_events kvs sps) =
      load_events E bare0x junk (run_steps (load_step E bare0x junk) (start_loader default_options init_state w)
        (butlast (config_events kvs sps))) [YAML_STREAM_END]"
    using load_events_append [of E bare0x junk _ "butlast (config_events kvs sps)" "[YAML_STREAM_END]"] r by simp
  then show ?thesis by (simp add: r load_config_def load_step_def f)
qed

definition sample_spec :: peer_spec where
  "sample_spec = \<lparr>sp_pub = be_bytes 32 7, sp_endpoint = Some (''relay'', 5040), sp_ips = [''10.0.0.0/8'']\<rparr>"

lemma sample_cidr: "parse_cidr ''10.0.0.0/8'' = cidr_prefix ''10.0.0.0'' 8" "inet_pton ''10.0.0.0'' = Some 0x0A000000"
  using parse_cidr_dotted [of 10 0 0 0 8] inet_pton_dotted [of 10 0 0 0]
  by (simp_all add: dotted_def dec_small digit_def ip_of_def)

theorem load_config_well_formed_witness:
  "\<exists>opts st w'. load_config sample_env True [] (Some [YAML_STREAM_START, YAML_SCALAR ''peers'', YAML_SEQUENCE_START,
      YAML_MAPPING_START, YAML_SCALAR ''allowed_ips'', YAML_SEQUENCE_START, YAML_SCALAR ''10.0.0.0/8'', YAML_SEQUENCE_END,
      YAML_MAPPING_END, YAML_SEQUENCE_END, YAML_STREAM_END]) default_options init_state fresh_world = (True, opts, st, w') \<and>
    length (peer_configs st) = 1 \<and> peer_inv st"
proof -
  let ?c = "load_config sample_env True [] (Some [YAML_STREAM_START, YAML_SCALAR ''peers'', YAML_SEQUENCE_START,
      YAML_MAPPING_START, YAML_SCALAR ''allowed_ips'', YAML_SEQUENCE_START, YAML_SCALAR ''10.0.0.0/8'', YAML_SEQUENCE_END,
      YAML_MAPPING_END, YAML_SEQUENCE_END, YAML_STREAM_END]) default_options init_state fresh_world"
  obtain ok opts st w' where c: "?c = (ok, opts, st, w')" by (metis surj_pair)
  moreover have "ok \<and> length (peer_configs st) = 1"
    using c by (auto simp: load_config_def start_loader_def load_step_def init_state_def MAX_PEERS_def add_route_def
      zero_config_def MAX_ROUTES_PER_PEER_def upd_config_def sample_cidr cidr_prefix_def Let_def)
  ultimately show ?thesis using load_config_well_formed [OF c] by auto
qed

theorem load_config_reads_back_witness:
  "\<exists>w'. load_config sample_env True [] (Some (config_events [(''interface'', ''tun0''), (''port'', ''5041'')] [sample_spec]))
      default_options init_state fresh_world =
     (True, default_options\<lparr>tunnel_name := ''tun0'', udp_port := 5041\<rparr>,
      init_state\<lparr>peer_configs := [config_of (\<lambda>h p. \<lparr>s_addr = 0x0a000001, sin_port = 5040\<rparr>) sample_spec]\<rparr>, w')"
proof -
  have "spec_ok sample_spec"
    by (simp add: spec_ok_def sample_spec_def sample_cidr cidr_prefix_def const_defs Let_def)
  moreover have "atoi ''5041'' = 5041" using atoi_dec [of 5041] by (simp add: dec.simps digit_def)
  moreover have "os_getaddrinfo sample_env n h p = Some \<lparr>s_addr = 0x0a000001, sin_port = 5040\<rparr>" for n h p
    by (simp add: sample_env_def)
  ultimately show ?thesis
    using load_config_reads_back [of sample_env "\<lambda>h p. \<lparr>s_addr = 0x0a000001, sin_port = 5040\<rparr>" "[sample_spec]"
        "[(''interface'', ''tun0''), (''port'', ''5041'')]" True "[]" fresh_world]
    by (simp add: set_option_def)
qed

end
