(* ===== verification/Startup.thy ===== *)
theory Startup
  imports Config Buffers
begin

text \<open>
  The start of the program: \<open>alloc_tunnel\<close> and \<open>open_tunnel\<close> of \<^verbatim>\<open>src/src/common.c\<close>, \<open>start_peer\<close> and \<open>main\<close>
  of \<^verbatim>\<open>src/src/peer.c\<close>. What the kernel answers to the set-up calls is the record \<open>host\<close>. Socket options
  and the release of descriptors at the end are not modelled: they have no effect the program observes.
\<close>

section \<open>The code\<close>

text \<open>
  \<open>tun_ioctl\<close> is \<^verbatim>\<open>TUNSETIFF\<close> with the flags and the requested name; it returns the name of the interface.
  \<open>yaml_file\<close> is what the YAML parser delivers for a path.
\<close>

record host =
  tun_open :: bool
  tun_ioctl :: "nat \<Rightarrow> string \<Rightarrow> string option"
  socket_ok :: bool
  bind_ok :: "sockaddr_in \<Rightarrow> bool"
  epoll_ok :: bool
  yaml_file :: "string \<Rightarrow> yaml_event list option"

definition IFF_TUN :: nat where "IFF_TUN = 0x0001"
definition IFF_NO_PI :: nat where "IFF_NO_PI = 0x1000"
definition IFNAMSIZ :: nat where "IFNAMSIZ = 16"

definition alloc_tunnel :: "host \<Rightarrow> string \<Rightarrow> nat \<Rightarrow> string option" where
  "alloc_tunnel H dev flags =
     (if \<not> tun_open H then None
      else tun_ioctl H flags (if dev \<noteq> [] then take IFNAMSIZ dev else []))"

definition open_tunnel :: "host \<Rightarrow> string \<Rightarrow> string option" where
  "open_tunnel H tunnel = alloc_tunnel H tunnel (IFF_TUN + IFF_NO_PI)"

text \<open>How the process ends: \<open>exit\<close> with a code, or the return of \<open>main\<close> after the event loop.\<close>

datatype 'k outcome = Exit int world | Returns "'k loop_state"

definition start_peer ::
    "('k, 'c, 'p) env \<Rightarrow> host \<Rightarrow> string \<Rightarrow> string \<Rightarrow> int \<Rightarrow> int \<Rightarrow> bytes option \<Rightarrow> 'k \<Rightarrow> bytes
       \<Rightarrow> (signal list \<times> wait_result) list \<Rightarrow> 'k peer_state \<Rightarrow> world \<Rightarrow> 'k outcome" where
  "start_peer E H tunnel address port keepalive_interval psk_key my_key my_pub inputs st w =
     (case open_tunnel H tunnel of
        None \<Rightarrow> Exit 1 w
      | Some dev \<Rightarrow>
          if \<not> socket_ok H then Exit 1 w
          else
            (case (if address \<noteq> [] then inet_pton address else Some 0) of
               None \<Rightarrow> Exit 1 w
             | Some a \<Rightarrow>
                 if \<not> bind_ok H \<lparr>s_addr = a, sin_port = word_of_int port\<rparr> then Exit 1 w
                 else
                   let (st1, w1) = refresh_precomp_eph E st w
                   in Returns (event_loop E (epoll_ok H) my_key my_pub psk_key keepalive_interval inputs st1 w1)))"

text \<open>One result of \<open>getopt\<close>: \<open>-c\<close> with its argument, or an unknown option.\<close>

datatype cli_option = Opt_c string | Opt_unknown

fun config_path :: "cli_option list \<Rightarrow> string \<Rightarrow> string option" where
  "config_path [] path = Some path"
| "config_path (Opt_c optarg # opts) path = config_path opts optarg"
| "config_path (Opt_unknown # opts) path = None"

text \<open>The checks of \<open>main\<close> between reading the configuration and loading the key.\<close>

definition config_valid :: "options \<Rightarrow> 'k peer_state \<Rightarrow> bool" where
  "config_valid opts st \<longleftrightarrow>
     tunnel_name opts \<noteq> [] \<and> length (peer_configs st) \<noteq> 0 \<and> \<not> (udp_port opts \<le> 0 \<or> udp_port opts > 65535) \<and>
     \<not> keepalive_secs opts \<le> 0 \<and> \<not> cfg_rekey_after st \<le> 0 \<and> \<not> cfg_reconnect_interval st \<le> 0 \<and>
     \<not> cfg_session_expiry st \<le> cfg_rekey_after st \<and> \<not> cfg_prev_key_grace st \<le> 0 \<and>
     \<not> cfg_handshake_timeout st \<le> 0 \<and> \<not> cfg_handshake_cooldown st \<le> 0"

definition main ::
    "('k, 'c, 'p) env \<Rightarrow> host \<Rightarrow> bool \<Rightarrow> string \<Rightarrow> cli_option list \<Rightarrow> (signal list \<times> wait_result) list \<Rightarrow> world
       \<Rightarrow> 'k outcome" where
  "main E H bare0x junk args inputs w =
     (case config_path args ''peer.yaml'' of
        None \<Rightarrow> Exit 1 w
      | Some path \<Rightarrow>
          (case load_config E bare0x junk (yaml_file H path) default_options init_state w of
             (ok, opts, st, w1) \<Rightarrow>
               if \<not> ok then Exit 1 w1
               else if \<not> config_valid opts st then Exit 1 w1
               else
                 (case load_static_key E (keyfile opts) w1 of
                    (None, w2) \<Rightarrow> Exit 1 w2
                  | (Some (my_key, my_pub), w2) \<Rightarrow>
                      start_peer E H (tunnel_name opts) (bind_address opts) (udp_port opts) (keepalive_secs opts)
                        (if has_psk opts then Some (derive_key E (psk_text opts)) else None) my_key my_pub inputs st w2)))"

section \<open>The settings stay\<close>

definition valid_settings :: "'k peer_state \<Rightarrow> bool" where
  "valid_settings st \<longleftrightarrow> 0 < cfg_rekey_after st \<and> cfg_rekey_after st < cfg_session_expiry st \<and> 0 < cfg_reconnect_interval st \<and>
     0 < cfg_prev_key_grace st \<and> 0 < cfg_handshake_timeout st \<and> 0 < cfg_handshake_cooldown st"

lemma valid_settings_cong: "snd (settings st') = snd (settings st) \<Longrightarrow> valid_settings st' = valid_settings st"
  by (simp add: settings_def valid_settings_def)

lemma signal_settings: "snd (settings (fold handle_signal sigs st)) = snd (settings st)"
  by (induction sigs arbitrary: st) (simp_all add: handle_signal_def settings_def)

lemma loop_step_settings:
  "snd (settings (peer (loop_step E my_key my_pub psk ki l inp))) = snd (settings (peer l))"
proof (cases "finished l \<or> stop_flag (peer l)")
  case True
  then show ?thesis by (simp add: loop_step_def)
next
  case False
  obtain now w1 where t: "sys_time E (wrld l) = (now, w1)" by (metis surj_pair)
  obtain st2 w2 where p: "(if now - last_rekey_check l \<ge> 10 then periodic E my_pub psk ki now (peer l) w1
      else (peer l, w1)) = (st2, w2)" by (metis surj_pair)
  have s: "snd (settings (fold handle_signal (fst inp) st2)) = snd (settings (peer l))"
    using p periodic_frame [of E my_pub psk ki now "peer l" w1] by (auto simp: signal_settings split: if_splits)
  have "snd (settings st4) = snd (settings (peer l))"
    if "handle_events E my_key my_pub psk evs (fold handle_signal (fst inp) st2\<lparr>print_sessions_flag := False\<rparr>) w2 = (fin, st4, w4)"
    for evs fin st4 w4
    using events_frame [OF that] s by simp
  then show ?thesis
    using False s by (auto simp: loop_step_def t p Let_def split: wait_result.split prod.splits)
qed

interpretation loop_settings: inv_machine "loop_step E my_key my_pub psk ki" "\<lambda>l. valid_settings (peer l)"
  by unfold_locales (simp add: valid_settings_cong [OF loop_step_settings])

lemma event_loop_settings:
  "valid_settings st \<Longrightarrow> valid_settings (peer (event_loop E ok my_key my_pub psk ki inputs st w))"
  by (simp add: event_loop_def sys_cipher_ctx_def Let_def loop_settings.run_inv)

lemma event_loop_inv: "peer_inv st \<Longrightarrow> peer_inv (peer (event_loop E ok my_key my_pub psk ki inputs st w))"
  by (simp add: event_loop_def sys_cipher_ctx_def Let_def loop.run_inv)

lemma event_loop_io:
  assumes "length (precomp_eph_pub st) = DH_PUBKEY_LEN" "trace w = []"
  shows "io_inv E my_pub (event_loop E ok my_key my_pub psk ki inputs st w)"
proof -
  have "io_inv E my_pub \<lparr>last_rekey_check = 0, finished = fin, peer = st, wrld = w\<lparr>calls := n\<rparr>\<rparr>" for fin n
    using assms by (simp add: io_inv_def)
  then show ?thesis by (auto simp: event_loop_def sys_cipher_ctx_def Let_def intro: loop_io.run_inv)
qed

section \<open>Reading the configuration has no effect outside\<close>

definition quiet :: "world \<Rightarrow> world \<Rightarrow> bool" where
  "quiet w w' \<longleftrightarrow> trace w' = trace w \<and> files w' = files w"

lemma quiet_trans: "quiet a b \<Longrightarrow> quiet b c \<Longrightarrow> quiet a c"
  by (simp add: quiet_def)

lemma set_peer_option_quiet: "set_peer_option E b junk key v pc w = ((r, pc'), w') \<Longrightarrow> quiet w w'"
  by (auto simp: set_peer_option_def set_endpoint_def resolve_endpoint_def sys_getaddrinfo_def quiet_def Let_def
        split: if_splits option.splits)

lemma load_step_quiet: "quiet (ld_world l) (ld_world (load_step E b junk l ev))"
proof -
  have s: "quiet w w" for w by (simp add: quiet_def)
  show ?thesis
    by (cases "ld_state l"; cases ev)
       (auto simp: load_step_def s Let_def dest: set_peer_option_quiet split: prod.splits)
qed

interpretation loader_quiet: inv_machine "load_step E b junk" "\<lambda>l. quiet w (ld_world l)" for w
  by unfold_locales (rule quiet_trans [OF _ load_step_quiet])

lemma load_config_quiet:
  assumes "load_config E b junk yaml opts st w = (ok, opts', st', w')"
  shows "quiet w w'"
proof (cases yaml)
  case None
  then show ?thesis using assms by (simp add: load_config_def quiet_def)
next
  case (Some evs)
  let ?l = "start_loader opts st w"
  have "quiet w (ld_world ?l)" by (simp add: start_loader_def quiet_def)
  then have "quiet w (ld_world (run_steps (load_step E b junk) ?l (take n evs)))" for n
    by (rule loader_quiet.run_prefix_inv)
  then have "quiet w (ld_world (load_events E b junk ?l evs))"
    using load_events_run [of E b junk ?l evs] by auto
  with assms Some show ?thesis by (simp add: load_config_def Let_def)
qed

lemma load_static_key_quiet: "load_static_key E path w = (r, w') \<Longrightarrow> quiet w w'"
  by (auto simp: load_static_key_def sys_fopen_rb_def quiet_def split: option.splits if_splits)

lemma load_static_key_pub:
  "load_static_key E path w = (Some (k, pub), w') \<Longrightarrow> EVP_PKEY_get_raw_public_key E k = Some pub"
  by (auto simp: load_static_key_def split: option.splits prod.splits)

lemma refresh_fresh:
  assumes "refresh_precomp_eph E st w = (st', w')"
  shows "quiet w w'"
    "pub_length E \<Longrightarrow> length (precomp_eph_pub st) = DH_PUBKEY_LEN \<Longrightarrow> length (precomp_eph_pub st') = DH_PUBKEY_LEN"
  using assms
  by (auto simp: refresh_precomp_eph_def generate_eph_keypair_def sys_keygen_def quiet_def pub_length_def
        split: option.splits)

lemma load_static_key_SomeD:
  assumes "load_static_key E path w = (Some (k, pub), w')"
  shows "\<exists>pem. files w path = Some pem \<and> PEM_read_PrivateKey E pem = Some k \<and> EVP_PKEY_get_raw_public_key E k = Some pub"
  using assms by (auto simp: load_static_key_def sys_fopen_rb_def split: option.splits prod.splits if_splits)

text \<open>The file \<open>main\<close> reads is the argument of the last \<open>-c\<close>.\<close>

fun c_args :: "cli_option list \<Rightarrow> string list" where
  "c_args [] = []"
| "c_args (Opt_c p # opts) = p # c_args opts"
| "c_args (Opt_unknown # opts) = c_args opts"

lemma config_path_last: "config_path args path = (if Opt_unknown \<in> set args then None else Some (last (path # c_args args)))"
  by (induction args path rule: config_path.induct) auto

lemma start_peer_Returns:
  assumes "start_peer E H tunnel address port ki psk my_key my_pub inputs st w = Returns l"
  obtains a st1 w1 where "tun_open H" "tun_ioctl H (IFF_TUN + IFF_NO_PI) (take IFNAMSIZ tunnel) \<noteq> None" "socket_ok H"
    and "(if address = [] then Some 0 else inet_pton address) = Some a" "bind_ok H \<lparr>s_addr = a, sin_port = word_of_int port\<rparr>"
    and "refresh_precomp_eph E st w = (st1, w1)" "l = event_loop E (epoll_ok H) my_key my_pub psk ki inputs st1 w1"
proof -
  obtain st1 w1 where "refresh_precomp_eph E st w = (st1, w1)" by (metis surj_pair)
  then show ?thesis using assms that
    by (auto simp: start_peer_def open_tunnel_def alloc_tunnel_def split: option.splits if_splits)
qed

text \<open>Everything that is true when the event loop is entered.\<close>

lemma main_Returns:
  assumes "main E H b junk args inputs w = Returns l"
  obtains path opts st w1 my_key my_pub w2 where "config_path args ''peer.yaml'' = Some path"
    and "load_config E b junk (yaml_file H path) default_options init_state w = (True, opts, st, w1)" "config_valid opts st"
    and "load_static_key E (keyfile opts) w1 = (Some (my_key, my_pub), w2)"
    and "start_peer E H (tunnel_name opts) (bind_address opts) (udp_port opts) (keepalive_secs opts)
      (if has_psk opts then Some (derive_key E (psk_text opts)) else None) my_key my_pub inputs st w2 = Returns l"
proof -
  obtain path where p: "config_path args ''peer.yaml'' = Some path" using assms by (auto simp: main_def split: option.splits)
  obtain ok opts st w1 where c: "load_config E b junk (yaml_file H path) default_options init_state w = (ok, opts, st, w1)"
    by (metis surj_pair)
  have v: "ok" "config_valid opts st" using assms by (auto simp: main_def p c split: if_splits)
  obtain k pub w2 where s: "load_static_key E (keyfile opts) w1 = (Some (k, pub), w2)"
    using assms by (auto simp: main_def p c split: if_splits option.splits prod.splits)
  show ?thesis using that [OF p _ v(2) s] c v assms by (simp add: main_def p s)
qed

lemma main_enters:
  assumes "main E H b junk args inputs w = Returns l"
  obtains st w1 my_key my_pub psk ki where "l = event_loop E (epoll_ok H) my_key my_pub psk ki inputs st w1"
    and "peer_inv st" "valid_settings st" "quiet w w1" "EVP_PKEY_get_raw_public_key E my_key = Some my_pub"
    and "pub_length E \<Longrightarrow> length (precomp_eph_pub st) = DH_PUBKEY_LEN"
  using assms
proof (rule main_Returns)
  fix path opts st w1 my_key my_pub w2
  assume c: "load_config E b junk (yaml_file H path) default_options init_state w = (True, opts, st, w1)"
    and v: "config_valid opts st" and s: "load_static_key E (keyfile opts) w1 = (Some (my_key, my_pub), w2)"
    and p: "start_peer E H (tunnel_name opts) (bind_address opts) (udp_port opts) (keepalive_secs opts)
      (if has_psk opts then Some (derive_key E (psk_text opts)) else None) my_key my_pub inputs st w2 = Returns l"
  from p obtain st1 w3 where r: "refresh_precomp_eph E st w2 = (st1, w3)" and l: "l = event_loop E (epoll_ok H) my_key my_pub
      (if has_psk opts then Some (derive_key E (psk_text opts)) else None) (keepalive_secs opts) inputs st1 w3"
    by (rule start_peer_Returns)
  have f: "fresh_tables st" using load_config_ok [OF c init_fresh] by simp
  have "valid_settings st1"
    using v valid_settings_cong [of st1 st] refresh_frame [OF r] by (simp add: config_valid_def valid_settings_def)
  moreover have "quiet w w3"
    using load_config_quiet [OF c] load_static_key_quiet [OF s] refresh_fresh(1) [OF r] by (simp add: quiet_def)
  moreover have "peer_inv st1" by (rule refresh_precomp_eph_inv [OF fresh_tables_inv [OF f] r])
  moreover have "length (precomp_eph_pub st1) = DH_PUBKEY_LEN" if "pub_length E"
    using refresh_fresh(2) [OF r that] f by (simp add: fresh_tables_def)
  ultimately show ?thesis using that l load_static_key_pub [OF s] by blast
qed

lemma main_Exit:
  assumes "main E H bare0x junk args inputs w = Exit code w'"
  shows "code = 1 \<and> quiet w w'"
proof (cases "config_path args ''peer.yaml''")
  case None
  then show ?thesis using assms by (simp add: main_def quiet_def)
next
  case (Some path)
  obtain ok opts st w1 where c: "load_config E bare0x junk (yaml_file H path) default_options init_state w = (ok, opts, st, w1)"
    by (metis surj_pair)
  obtain k w2 where s: "load_static_key E (keyfile opts) w1 = (k, w2)" by (metis surj_pair)
  have q: "quiet w w1" "quiet w w2"
    using load_config_quiet [OF c] load_static_key_quiet [OF s] by (auto intro: quiet_trans)
  have p: "code' = 1 \<and> w'' = w2" if "start_peer E H tunnel address port ki psk key pub inputs st w2 = Exit code' w''"
    for tunnel address port ki psk key pub code' w''
    using that by (auto simp: start_peer_def split: option.splits if_splits prod.splits)
  show ?thesis
    using assms q by (auto simp: main_def Some c s split: if_splits option.splits dest!: p)
qed

section \<open>Properties\<close>

text \<open>C5. The program as a whole, from \<open>main\<close>: whatever the configuration file, the answers of the system
  and the packets and signals, if the event loop is reached at all then at every point where it stops the
  tables are consistent, the validated settings still hold, and everything that was sent or written fits
  the buffers.\<close>

theorem program_invariant:
  assumes "main E H bare0x junk args inputs w = Returns l" "trace w = []"
    and "gcm_correct E" "gcm_authentic E" "rand_fills E" "hmac_length E" "pub_length E"
  shows "peer_inv (peer l) \<and> valid_settings (peer l) \<and> list_all fits (trace (wrld l))"
  using assms(1)
proof (rule main_enters)
  fix st w1 my_key my_pub psk ki
  assume l: "l = event_loop E (epoll_ok H) my_key my_pub psk ki inputs st w1"
    and st: "peer_inv st" "valid_settings st" "quiet w w1" "EVP_PKEY_get_raw_public_key E my_key = Some my_pub"
    and pub: "pub_length E \<Longrightarrow> length (precomp_eph_pub st) = DH_PUBKEY_LEN"
  have "size_laws E my_pub" using assms st(4) by (auto simp: size_laws_def pub_length_def)
  moreover have "io_inv E my_pub l"
    using pub [OF assms(7)] st(3) assms(2) unfolding l by (intro event_loop_io) (simp_all add: quiet_def)
  ultimately have "list_all fits (trace (wrld l))" by (simp add: io_inv_def list_all_iff)
  then show ?thesis by (simp add: l event_loop_settings [OF st(2)] event_loop_inv [OF st(1)])
qed

text \<open>A concrete start: a file with an interface and one peer, a key file, and a host on which every call succeeds.\<close>

definition sample_yaml :: "yaml_event list" where
  "sample_yaml = [YAML_STREAM_START, YAML_SCALAR ''interface'', YAML_SCALAR ''tun0'', YAML_SCALAR ''peers'',
     YAML_SEQUENCE_START, YAML_MAPPING_START, YAML_SCALAR ''allowed_ips'', YAML_SEQUENCE_START,
     YAML_SCALAR ''10.0.0.0/8'', YAML_SEQUENCE_END, YAML_MAPPING_END, YAML_SEQUENCE_END, YAML_STREAM_END]"

definition sample_host :: host where
  "sample_host = \<lparr>tun_open = True, tun_ioctl = (\<lambda>_ name. Some name), socket_ok = True, bind_ok = (\<lambda>_. True),
     epoll_ok = True, yaml_file = (\<lambda>_. Some sample_yaml)\<rparr>"

definition keyed_world :: world where
  "keyed_world = fresh_world\<lparr>files := [''peer.key'' \<mapsto> be_bytes 32 3]\<rparr>"

lemma sample_load:
  obtains c where "load_config sample_env True [] (Some sample_yaml) default_options init_state keyed_world =
     (True, default_options\<lparr>tunnel_name := ''tun0''\<rparr>, init_state\<lparr>peer_configs := [c]\<rparr>, keyed_world)"
  by (simp add: sample_yaml_def load_config_def start_loader_def load_step_def init_state_def MAX_PEERS_def add_route_def
      zero_config_def MAX_ROUTES_PER_PEER_def upd_config_def sample_cidr cidr_prefix_def set_option_def Let_def)

lemma sample_valid: "config_valid (default_options\<lparr>tunnel_name := ''tun0''\<rparr>) (init_state\<lparr>peer_configs := [c]\<rparr>)"
  by (simp add: config_valid_def default_options_def init_state_def const_defs)

lemma sample_main: "\<exists>l. main sample_env sample_host True [] [] inputs keyed_world = Returns l"
proof -
  obtain c where c: "load_config sample_env True [] (Some sample_yaml) default_options init_state keyed_world =
     (True, default_options\<lparr>tunnel_name := ''tun0''\<rparr>, init_state\<lparr>peer_configs := [c]\<rparr>, keyed_world)"
    by (rule sample_load)
  have "\<exists>k w. load_static_key sample_env ''peer.key'' keyed_world = (Some k, w)"
    by (auto simp: load_static_key_def sys_fopen_rb_def keyed_world_def sample_env_def)
  then obtain k pub w where k: "load_static_key sample_env ''peer.key'' keyed_world = (Some (k, pub), w)" by auto
  have o: "keyfile (default_options\<lparr>tunnel_name := ''tun0''\<rparr>) = ''peer.key''"
      "bind_address (default_options\<lparr>tunnel_name := ''tun0''\<rparr>) = []"
    by (simp_all add: default_options_def)
  show ?thesis
    using c k o sample_valid
    by (simp add: main_def sample_host_def start_peer_def open_tunnel_def alloc_tunnel_def split: prod.split)
qed

theorem program_invariant_witness:
  "\<exists>l. main sample_env sample_host True [] [] [([], Wait_Ready [Udp_In (Some ([1, 2, 3], addr_a))]), ([SIGTERM], Wait_Interrupted)]
       keyed_world = Returns l \<and> peer_inv (peer l) \<and> valid_settings (peer l) \<and> list_all fits (trace (wrld l))"
proof -
  obtain l where l: "main sample_env sample_host True [] []
      [([], Wait_Ready [Udp_In (Some ([1, 2, 3], addr_a))]), ([SIGTERM], Wait_Interrupted)] keyed_world = Returns l"
    using sample_main by blast
  have "trace keyed_world = []" by (simp add: keyed_world_def fresh_world_def)
  from program_invariant [OF l this sample_gcm_correct sample_gcm_authentic sample_rand_fills sample_laws(1,3)] l
  show ?thesis by blast
qed

text \<open>C21. The loop runs only on a configuration that was checked: when \<open>main\<close> gets to the event loop, no option was
  unknown, the file named by the last \<open>-c\<close> (or \<^verbatim>\<open>peer.yaml\<close>) was read without error, it names an interface and at least
  one peer, the port is between 1 and 65535, all intervals are positive and sessions expire only after
  they are due for a rekey, the key file holds a private key, the kernel gave the TUN device of that name
  and a socket bound to exactly the configured address and port, and the loop is given that key, the hash of the PSK
  exactly when one is configured, and the tables as loaded. In every other case the program exits with
  code 1, and nothing was sent, written to the tunnel or stored in a file.\<close>

theorem start_checked:
  "case main E H bare0x junk args inputs w of
     Exit code w' \<Rightarrow> code = 1 \<and> trace w' = trace w \<and> files w' = files w
   | Returns l \<Rightarrow> Opt_unknown \<notin> set args \<and>
       (\<exists>opts st w1 my_key my_pub pem a w2 st1 w3.
          load_config E bare0x junk (yaml_file H (last (''peer.yaml'' # c_args args))) default_options init_state w = (True, opts, st, w1) \<and>
          tunnel_name opts \<noteq> [] \<and> peer_configs st \<noteq> [] \<and> udp_port opts \<in> {1..65535} \<and> 0 < keepalive_secs opts \<and>
          0 < cfg_rekey_after st \<and> cfg_rekey_after st < cfg_session_expiry st \<and> 0 < cfg_reconnect_interval st \<and>
          0 < cfg_prev_key_grace st \<and> 0 < cfg_handshake_timeout st \<and> 0 < cfg_handshake_cooldown st \<and>
          files w (keyfile opts) = Some pem \<and> PEM_read_PrivateKey E pem = Some my_key \<and>
          EVP_PKEY_get_raw_public_key E my_key = Some my_pub \<and>
          tun_open H \<and> tun_ioctl H 0x1001 (take 16 (tunnel_name opts)) \<noteq> None \<and> socket_ok H \<and>
          (if bind_address opts = [] then a = 0 else inet_pton (bind_address opts) = Some a) \<and>
          bind_ok H \<lparr>s_addr = a, sin_port = word_of_int (udp_port opts)\<rparr> \<and>
          refresh_precomp_eph E st w2 = (st1, w3) \<and> trace w3 = trace w \<and> files w3 = files w \<and>
          l = event_loop E (epoll_ok H) my_key my_pub (if has_psk opts then Some (derive_key E (psk_text opts)) else None)
            (keepalive_secs opts) inputs st1 w3)"
proof (cases "main E H bare0x junk args inputs w")
  case (Exit code w')
  then show ?thesis using main_Exit [OF Exit] by (simp add: quiet_def)
next
  case (Returns l)
  then show ?thesis
  proof (rule main_Returns)
    fix path opts st w1 my_key my_pub w2
    assume p: "config_path args ''peer.yaml'' = Some path"
      and c: "load_config E bare0x junk (yaml_file H path) default_options init_state w = (True, opts, st, w1)"
      and v: "config_valid opts st" and s: "load_static_key E (keyfile opts) w1 = (Some (my_key, my_pub), w2)"
      and "start_peer E H (tunnel_name opts) (bind_address opts) (udp_port opts) (keepalive_secs opts)
        (if has_psk opts then Some (derive_key E (psk_text opts)) else None) my_key my_pub inputs st w2 = Returns l"
    from this(5) obtain a st1 w3 where h: "tun_open H" "tun_ioctl H (IFF_TUN + IFF_NO_PI) (take IFNAMSIZ (tunnel_name opts)) \<noteq> None" "socket_ok H"
        "(if bind_address opts = [] then Some 0 else inet_pton (bind_address opts)) = Some a" "bind_ok H \<lparr>s_addr = a, sin_port = word_of_int (udp_port opts)\<rparr>"
        and r: "refresh_precomp_eph E st w2 = (st1, w3)" and l: "l = event_loop E (epoll_ok H) my_key my_pub
          (if has_psk opts then Some (derive_key E (psk_text opts)) else None) (keepalive_secs opts) inputs st1 w3"
      by (rule start_peer_Returns)
    have q: "quiet w w1" "quiet w w3"
      using load_config_quiet [OF c] load_static_key_quiet [OF s] refresh_fresh(1) [OF r] by (simp_all add: quiet_def)
    obtain pem where k: "files w (keyfile opts) = Some pem" "PEM_read_PrivateKey E pem = Some my_key" "EVP_PKEY_get_raw_public_key E my_key = Some my_pub"
      using load_static_key_SomeD [OF s] q(1) by (auto simp: quiet_def)
    have "Opt_unknown \<notin> set args" "path = last (''peer.yaml'' # c_args args)"
      using p by (simp_all only: config_path_last split: if_splits) simp_all
    moreover have "udp_port opts \<in> {1..65535}" using v by (auto simp: config_valid_def)
    moreover have "(if bind_address opts = [] then a = 0 else inet_pton (bind_address opts) = Some a)" using h(4) by (simp split: if_splits)
    moreover have "tun_ioctl H 0x1001 (take 16 (tunnel_name opts)) \<noteq> None" using h(2) by (simp add: IFF_TUN_def IFF_NO_PI_def IFNAMSIZ_def)
    ultimately show ?thesis
      unfolding Returns outcome.case
      using c v k h(1,3,5) r l q(2) by (intro conjI exI [of _ opts] exI [of _ st] exI [of _ w1] exI [of _ my_key] exI [of _ my_pub] exI [of _ pem]
          exI [of _ a] exI [of _ w2] exI [of _ st1] exI [of _ w3]) (simp_all add: config_valid_def quiet_def)
  qed
qed

text \<open>The identity that \<open>load_or_generate_static_key\<close> generates survives a restart. (The function is part of the library
  but \<open>main\<close> does not call it: it loads a PEM key with \<open>load_static_key\<close>.) When no key file exists it
  makes and saves a key, and the next call reads back a key with the same public key, provided the file
  was stored completely and OpenSSL reads back the private keys it prints. When only a part was stored
  (which the function does not check), it reports success all the same and the next call fails.\<close>

theorem static_key_persists:
  assumes "load_or_generate_static_key E path w = (Some (k, pub), w')" "files w path = None"
    and "os_fopen E (calls w')"
    and "\<And>k priv. EVP_PKEY_get_raw_private_key E k = Some priv \<Longrightarrow> length priv = DH_PUBKEY_LEN \<and>
       (\<exists>k'. EVP_PKEY_new_raw_private_key E priv = Some k' \<and> EVP_PKEY_get_raw_public_key E k' = EVP_PKEY_get_raw_public_key E k)"
  defines "stored \<equiv> os_fwrite E (calls w' - 1) DH_PUBKEY_LEN"
  shows "(if DH_PUBKEY_LEN \<le> stored then \<exists>k'. fst (load_or_generate_static_key E path w') = Some (k', pub)
          else fst (load_or_generate_static_key E path w') = None)"
proof -
  obtain w1 priv where g: "generate_eph_keypair E (w\<lparr>calls := Suc (calls w)\<rparr>) = (Some (k, pub), w1)"
      "EVP_PKEY_get_raw_private_key E k = Some priv" "w' = sys_fwrite E path priv (snd (sys_fopen_wb E path w1))"
    using assms(1,2) by (auto simp: load_or_generate_static_key_def sys_fopen_rb_def split: if_splits option.splits prod.splits bool.splits)
  have k: "EVP_PKEY_get_raw_public_key E k = Some pub" using g(1)
    by (auto simp: generate_eph_keypair_def split: prod.splits option.splits)
  have len: "length priv = DH_PUBKEY_LEN" using assms(4) [OF g(2)] by simp
  have f: "files w' path = Some (take stored priv)"
    using g(3) len by (simp add: sys_fwrite_def stored_def)
  show ?thesis
    using f assms(3) assms(4) [OF g(2)] k len
    by (auto simp: load_or_generate_static_key_def sys_fopen_rb_def min_def)
qed

theorem static_key_persists_witness:
  "\<exists>k pub w' k'. load_or_generate_static_key sample_env ''peer.key'' fresh_world = (Some (k, pub), w') \<and>
     fst (load_or_generate_static_key sample_env ''peer.key'' w') = Some (k', pub)"
proof -
  have law: "length priv = DH_PUBKEY_LEN \<and> (\<exists>k'. EVP_PKEY_new_raw_private_key sample_env priv = Some k' \<and>
      EVP_PKEY_get_raw_public_key sample_env k' = EVP_PKEY_get_raw_public_key sample_env k)"
    if "EVP_PKEY_get_raw_private_key sample_env k = Some priv" for k priv
    using that be_bytes_be_value [of "be_bytes 32 k"] by (auto simp: sample_env_def DH_PUBKEY_LEN_def)
  have e: "os_fwrite sample_env n m = m" "os_fopen sample_env n" for n m by (simp_all add: sample_env_def)
  obtain k pub w' where g: "load_or_generate_static_key sample_env ''peer.key'' fresh_world = (Some (k, pub), w')"
    by (auto simp: load_or_generate_static_key_def generate_eph_keypair_def sys_defs fresh_world_def sample_env_def)
  have "files fresh_world ''peer.key'' = None" by (simp add: fresh_world_def)
  from static_key_persists [OF g this e(2) law] g show ?thesis by (auto simp: e(1))
qed

end
