(* ===== verification/Rcu_List.thy ===== *)
theory Rcu_List
  imports Tunnel_Prelude
begin

text \<open>
  The intrusive circular lists of the test framework (\<^verbatim>\<open>src/rcunit/src/rcunit_list.c\<close>, \<^verbatim>\<open>rcunit_list.h\<close>,
  \<^verbatim>\<open>rcunit_queue.c\<close>) on an explicit heap: nodes are addresses, 0 is \<open>NULL\<close>, and every assignment of the
  code is one update of the \<open>next\<close> or \<open>prev\<close> field, in the order of the code. Loops over a list may not
  end on an arbitrary heap, so they are partial functions, and that they do end on a list is proved.
\<close>

section \<open>The code\<close>

type_synonym addr = nat

abbreviation (input) NULL :: addr where "NULL \<equiv> 0"

record rcu_heap =
  nxt :: "addr \<Rightarrow> addr"
  prv :: "addr \<Rightarrow> addr"

definition set_nxt :: "addr \<Rightarrow> addr \<Rightarrow> rcu_heap \<Rightarrow> rcu_heap" where
  "set_nxt a b h = h\<lparr>nxt := (nxt h)(a := b)\<rparr>"

definition set_prv :: "addr \<Rightarrow> addr \<Rightarrow> rcu_heap \<Rightarrow> rcu_heap" where
  "set_prv a b h = h\<lparr>prv := (prv h)(a := b)\<rparr>"

definition rcu_init_list :: "addr \<Rightarrow> rcu_heap \<Rightarrow> rcu_heap" where
  "rcu_init_list l h = (if l \<noteq> NULL then set_nxt l l (set_prv l l h) else h)"

definition rcu_is_list_empty :: "addr \<Rightarrow> rcu_heap \<Rightarrow> bool" where
  "rcu_is_list_empty l h = (if l \<noteq> NULL then nxt h l = l else False)"

definition rcu_insert_list :: "addr \<Rightarrow> addr \<Rightarrow> rcu_heap \<Rightarrow> rcu_heap" where
  "rcu_insert_list l entry h =
     (if l \<noteq> NULL \<and> entry \<noteq> NULL then
        let h1 = set_prv entry (prv h l) h;
            h2 = set_nxt entry l h1;
            h3 = set_nxt (prv h2 l) entry h2
        in set_prv l entry h3
      else h)"

definition rcu_remove_list :: "addr \<Rightarrow> rcu_heap \<Rightarrow> rcu_heap" where
  "rcu_remove_list entry h =
     (if entry \<noteq> NULL \<and> nxt h entry \<noteq> entry then
        let h1 = set_nxt (prv h entry) (nxt h entry) h
        in set_prv (nxt h1 entry) (prv h1 entry) h1
      else h)"

text \<open>\<open>RCU_FOR_EACH_ENTRY\<close> with a body that leaves the links alone.\<close>

partial_function (option) for_each_entry ::
    "(addr \<Rightarrow> 's \<Rightarrow> 's) \<Rightarrow> addr \<Rightarrow> rcu_heap \<Rightarrow> addr \<Rightarrow> 's \<Rightarrow> 's option" where
  "for_each_entry body l h cursor s =
     (if cursor = l then Some s else for_each_entry body l h (nxt h cursor) (body cursor s))"

definition rcu_get_list_size :: "addr \<Rightarrow> rcu_heap \<Rightarrow> int option" where
  "rcu_get_list_size l h =
     (if l \<noteq> NULL then for_each_entry (\<lambda>_ size. size + 1) l h (nxt h l) 0 else Some 0)"

text \<open>
  The loop that takes a list apart: \<open>RCU_SAVE_CURSOR\<close> keeps the predecessor, the node is unlinked and
  freed, \<open>RCU_RESTORE_CURSOR\<close> goes back to the predecessor. It returns the nodes in the order they were freed.
\<close>

partial_function (option) free_all_entries ::
    "addr \<Rightarrow> rcu_heap \<Rightarrow> addr \<Rightarrow> addr list \<Rightarrow> (rcu_heap \<times> addr list) option" where
  "free_all_entries l h cursor freed =
     (if cursor = l then Some (h, freed)
      else let saved = prv h cursor; h1 = rcu_remove_list cursor h
           in free_all_entries l h1 (nxt h1 saved) (freed @ [cursor]))"

subsection \<open>Queues\<close>

definition rcu_init_queue :: "addr \<Rightarrow> rcu_heap \<Rightarrow> rcu_heap" where
  "rcu_init_queue = rcu_init_list"

definition rcu_destroy_queue :: "addr \<Rightarrow> rcu_heap \<Rightarrow> rcu_heap" where
  "rcu_destroy_queue = rcu_init_list"

definition rcu_insert_queue :: "addr \<Rightarrow> addr \<Rightarrow> rcu_heap \<Rightarrow> rcu_heap" where
  "rcu_insert_queue = rcu_insert_list"

definition rcu_is_queue_empty :: "addr \<Rightarrow> rcu_heap \<Rightarrow> bool" where
  "rcu_is_queue_empty = rcu_is_list_empty"

text \<open>The local variable that is returned is not initialised; \<open>junk\<close> is what it holds.\<close>

definition rcu_remove_queue :: "addr \<Rightarrow> addr \<Rightarrow> rcu_heap \<Rightarrow> addr" where
  "rcu_remove_queue junk q h = (if q \<noteq> NULL \<and> \<not> rcu_is_list_empty q h then prv h q else junk)"

section \<open>What a list is\<close>

text \<open>
  \<open>chain h a xs b\<close>: from \<open>a\<close> through \<open>xs\<close> to \<open>b\<close> the \<open>next\<close> fields lead forward and the \<open>prev\<close> fields back.
  \<open>ring h l xs\<close>: the list with head \<open>l\<close> has the distinct nodes \<open>xs\<close>, in this order.
\<close>

fun chain :: "rcu_heap \<Rightarrow> addr \<Rightarrow> addr list \<Rightarrow> addr \<Rightarrow> bool" where
  "chain h a [] b \<longleftrightarrow> nxt h a = b \<and> prv h b = a"
| "chain h a (x # xs) b \<longleftrightarrow> nxt h a = x \<and> prv h x = a \<and> chain h x xs b"

definition ring :: "rcu_heap \<Rightarrow> addr \<Rightarrow> addr list \<Rightarrow> bool" where
  "ring h l xs \<longleftrightarrow> chain h l xs l \<and> distinct (l # xs) \<and> NULL \<notin> set (l # xs)"

lemma chain_append [simp]: "chain h a (xs @ y # ys) b \<longleftrightarrow> chain h a xs y \<and> chain h y ys b"
  by (induction xs arbitrary: a) auto

lemma set_links [simp]:
  "nxt (set_nxt a b h) = (nxt h)(a := b)" "prv (set_nxt a b h) = prv h"
  "prv (set_prv a b h) = (prv h)(a := b)" "nxt (set_prv a b h) = nxt h"
  by (simp_all add: set_nxt_def set_prv_def)

lemma chain_frame:
  "p \<noteq> a \<Longrightarrow> p \<notin> set xs \<Longrightarrow> chain (set_nxt p q h) a xs b = chain h a xs b"
  "p \<noteq> b \<Longrightarrow> p \<notin> set xs \<Longrightarrow> chain (set_prv p q h) a xs b = chain h a xs b"
  by (induction xs arbitrary: a) auto

lemma chain_prev_last: "chain h a xs b \<Longrightarrow> prv h b = last (a # xs)"
  by (induction xs arbitrary: a) auto

lemma chain_next_first: "chain h a xs b \<Longrightarrow> nxt h a = hd (xs @ [b])"
  by (cases xs) auto

lemma chain_relink_last:
  assumes "chain h a xs b" "distinct (a # xs)" "c \<notin> set xs"
  shows "chain (set_prv c (last (a # xs)) (set_nxt (last (a # xs)) c h)) a xs c"
proof (cases xs rule: rev_cases)
  case Nil
  then show ?thesis by simp
next
  case (snoc ys y)
  then show ?thesis using assms by (auto simp: chain_frame)
qed

lemma last_not_later: "distinct (l # ys @ zs) \<Longrightarrow> last (l # ys) \<notin> set zs"
  by (cases ys rule: rev_cases) auto

lemma ring_init: "l \<noteq> NULL \<Longrightarrow> ring (rcu_init_list l h) l []"
  by (simp add: ring_def rcu_init_list_def)

lemma ring_insert:
  assumes "ring h l xs" "e \<noteq> NULL" "e \<notin> set (l # xs)"
  shows "ring (rcu_insert_list l e h) l (xs @ [e])"
proof -
  have c: "chain h l xs l" "distinct (l # xs)" "l \<noteq> NULL" "NULL \<notin> set xs" using assms(1) by (auto simp: ring_def)
  let ?z = "last (l # xs)"
  have z: "prv h l = ?z" by (rule chain_prev_last [OF c(1)])
  have ze: "?z \<noteq> e" using assms(3) by (metis last_in_set list.distinct(1))
  have h: "rcu_insert_list l e h = set_prv l e (set_nxt e l (set_prv e ?z (set_nxt ?z e h)))"
    using assms(2,3) c(3) z ze by (auto simp: rcu_insert_list_def set_nxt_def set_prv_def Let_def fun_upd_twist)
  have "chain (set_prv e ?z (set_nxt ?z e h)) l xs e" by (rule chain_relink_last [OF c(1,2)]) (use assms(3) in simp)
  then have "chain (rcu_insert_list l e h) l xs e" using assms(3) c(2) by (simp add: h chain_frame)
  moreover have "chain (rcu_insert_list l e h) e [] l" by (simp add: h)
  ultimately show ?thesis using assms(2,3) c by (auto simp: ring_def)
qed

lemma ring_remove:
  assumes "ring h l (ys @ e # zs)"
  shows "ring (rcu_remove_list e h) l (ys @ zs)" "nxt (rcu_remove_list e h) (prv h e) = hd (zs @ [l])"
proof -
  have c: "chain h l ys e" "chain h e zs l" "distinct (l # ys @ e # zs)" "NULL \<notin> set (l # ys @ e # zs)"
    using assms by (auto simp: ring_def)
  let ?p = "last (l # ys)" and ?n = "hd (zs @ [l])"
  have p: "prv h e = ?p" "nxt h e = ?n" using chain_prev_last [OF c(1)] chain_next_first [OF c(2)] by simp_all
  have pe: "?p \<notin> set (e # zs)" "?n \<noteq> e" using last_not_later [OF c(3)] c(3) by (simp, cases zs) auto
  have r: "rcu_remove_list e h = set_prv ?n ?p (set_nxt ?p ?n h)"
    using c(4) p pe by (auto simp: rcu_remove_list_def Let_def)
  show "nxt (rcu_remove_list e h) (prv h e) = ?n" by (simp add: r p(1))
  show "ring (rcu_remove_list e h) l (ys @ zs)"
  proof (cases zs)
    case Nil
    have "chain (set_prv l ?p (set_nxt ?p l h)) l ys l" using c(3) by (intro chain_relink_last [OF c(1)]) auto
    then show ?thesis using c Nil by (auto simp: ring_def r)
  next
    case (Cons z zs')
    have "chain (set_prv z ?p (set_nxt ?p z h)) l ys z" using c(3) Cons by (intro chain_relink_last [OF c(1)]) auto
    moreover have "chain (set_prv z ?p (set_nxt ?p z h)) z zs' l"
      using c(2,3) Cons pe(1) by (simp add: chain_frame)
    ultimately show ?thesis using c Cons by (auto simp: ring_def r)
  qed
qed

section \<open>The loops\<close>

lemma for_each_chain:
  "chain h a xs l \<Longrightarrow> l \<notin> set xs \<Longrightarrow> for_each_entry body l h (nxt h a) s = Some (fold body xs s)"
proof (induction xs arbitrary: a s)
  case Nil
  then show ?case by (subst for_each_entry.simps) simp
next
  case (Cons x xs)
  then show ?case by (subst for_each_entry.simps) auto
qed

lemma for_each_ring: "ring h l xs \<Longrightarrow> for_each_entry body l h (nxt h l) s = Some (fold body xs s)"
  by (rule for_each_chain) (auto simp: ring_def)

lemma count_fold: "fold (\<lambda>_ size. size + 1) xs n = n + int (length xs)"
  by (induction xs arbitrary: n) simp_all

lemma collect_fold: "fold (\<lambda>x xs. xs @ [x]) xs ys = ys @ xs"
  by (induction xs arbitrary: ys) simp_all

lemma ring_size: "ring h l xs \<Longrightarrow> rcu_get_list_size l h = Some (int (length xs))"
  by (simp add: rcu_get_list_size_def for_each_ring count_fold) (simp add: ring_def)

lemma free_all_ring:
  "ring h l xs \<Longrightarrow> \<exists>h'. free_all_entries l h (nxt h l) freed = Some (h', freed @ xs) \<and> ring h' l []"
proof (induction xs arbitrary: h freed)
  case Nil
  then have "nxt h l = l" by (simp add: ring_def)
  then show ?case using Nil by (subst free_all_entries.simps) simp
next
  case (Cons x xs)
  have x: "nxt h l = x" "prv h x = l" "x \<noteq> l" using Cons.prems by (auto simp: ring_def)
  have r: "ring (rcu_remove_list x h) l xs" using ring_remove(1) [of h l "[]" x xs] Cons.prems by simp
  obtain h' where "free_all_entries l (rcu_remove_list x h) (nxt (rcu_remove_list x h) l) (freed @ [x]) = Some (h', (freed @ [x]) @ xs)"
      "ring h' l []"
    using Cons.IH [OF r, of "freed @ [x]"] by blast
  then show ?case using x by (subst free_all_entries.simps) (simp add: Let_def)
qed

section \<open>The interface of a list\<close>

text \<open>
  What the users of the lists rely on: \<open>rep h l xs\<close> says that the list with head \<open>l\<close> holds the nodes \<open>xs\<close>.
\<close>

locale node_list =
  fixes rep :: "'h \<Rightarrow> 'n \<Rightarrow> 'n list \<Rightarrow> bool"
    and init :: "'n \<Rightarrow> 'h \<Rightarrow> 'h"
    and insert_node :: "'n \<Rightarrow> 'n \<Rightarrow> 'h \<Rightarrow> 'h"
    and remove_node :: "'n \<Rightarrow> 'h \<Rightarrow> 'h"
    and valid :: "'n \<Rightarrow> bool"
  assumes init_rep: "valid l \<Longrightarrow> rep (init l h) l []"
    and insert_rep: "rep h l xs \<Longrightarrow> valid e \<Longrightarrow> e \<notin> set (l # xs) \<Longrightarrow> rep (insert_node l e h) l (xs @ [e])"
    and remove_rep: "rep h l (ys @ e # zs) \<Longrightarrow> rep (remove_node e h) l (ys @ zs)"
begin

lemma insert_all:
  "rep h l xs \<Longrightarrow> distinct (l # xs @ es) \<Longrightarrow> list_all valid es \<Longrightarrow> rep (fold (insert_node l) es h) l (xs @ es)"
proof (induction es arbitrary: h xs)
  case (Cons e es)
  have "rep (insert_node l e h) l (xs @ [e])" using Cons.prems by (intro insert_rep) auto
  from Cons.IH [OF this] Cons.prems show ?case by auto
qed simp

lemma build: "distinct (l # es) \<Longrightarrow> list_all valid (l # es) \<Longrightarrow> rep (fold (insert_node l) es (init l h)) l es"
  using insert_all [OF init_rep, of l es] by simp

lemma remove_member:
  assumes "rep h l xs" "e \<in> set xs" "distinct xs"
  shows "rep (remove_node e h) l (filter (\<lambda>x. x \<noteq> e) xs)"
proof -
  obtain ys zs where xs: "xs = ys @ e # zs" using split_list [OF assms(2)] by blast
  have "filter (\<lambda>x. x \<noteq> e) ys = ys" "filter (\<lambda>x. x \<noteq> e) zs = zs"
    using assms(3) xs by (auto simp: filter_id_conv)
  then show ?thesis using remove_rep [of h l ys e zs] assms(1) xs by simp
qed

end

interpretation rl: node_list ring rcu_init_list rcu_insert_list rcu_remove_list "\<lambda>a. a \<noteq> NULL"
  by unfold_locales (auto intro: ring_init ring_insert ring_remove(1))

text \<open>Removing a node a second time changes nothing, as long as its old neighbours are still neighbours.\<close>

lemma remove_twice:
  assumes "ring h l (ys @ a # zs)"
  shows "rcu_remove_list a (rcu_remove_list a h) = rcu_remove_list a h"
proof -
  have "prv h a = last (l # ys)" "nxt h a = hd (zs @ [l])" "distinct (l # ys @ a # zs)"
    using assms chain_prev_last [of h l ys a] chain_next_first [of h a zs l] by (auto simp: ring_def)
  then have "prv h a \<noteq> a" "nxt h a \<noteq> a" by (cases ys rule: rev_cases; cases zs; auto)+
  then show ?thesis by (simp add: rcu_remove_list_def set_nxt_def set_prv_def Let_def)
qed

text \<open>A loop that gets into a part of the heap that leads back into itself and does not hold the head never ends.\<close>

lemma for_each_stuck:
  assumes "\<forall>x\<in>S. nxt h x \<in> S" "l \<notin> S" "c \<in> S"
  shows "for_each_entry body l h c s = None"
proof -
  have "for_each_entry b0 l0 h0 c0 s0 = Some y \<Longrightarrow> \<forall>S. (\<forall>x\<in>S. nxt h0 x \<in> S) \<longrightarrow> l0 \<notin> S \<longrightarrow> c0 \<notin> S" for b0 l0 h0 c0 and s0 y :: 'a
    by (erule for_each_entry.raw_induct [where P = "\<lambda>_ l h c _ _. \<forall>S. (\<forall>x\<in>S. nxt h x \<in> S) \<longrightarrow> l \<notin> S \<longrightarrow> c \<notin> S", rotated])
      (auto split: if_splits, metis)
  then show ?thesis using assms by (cases "for_each_entry body l h c s") blast+
qed

lemma for_each_prefix:
  assumes "chain h a xs c" "\<And>x. x \<in> set (a # xs) \<Longrightarrow> nxt h' x = nxt h x" "l \<notin> set xs"
  shows "for_each_entry body l h' (nxt h' a) s = for_each_entry body l h' c (fold body xs s)"
  using assms
proof (induction xs arbitrary: a s)
  case (Cons x xs)
  have "for_each_entry body l h' x s = for_each_entry body l h' (nxt h' x) (body x s)"
    using Cons.prems(3) by (subst for_each_entry.simps) auto
  then show ?case using Cons.IH [of x "body x s"] Cons.prems by simp
qed simp

lemma chain_closed:
  "chain h a xs b \<Longrightarrow> \<forall>x\<in>set (a # xs). nxt h x \<in> set (xs @ [b])"
  by (induction xs arbitrary: a) auto

text \<open>The \<open>next\<close> fields that \<open>rcu_init_list\<close> and \<open>rcu_insert_list\<close> write are those of the new node and of the last node.\<close>

lemma insert_nxt_other:
  "a \<noteq> e \<Longrightarrow> a \<noteq> prv h l \<Longrightarrow> l \<noteq> e \<Longrightarrow> nxt (rcu_insert_list l e (rcu_init_list e h)) a = nxt h a"
  by (simp add: rcu_insert_list_def rcu_init_list_def Let_def)

section \<open>Properties\<close>

text \<open>Operations on a list, on the heap and on the sequence of nodes it stands for.\<close>

datatype list_op = Insert addr | Remove addr

fun run_op :: "addr \<Rightarrow> list_op \<Rightarrow> rcu_heap \<Rightarrow> rcu_heap" where
  "run_op l (Insert e) h = rcu_insert_list l e h"
| "run_op l (Remove e) h = rcu_remove_list e h"

fun spec_op :: "list_op \<Rightarrow> addr list \<Rightarrow> addr list" where
  "spec_op (Insert e) xs = xs @ [e]"
| "spec_op (Remove e) xs = filter (\<lambda>x. x \<noteq> e) xs"

text \<open>A caller inserts nodes that are in no list yet and removes nodes of the list.\<close>

fun legal :: "addr \<Rightarrow> list_op list \<Rightarrow> addr list \<Rightarrow> bool" where
  "legal l [] xs \<longleftrightarrow> True"
| "legal l (Insert e # ops) xs \<longleftrightarrow> e \<noteq> NULL \<and> e \<noteq> l \<and> e \<notin> set xs \<and> legal l ops (spec_op (Insert e) xs)"
| "legal l (Remove e # ops) xs \<longleftrightarrow> e \<in> set xs \<and> legal l ops (spec_op (Remove e) xs)"

text \<open>C16. The linked lists implement sequences: after \<open>rcu_init_list\<close> and any legal series of insertions and
  removals, the list holds exactly the nodes the series leaves, in the order of insertion, with all
  forward and backward links consistent, and \<open>rcu_is_list_empty\<close> answers whether there are none.\<close>

theorem rcu_list_refines:
  fixes h
  assumes "l \<noteq> NULL" "legal l ops []"
  defines "h' \<equiv> fold (run_op l) ops (rcu_init_list l h)" and "xs \<equiv> fold spec_op ops []"
  shows "ring h' l xs \<and> (rcu_is_list_empty l h' \<longleftrightarrow> xs = [])"
proof -
  have "ring h0 l xs0 \<Longrightarrow> legal l ops0 xs0 \<Longrightarrow> ring (fold (run_op l) ops0 h0) l (fold spec_op ops0 xs0)" for ops0 h0 xs0
  proof (induction ops0 arbitrary: h0 xs0)
    case (Cons op ops0)
    have "ring (run_op l op h0) l (spec_op op xs0)"
      using Cons.prems rl.insert_rep [of h0 l xs0] rl.remove_member [of h0 l xs0] by (cases op) (auto simp: ring_def)
    moreover have "legal l ops0 (spec_op op xs0)" using Cons.prems(2) by (cases op) auto
    ultimately show ?case using Cons.IH by simp
  qed simp
  then have r: "ring h' l xs" using rl.init_rep [OF assms(1)] assms(2) by (simp add: h'_def xs_def)
  then have "nxt h' l = hd (xs @ [l])" "l \<notin> set xs" using chain_next_first by (auto simp: ring_def)
  then have "nxt h' l = l \<longleftrightarrow> xs = []" by (cases xs) auto
  with r show ?thesis using assms(1) by (simp add: rcu_is_list_empty_def)
qed

definition zero_heap :: rcu_heap where "zero_heap = \<lparr>nxt = (\<lambda>_. 0), prv = (\<lambda>_. 0)\<rparr>"

theorem rcu_list_refines_witness:
  "ring (fold (run_op 1) [Insert 5, Insert 7, Remove 5, Insert 9] (rcu_init_list 1 zero_heap)) 1 [7, 9]"
  using rcu_list_refines [of 1 "[Insert 5, Insert 7, Remove 5, Insert 9]" zero_heap] by simp

text \<open>C35. The loops over a list end: on a list with nodes \<open>xs\<close> the iteration macro visits exactly \<open>xs\<close> in
  order, \<open>rcu_get_list_size\<close> returns their number, and the loop that unlinks and frees each node frees every
  node exactly once, in order, never goes back through a freed node, and leaves an empty list.\<close>

theorem list_loops_end:
  assumes "ring h l xs"
  shows "for_each_entry (\<lambda>x xs. xs @ [x]) l h (nxt h l) [] = Some xs \<and> rcu_get_list_size l h = Some (int (length xs)) \<and>
     (\<exists>h'. free_all_entries l h (nxt h l) [] = Some (h', xs) \<and> ring h' l [])"
  using ring_size [OF assms] free_all_ring [OF assms, of "[]"] by (simp add: for_each_ring [OF assms] collect_fold)

theorem list_loops_end_witness:
  "rcu_get_list_size 1 (fold (rcu_insert_list 1) [5, 7, 9] (rcu_init_list 1 zero_heap)) = Some 3"
  using list_loops_end [OF rl.build [of 1 "[5, 7, 9]" zero_heap]] by simp

text \<open>C38. A node that is in one list and is initialised and inserted into another makes the first list endless: every
  loop over the first list runs into the second list and never comes back to its own head.\<close>

theorem relink_hangs:
  assumes "ring h l (xs @ e # zs)" "ring h k ys" "set (l # xs @ e # zs) \<inter> set (k # ys) = {}"
  defines "h' \<equiv> rcu_insert_list k e (rcu_init_list e h)"
  shows "for_each_entry body l h' (nxt h' l) s = None"
proof -
  let ?S = "set (k # ys @ [e])"
  have e: "e \<noteq> NULL" "e \<noteq> k" "e \<notin> set ys" "l \<notin> ?S" using assms(1,3) by (auto simp: ring_def)
  have c: "chain h k ys k" "chain h l xs e" "distinct (l # xs @ e # zs)" "distinct (k # ys)" "NULL \<notin> set (k # ys)"
    using assms(1,2) by (auto simp: ring_def)
  have "chain (set_nxt e e (set_prv e e h)) k ys k" using c(1) e by (simp add: chain_frame)
  then have "ring (rcu_init_list e h) k ys" using c(4,5) e(1) by (simp add: ring_def rcu_init_list_def)
  then have "ring h' k (ys @ [e])" unfolding h'_def using e by (intro rl.insert_rep) auto
  then have closed: "\<forall>x\<in>?S. nxt h' x \<in> ?S" using chain_closed [of h' k "ys @ [e]" k] by (auto simp: ring_def)
  have "prv h k \<in> set (k # ys)" using chain_prev_last [OF c(1)] by (metis last_in_set list.distinct(1))
  then have "a \<noteq> e \<and> a \<noteq> prv h k" if "a \<in> set (l # xs)" for a using that assms(3) c(3) by auto
  then have "nxt h' a = nxt h a" if "a \<in> set (l # xs)" for a using that e(2) insert_nxt_other [of a e h k] unfolding h'_def by metis
  then have "for_each_entry body l h' (nxt h' l) s = for_each_entry body l h' e (fold body xs s)"
    using c(2,3) by (intro for_each_prefix) auto
  then show ?thesis using for_each_stuck [OF closed e(4), of e body "fold body xs s"] by simp
qed

theorem relink_hangs_witness:
  "for_each_entry (\<lambda>_. Suc) 1 (rcu_insert_list 2 5 (rcu_init_list 5 (rcu_init_list 2 (rcu_insert_list 1 5 (rcu_init_list 1 zero_heap)))))
     5 0 = None"
proof -
  let ?h = "rcu_init_list 2 (rcu_insert_list 1 5 (rcu_init_list 1 zero_heap))"
  have "ring ?h 1 ([] @ 5 # [])" "ring ?h 2 []"
    by (simp_all add: ring_def rcu_insert_list_def rcu_init_list_def zero_heap_def set_nxt_def set_prv_def Let_def)
  from relink_hangs [OF this, of "\<lambda>_. Suc" 0] show ?thesis
    by (simp add: rcu_insert_list_def rcu_init_list_def zero_heap_def set_nxt_def set_prv_def Let_def)
qed

text \<open>\<open>rcu_remove_queue\<close> is no queue operation: it returns the node inserted last, not the first, it
  leaves that node in the queue (it changes nothing), and on an empty queue it returns an uninitialised pointer.\<close>

theorem remove_queue_returns_newest:
  assumes "ring h q xs" "e \<noteq> NULL" "e \<notin> set (q # xs)"
  shows "rcu_remove_queue junk q (rcu_insert_queue q e h) = e \<and> ring (rcu_insert_queue q e h) q (xs @ [e]) \<and>
     rcu_remove_queue junk q (rcu_init_queue q h) = junk"
proof -
  have r: "ring (rcu_insert_list q e h) q (xs @ [e])" by (rule rl.insert_rep [OF assms(1)]) (use assms in auto)
  then have "prv (rcu_insert_list q e h) q = e" "nxt (rcu_insert_list q e h) q \<noteq> q" "q \<noteq> NULL"
    using chain_prev_last [of _ q "xs @ [e]" q] chain_next_first [of _ q "xs @ [e]" q] by (auto simp: ring_def hd_append split: if_splits)
  with r show ?thesis
    by (simp add: rcu_remove_queue_def rcu_insert_queue_def rcu_is_list_empty_def rcu_init_queue_def rcu_init_list_def)
qed

theorem remove_queue_returns_newest_witness:
  "rcu_remove_queue 42 1 (rcu_insert_queue 1 7 (rcu_insert_queue 1 5 (rcu_init_queue 1 zero_heap))) = 7
   \<and> rcu_remove_queue 42 1 (rcu_init_queue 1 zero_heap) = 42"
proof -
  have "ring (rcu_insert_queue 1 5 (rcu_init_queue 1 zero_heap)) 1 [5]"
    using rl.build [of 1 "[5]" zero_heap] by (simp add: rcu_insert_queue_def rcu_init_queue_def)
  from remove_queue_returns_newest [OF this, of 7 42] show ?thesis
    by (simp add: rcu_remove_queue_def rcu_init_queue_def rcu_is_list_empty_def rcu_init_list_def)
qed

end
