(* ===== verification/Rcu_Tables.thy ===== *)
theory Rcu_Tables
  imports Rcu_List
begin

text \<open>
  The constant tables and hash functions of the test framework: error codes and messages
  (\<^verbatim>\<open>src/rcunit/src/rcunit_error.c\<close>), exceptions and the signals they stand for (\<^verbatim>\<open>rcunit_exception.c\<close>),
  and \<^verbatim>\<open>rcunit_hashtable.c\<close>. \<open>int\<close> arithmetic is that of a 32-bit word, with an arithmetic right shift.
\<close>

section \<open>Error codes\<close>

datatype rcu_error =
    RCU_E_OK | RCU_E_NG | RCU_E_NOMEM | RCU_E_INVPARAM | RCU_E_MACHINIT | RCU_E_MACHINITDONE | RCU_E_MACHNOINIT
  | RCU_E_INVMACH | RCU_E_ENTITYDISABLED | RCU_E_EXEC | RCU_E_REGNOINIT | RCU_E_INVREGNAME | RCU_E_INVREG
  | RCU_E_INVREGTABLE | RCU_E_UNKNOWNREG | RCU_E_REGEXISTS | RCU_E_MODNOINIT | RCU_E_INVMOD | RCU_E_INVMODNAME
  | RCU_E_INVMODTABLE | RCU_E_UNKNOWNMOD | RCU_E_MODEXISTS | RCU_E_FUNCNOINIT | RCU_E_INVFUNCNAME | RCU_E_INVFUNC
  | RCU_E_INVFUNCTABLE | RCU_E_FUNCEXISTS | RCU_E_INVFUNCENTRY

definition rcu_errors :: "rcu_error list" where
  "rcu_errors = [RCU_E_OK, RCU_E_NG, RCU_E_NOMEM, RCU_E_INVPARAM, RCU_E_MACHINIT, RCU_E_MACHINITDONE, RCU_E_MACHNOINIT,
     RCU_E_INVMACH, RCU_E_ENTITYDISABLED, RCU_E_EXEC, RCU_E_REGNOINIT, RCU_E_INVREGNAME, RCU_E_INVREG,
     RCU_E_INVREGTABLE, RCU_E_UNKNOWNREG, RCU_E_REGEXISTS, RCU_E_MODNOINIT, RCU_E_INVMOD, RCU_E_INVMODNAME,
     RCU_E_INVMODTABLE, RCU_E_UNKNOWNMOD, RCU_E_MODEXISTS, RCU_E_FUNCNOINIT, RCU_E_INVFUNCNAME, RCU_E_INVFUNC,
     RCU_E_INVFUNCTABLE, RCU_E_FUNCEXISTS, RCU_E_INVFUNCENTRY]"

text \<open>The number the compiler gives to a code.\<close>

definition ercd_of :: "rcu_error \<Rightarrow> int" where
  "ercd_of e = int (length (takeWhile (\<lambda>x. x \<noteq> e) rcu_errors))"

definition g_error_msg_tbl :: "string list" where
  "g_error_msg_tbl = [''Successful'', ''Failed'', ''Memory allocation failed'', ''Invalid parameter'',
     ''Machine initialization failed'', ''Machine already initialized '', ''Machine not initialized'', ''Invalid machine'',
     ''Test entity is disabled'', ''Execution failed'', ''Registry not initialized'', ''Invalid registry name'',
     ''Invalid registry'', ''Invalid registry table'', ''Unknown registry'', ''Registry exists'', ''Module not initialized'',
     ''Invalid module'', ''Invalid module name'', ''Invalid module table'', ''Unknown module'', ''Module exists'',
     ''Function not initialized'', ''Invalid function name'', ''Invalid function'', ''Invalid function table'',
     ''Function exists'', ''Invalid function entry point'']"

definition rcu_get_err_msg :: "int \<Rightarrow> string" where
  "rcu_get_err_msg ercd =
     (if ercd \<ge> ercd_of RCU_E_OK \<and> ercd \<le> ercd_of RCU_E_INVFUNCENTRY then g_error_msg_tbl ! nat ercd
      else ''Unknown error code'')"

text \<open>The table has an entry for every code, and no two codes share a message.\<close>

lemma error_table_complete: "length g_error_msg_tbl = length rcu_errors" "distinct (map (\<lambda>e. rcu_get_err_msg (ercd_of e)) rcu_errors)"
  by code_simp+

section \<open>Exceptions\<close>

datatype rcu_exception_id =
    RCU_EXCP_ID_START | RCU_EXCP_ABORTTESTRUN | RCU_EXCP_ABORTMODRUN | RCU_EXCP_NULLPOINTER | RCU_EXCP_INVPARAM
  | RCU_EXCP_SIGSEGV | RCU_EXCP_SIGILL | RCU_EXCP_SIGFPE | RCU_EXCP_SIGBUS | RCU_EXCP_ASSERTIONFAILURE
  | RCU_EXCP_ID_END | RCU_EXCP_ID_UNKNOWN

definition g_rcu_excp_tbl :: "(rcu_exception_id \<times> string) list" where
  "g_rcu_excp_tbl = [
     (RCU_EXCP_ID_START, ''Reserved (RCU_EXCP_ID_START)''),
     (RCU_EXCP_ABORTTESTRUN, ''test function aborted''),
     (RCU_EXCP_ABORTMODRUN, ''test module aborted''),
     (RCU_EXCP_NULLPOINTER, ''null pointer''),
     (RCU_EXCP_INVPARAM, ''invalid parameter''),
     (RCU_EXCP_SIGSEGV, ''segmentation violation''),
     (RCU_EXCP_SIGILL, ''illegal instruction''),
     (RCU_EXCP_SIGFPE, ''floating point''),
     (RCU_EXCP_SIGBUS, ''bus error''),
     (RCU_EXCP_ASSERTIONFAILURE, ''assertion failure''),
     (RCU_EXCP_ID_END, ''Reserved (RCU_EXCP_ID_END)''),
     (RCU_EXCP_ID_UNKNOWN, ''Unknown'')]"

definition excp_num :: "rcu_exception_id \<Rightarrow> nat" where
  "excp_num e = length (takeWhile (\<lambda>x. fst x \<noteq> e) g_rcu_excp_tbl)"

definition rcu_lookup_excp_by_id :: "rcu_exception_id \<Rightarrow> rcu_exception_id \<times> string" where
  "rcu_lookup_excp_by_id e =
     (if excp_num e > excp_num RCU_EXCP_ID_START \<and> excp_num e < excp_num RCU_EXCP_ID_END then g_rcu_excp_tbl ! excp_num e
      else g_rcu_excp_tbl ! excp_num RCU_EXCP_ID_UNKNOWN)"

text \<open>The exception a signal handler leaves in the current frame before it jumps there.\<close>

datatype core_signal = SIGSEGV | SIGILL | SIGFPE | SIGBUS | Other_Signal

fun rcu_sig_handler :: "core_signal \<Rightarrow> rcu_exception_id \<times> string" where
  "rcu_sig_handler SIGSEGV = rcu_lookup_excp_by_id RCU_EXCP_SIGSEGV"
| "rcu_sig_handler SIGILL = rcu_lookup_excp_by_id RCU_EXCP_SIGILL"
| "rcu_sig_handler SIGFPE = rcu_lookup_excp_by_id RCU_EXCP_SIGFPE"
| "rcu_sig_handler SIGBUS = rcu_lookup_excp_by_id RCU_EXCP_SIGBUS"
| "rcu_sig_handler Other_Signal = rcu_lookup_excp_by_id RCU_EXCP_ID_UNKNOWN"

text \<open>Every exception that can be thrown is found under its own id.\<close>

lemma lookup_excp:
  "fst (rcu_lookup_excp_by_id e) = (if e = RCU_EXCP_ID_START \<or> e = RCU_EXCP_ID_END then RCU_EXCP_ID_UNKNOWN else e)"
  by (cases e) (simp_all add: rcu_lookup_excp_by_id_def excp_num_def g_rcu_excp_tbl_def)

lemma sig_handler_not_assertion: "fst (rcu_sig_handler s) \<noteq> RCU_EXCP_ASSERTIONFAILURE"
  by (cases s) (simp_all add: lookup_excp)

section \<open>Hash functions\<close>

definition rcu_gen_int32_hash_jenkins_impl :: "u32 \<Rightarrow> u32" where
  "rcu_gen_int32_hash_jenkins_impl key =
     (let key = key + push_bit 12 key;
          key = key XOR signed_drop_bit 22 key;
          key = key + push_bit 4 key;
          key = key XOR signed_drop_bit 9 key;
          key = key + push_bit 10 key;
          key = key XOR signed_drop_bit 2 key;
          key = key + push_bit 7 key;
          key = key XOR signed_drop_bit 12 key
      in key)"

definition rcu_gen_int32_hash :: "u32 \<Rightarrow> u32" where
  "rcu_gen_int32_hash key = rcu_gen_int32_hash_jenkins_impl key"

text \<open>
  \<^verbatim>\<open>while (*(strz++)) { int c = *strz; ... }\<close>: the character that is added is the one after the character
  that is tested, the terminating NUL in the last round. \<open>char\<close> is signed.
\<close>

definition char_int :: "char \<Rightarrow> u32" where
  "char_int c = scast (of_char c :: 8 word)"

definition hash_step :: "u32 \<Rightarrow> u32 \<Rightarrow> u32" where
  "hash_step hash c = push_bit 2 (push_bit 3 hash + hash) + hash + c"

fun str_hash_loop :: "u32 \<Rightarrow> string \<Rightarrow> u32" where
  "str_hash_loop hash [] = hash"
| "str_hash_loop hash (c # strz) = str_hash_loop (hash_step hash (case strz of [] \<Rightarrow> 0 | d # _ \<Rightarrow> char_int d)) strz"

definition rcu_gen_str_hash :: "string \<Rightarrow> u32" where
  "rcu_gen_str_hash strz = str_hash_loop 0 strz"

text \<open>The size of a hash table in memory cells (\<open>sizeof(rcu_hashtable)\<close> = 24, \<open>sizeof(rcu_list)\<close> = 16), and its creation.\<close>

definition RCU_SIZEIN_MEMCELL :: "nat \<Rightarrow> nat" where
  "RCU_SIZEIN_MEMCELL nbytes = (nbytes + 3) div 4"

definition RCU_SIZEOF_HASHTABLE :: "nat \<Rightarrow> nat" where
  "RCU_SIZEOF_HASHTABLE nr_bucket = RCU_SIZEIN_MEMCELL 24 + RCU_SIZEIN_MEMCELL 16 * (nr_bucket - 1)"

definition rcu_cre_hash_tbl :: "(nat \<Rightarrow> addr) \<Rightarrow> nat \<Rightarrow> addr" where
  "rcu_cre_hash_tbl rcu_alloc_mem_cell nr_bucket =
     (if nr_bucket = 0 then NULL
      else let tbl = rcu_alloc_mem_cell (RCU_SIZEOF_HASHTABLE nr_bucket)
           in if tbl = NULL then NULL else NULL)"

text \<open>
  Because the shifts are arithmetic the last step clears the sign bit: a hash is never negative (and
  so can be used as an index after a remainder).
\<close>

lemma int_hash_nonneg: "0 \<le> sint (rcu_gen_int32_hash key)"
proof -
  have "\<not> bit (k XOR signed_drop_bit 12 k) 31" for k :: u32
    by (simp add: bit_xor_iff bit_signed_drop_bit_iff)
  then have "\<not> bit (rcu_gen_int32_hash key) 31"
    by (simp add: rcu_gen_int32_hash_def rcu_gen_int32_hash_jenkins_impl_def Let_def)
  then show ?thesis by (simp add: sint_uint bit_uint_iff)
qed

section \<open>Property\<close>

text \<open>The string hash ignores the first character, and every string of one character has the hash of
  the empty string, because the loop steps past a character before it reads it.\<close>

theorem str_hash_ignores_first:
  "rcu_gen_str_hash (a # strz) = rcu_gen_str_hash (b # strz) \<and> rcu_gen_str_hash [a] = rcu_gen_str_hash []"
  by (simp add: rcu_gen_str_hash_def hash_step_def)

end
