(* ===== verification/Rcu_Mtrace.thy ===== *)
theory Rcu_Mtrace
  imports Rcu_Tables "HOL-Library.Multiset"
begin

text \<open>
  The allocation tracer of the test framework (\<^verbatim>\<open>src/rcunit/src/rcunit_mtrace.c\<close>) and the allocator that
  reports to it (\<^verbatim>\<open>rcunit_mem.c\<close>). The linked list of pointer tables is the sequence of its tables, as
  \<open>Rcu_List\<close> justifies. Whether the C library has memory for a new table is the argument \<open>mem\<close> of the calls that may need
  one: for a call that can need several, \<open>mem 0\<close> and \<open>mem 1\<close> are the answers for the first table of the two caches when
  the tracer is initialised, and \<open>mem 2\<close> the answer for the table that a full cache asks for. Counters of type
  \<open>size_t\<close> are 64-bit words and the \<open>int\<close> of leaks is a 32-bit word, read as a signed number. The fields for file,
  function and line are never written by the code.
\<close>

section \<open>The code\<close>

definition rcu_pointer_table_SIZE :: nat where [const_defs]: "rcu_pointer_table_SIZE = 32"

record rcu_pointer_info =
  pi_ptr :: addr
  pi_size :: u64
  pi_used :: bool

type_synonym rcu_pointer_table = "rcu_pointer_info list"

record rcu_pointer_cache =
  ptr_tbl_list :: "rcu_pointer_table list"
  nr_alloc :: u64
  nr_free :: u64
  nr_ptr_tbl :: u64
  nr_free_counter :: u64
  max_alloc_size :: u64
  max_total_alloc_size :: u64
  cache_name :: string

definition free_slot :: rcu_pointer_info where
  "free_slot = \<lparr>pi_ptr = NULL, pi_size = 0, pi_used = False\<rparr>"

definition rcu_cre_ptr_tbl :: "bool \<Rightarrow> rcu_pointer_cache \<Rightarrow> rcu_error \<times> rcu_pointer_cache" where
  "rcu_cre_ptr_tbl mem cache =
     (if \<not> mem then (RCU_E_NG, cache)
      else (RCU_E_OK, cache\<lparr>ptr_tbl_list := ptr_tbl_list cache @ [replicate rcu_pointer_table_SIZE free_slot],
                            nr_ptr_tbl := nr_ptr_tbl cache + 1\<rparr>))"

text \<open>The two searches: table by table, slot by slot, the first that satisfies a condition.\<close>

fun scan_tables :: "(rcu_pointer_info \<Rightarrow> bool) \<Rightarrow> nat \<Rightarrow> rcu_pointer_table list \<Rightarrow> (nat \<times> nat) option" where
  "scan_tables P k [] = None"
| "scan_tables P k (tbl # tbls) =
     (case first_idx (\<lambda>a. P (tbl ! a)) rcu_pointer_table_SIZE of
        Some a \<Rightarrow> Some (k, a)
      | None \<Rightarrow> scan_tables P (Suc k) tbls)"

definition rcu_find_free_slot :: "rcu_pointer_cache \<Rightarrow> (nat \<times> nat) option" where
  "rcu_find_free_slot cache = scan_tables (\<lambda>info. \<not> pi_used info) 0 (ptr_tbl_list cache)"

definition rcu_srch_ptr_info :: "addr \<Rightarrow> rcu_pointer_cache \<Rightarrow> (nat \<times> nat) option" where
  "rcu_srch_ptr_info ptr cache = scan_tables (\<lambda>info. pi_ptr info = ptr) 0 (ptr_tbl_list cache)"

definition set_slot :: "nat \<times> nat \<Rightarrow> rcu_pointer_info \<Rightarrow> rcu_pointer_cache \<Rightarrow> rcu_pointer_cache" where
  "set_slot pos info cache =
     (let (k, a) = pos; tbls = ptr_tbl_list cache
      in cache\<lparr>ptr_tbl_list := tbls[k := (tbls ! k)[a := info]]\<rparr>)"

definition rcu_cache_ptr :: "bool \<Rightarrow> addr \<Rightarrow> u64 \<Rightarrow> rcu_pointer_cache \<Rightarrow> rcu_error \<times> rcu_pointer_cache" where
  "rcu_cache_ptr mem ptr sz cache =
     (if ptr = NULL then (RCU_E_NG, cache)
      else if rcu_srch_ptr_info ptr cache \<noteq> None then (RCU_E_NG, cache)
      else
        let cache1 = (case rcu_find_free_slot cache of Some _ \<Rightarrow> cache | None \<Rightarrow> snd (rcu_cre_ptr_tbl mem cache))
        in case rcu_find_free_slot cache1 of
             None \<Rightarrow> (RCU_E_NG, cache1)
           | Some pos \<Rightarrow> (RCU_E_OK, set_slot pos \<lparr>pi_ptr = ptr, pi_size = sz, pi_used = True\<rparr> cache1))"

definition rcu_uncache_ptr :: "addr \<Rightarrow> rcu_pointer_cache \<Rightarrow> rcu_error \<times> rcu_pointer_cache" where
  "rcu_uncache_ptr ptr cache =
     (if ptr = NULL then (RCU_E_NG, cache)
      else case rcu_srch_ptr_info ptr cache of
             None \<Rightarrow> (RCU_E_NG, cache)
           | Some pos \<Rightarrow>
               (let cache1 = set_slot pos free_slot cache;
                    n = nr_free_counter cache1 + 1
                in (RCU_E_OK, cache1\<lparr>nr_free_counter := (if n = of_nat rcu_pointer_table_SIZE then 0 else n)\<rparr>)))"

definition zero_cache :: rcu_pointer_cache where
  "zero_cache = \<lparr>ptr_tbl_list = [], nr_alloc = 0, nr_free = 0, nr_ptr_tbl = 0, nr_free_counter = 0,
     max_alloc_size = 0, max_total_alloc_size = 0, cache_name = []\<rparr>"

definition rcu_init_ptr_cache :: "bool \<Rightarrow> string \<Rightarrow> rcu_error \<times> rcu_pointer_cache" where
  "rcu_init_ptr_cache mem name =
     (case rcu_cre_ptr_tbl mem zero_cache of
        (ercd, cache) \<Rightarrow>
          if ercd = RCU_E_NG then (RCU_E_NG, cache)
          else (RCU_E_OK, cache\<lparr>nr_free_counter := 0, cache_name := name\<rparr>))"

definition rcu_destroy_ptr_cache :: "rcu_pointer_cache \<Rightarrow> rcu_pointer_cache" where
  "rcu_destroy_ptr_cache cache = cache\<lparr>ptr_tbl_list := []\<rparr>"

text \<open>
  The two caches of the framework, \<^verbatim>\<open>"rcunit"\<close> for its own memory and \<^verbatim>\<open>"user"\<close> for that of the tests, and the flag
  \<open>init_done\<close> of the machine, which \<open>rcu_init\<close> looks at. A pointer to a cache says which of the two it is.
\<close>

record mtrace_state =
  mach_init_done :: bool
  gs_mtrace_init_done :: bool
  g_ptr_cache_1 :: rcu_pointer_cache
  g_ptr_cache_2 :: rcu_pointer_cache

datatype cache_ptr = Cache_1 | Cache_2

fun get_cache :: "cache_ptr \<Rightarrow> mtrace_state \<Rightarrow> rcu_pointer_cache" where
  "get_cache Cache_1 m = g_ptr_cache_1 m"
| "get_cache Cache_2 m = g_ptr_cache_2 m"

fun set_cache :: "cache_ptr \<Rightarrow> rcu_pointer_cache \<Rightarrow> mtrace_state \<Rightarrow> mtrace_state" where
  "set_cache Cache_1 x m = m\<lparr>g_ptr_cache_1 := x\<rparr>"
| "set_cache Cache_2 x m = m\<lparr>g_ptr_cache_2 := x\<rparr>"

definition rcu_init_mtrace :: "(nat \<Rightarrow> bool) \<Rightarrow> mtrace_state \<Rightarrow> mtrace_state" where
  "rcu_init_mtrace mem m =
     (if gs_mtrace_init_done m then m
      else m\<lparr>g_ptr_cache_1 := snd (rcu_init_ptr_cache (mem 0) ''rcunit''),
             g_ptr_cache_2 := snd (rcu_init_ptr_cache (mem 1) ''user''), gs_mtrace_init_done := True\<rparr>)"

definition rcu_ensure_mtrace_init :: "(nat \<Rightarrow> bool) \<Rightarrow> mtrace_state \<Rightarrow> mtrace_state" where
  "rcu_ensure_mtrace_init mem m = (if \<not> gs_mtrace_init_done m then rcu_init_mtrace mem m else m)"

definition rcu_destroy_mtrace :: "mtrace_state \<Rightarrow> rcu_error \<times> mtrace_state" where
  "rcu_destroy_mtrace m =
     (if \<not> gs_mtrace_init_done m then (RCU_E_NG, m)
      else (RCU_E_OK, m\<lparr>g_ptr_cache_1 := rcu_destroy_ptr_cache (g_ptr_cache_1 m),
                        g_ptr_cache_2 := rcu_destroy_ptr_cache (g_ptr_cache_2 m), gs_mtrace_init_done := False\<rparr>))"

text \<open>What \<open>rcu_init\<close> and \<open>rcu_init_test_mach\<close> do to this part of the state; they allocate nothing through \<open>rcu_malloc\<close>.\<close>

definition mach_init :: "(nat \<Rightarrow> bool) \<Rightarrow> mtrace_state \<Rightarrow> mtrace_state" where
  "mach_init mem m = (if \<not> mach_init_done m then rcu_init_mtrace mem (m\<lparr>mach_init_done := True\<rparr>) else m)"

definition rcu_trace_alloc_impl :: "(nat \<Rightarrow> bool) \<Rightarrow> addr \<Rightarrow> u64 \<Rightarrow> cache_ptr \<Rightarrow> mtrace_state \<Rightarrow> mtrace_state" where
  "rcu_trace_alloc_impl mem ptr sz c m =
     (let m1 = rcu_ensure_mtrace_init mem m;
          cache = get_cache c m1;
          cache1 = cache\<lparr>nr_alloc := nr_alloc cache + 1\<rparr>;
          cache2 = snd (rcu_cache_ptr (mem 2) ptr sz cache1)
      in set_cache c (cache2\<lparr>max_alloc_size := (if sz > max_alloc_size cache2 then sz else max_alloc_size cache2),
                             max_total_alloc_size := max_total_alloc_size cache2 + sz\<rparr>) m1)"

definition rcu_trace_free_impl :: "(nat \<Rightarrow> bool) \<Rightarrow> addr \<Rightarrow> cache_ptr \<Rightarrow> mtrace_state \<Rightarrow> mtrace_state" where
  "rcu_trace_free_impl mem ptr c m =
     (let m1 = rcu_ensure_mtrace_init mem m;
          cache = get_cache c m1
      in set_cache c (snd (rcu_uncache_ptr ptr (cache\<lparr>nr_free := nr_free cache + 1\<rparr>))) m1)"

definition count_leak :: "rcu_pointer_info \<Rightarrow> 32 word \<times> u64 \<Rightarrow> 32 word \<times> u64" where
  "count_leak info acc = (if pi_used info then (fst acc + 1, snd acc + pi_size info) else acc)"

text \<open>The number and the total size of the leaks, added to what the caller passes in.\<close>

definition rcu_get_mtrace_results ::
    "(nat \<Rightarrow> bool) \<Rightarrow> cache_ptr \<Rightarrow> 32 word \<times> u64 \<Rightarrow> mtrace_state \<Rightarrow> (32 word \<times> u64) \<times> mtrace_state" where
  "rcu_get_mtrace_results mem c acc m =
     (let m1 = rcu_ensure_mtrace_init mem m
      in (fold (\<lambda>tbl acc. fold count_leak tbl acc) (ptr_tbl_list (get_cache c m1)) acc, m1))"

text \<open>What the check prints: the number of leaks and their total size.\<close>

definition rcu_check_mem_leak_impl :: "(nat \<Rightarrow> bool) \<Rightarrow> cache_ptr \<Rightarrow> mtrace_state \<Rightarrow> (32 word \<times> u64) \<times> mtrace_state" where
  "rcu_check_mem_leak_impl mem c m =
     (let m1 = rcu_ensure_mtrace_init mem (mach_init mem m)
      in (fold (\<lambda>tbl acc. fold count_leak tbl acc) (ptr_tbl_list (get_cache c m1)) (0, 0), m1))"

text \<open>\<open>rcu_get_rcunit_ptr_cache\<close> is the cache of the framework itself: the memory of the tests is not looked at.\<close>

definition rcu_has_mem_leak :: "(nat \<Rightarrow> bool) \<Rightarrow> mtrace_state \<Rightarrow> bool \<times> mtrace_state" where
  "rcu_has_mem_leak mem m =
     (let ((nr_leaks, leak_size), m1) = rcu_get_mtrace_results mem Cache_1 (0, 0) m in (sint nr_leaks > 0, m1))"

text \<open>The macros: those for tests use the second cache, the internal ones the first.\<close>

definition RCU_TRACE_ALLOC :: "(nat \<Rightarrow> bool) \<Rightarrow> addr \<Rightarrow> u64 \<Rightarrow> mtrace_state \<Rightarrow> mtrace_state" where
  "RCU_TRACE_ALLOC mem ptr sz m = rcu_trace_alloc_impl mem ptr sz Cache_2 m"

definition RCU_TRACE_FREE :: "(nat \<Rightarrow> bool) \<Rightarrow> addr \<Rightarrow> mtrace_state \<Rightarrow> mtrace_state" where
  "RCU_TRACE_FREE mem ptr m = rcu_trace_free_impl mem ptr Cache_2 m"

definition RCU_CHECK_MEMORY_LEAK :: "(nat \<Rightarrow> bool) \<Rightarrow> mtrace_state \<Rightarrow> (32 word \<times> u64) \<times> mtrace_state" where
  "RCU_CHECK_MEMORY_LEAK mem m = rcu_check_mem_leak_impl mem Cache_2 m"

definition RCU_TRACE_ALLOC_INTERNAL :: "(nat \<Rightarrow> bool) \<Rightarrow> addr \<Rightarrow> u64 \<Rightarrow> mtrace_state \<Rightarrow> mtrace_state" where
  "RCU_TRACE_ALLOC_INTERNAL mem ptr sz m = rcu_trace_alloc_impl mem ptr sz Cache_1 m"

definition RCU_TRACE_FREE_INTERNAL :: "(nat \<Rightarrow> bool) \<Rightarrow> addr \<Rightarrow> mtrace_state \<Rightarrow> mtrace_state" where
  "RCU_TRACE_FREE_INTERNAL mem ptr m = rcu_trace_free_impl mem ptr Cache_1 m"

definition RCU_CHECK_MEMORY_LEAK_INTERNAL :: "(nat \<Rightarrow> bool) \<Rightarrow> mtrace_state \<Rightarrow> (32 word \<times> u64) \<times> mtrace_state" where
  "RCU_CHECK_MEMORY_LEAK_INTERNAL mem m = rcu_check_mem_leak_impl mem Cache_1 m"

text \<open>
  The allocator: the size is rounded up to a multiple of \<open>sizeof(int)\<close>; \<open>malloc\<close> gives the address for it, \<open>NULL\<close> when
  it fails.
\<close>

definition RCU_ALIGN_N :: "u64 \<Rightarrow> u64 \<Rightarrow> u64" where
  "RCU_ALIGN_N n v = (v + n - 1) AND NOT (n - 1)"

definition rcu_malloc :: "(nat \<Rightarrow> bool) \<Rightarrow> (u64 \<Rightarrow> addr) \<Rightarrow> u64 \<Rightarrow> mtrace_state \<Rightarrow> addr \<times> mtrace_state" where
  "rcu_malloc mem malloc sz m =
     (let m1 = mach_init mem m;
          aligned_size = RCU_ALIGN_N 4 sz;
          p = malloc aligned_size
      in if p \<noteq> NULL then (p, RCU_TRACE_ALLOC_INTERNAL mem p aligned_size m1) else (p, m1))"

definition rcu_free :: "(nat \<Rightarrow> bool) \<Rightarrow> addr \<Rightarrow> mtrace_state \<Rightarrow> mtrace_state" where
  "rcu_free mem p m = (if p \<noteq> NULL then RCU_TRACE_FREE_INTERNAL mem p m else m)"

definition rcu_alloc_mem_cell :: "(nat \<Rightarrow> bool) \<Rightarrow> (u64 \<Rightarrow> addr) \<Rightarrow> u64 \<Rightarrow> mtrace_state \<Rightarrow> addr \<times> mtrace_state" where
  "rcu_alloc_mem_cell mem malloc nr_mem_cell m =
     (if nr_mem_cell = 0 then (NULL, m) else rcu_malloc mem malloc (8 * nr_mem_cell) m)"

text \<open>The cell is passed by reference: the first component is what the caller's pointer becomes.\<close>

definition rcu_free_mem_cell :: "(nat \<Rightarrow> bool) \<Rightarrow> addr \<Rightarrow> mtrace_state \<Rightarrow> addr \<times> mtrace_state" where
  "rcu_free_mem_cell mem cell m = (if cell = NULL then (cell, m) else (NULL, rcu_free mem cell m))"

text \<open>The static storage before \<open>main\<close>.\<close>

definition mtrace_start :: mtrace_state where
  "mtrace_start = \<lparr>mach_init_done = False, gs_mtrace_init_done = False, g_ptr_cache_1 = zero_cache, g_ptr_cache_2 = zero_cache\<rparr>"

section \<open>Live allocations\<close>

text \<open>The content of a cache: the pointers and sizes in its used slots.\<close>

definition slots :: "rcu_pointer_cache \<Rightarrow> rcu_pointer_info multiset" where
  "slots cache = mset (concat (ptr_tbl_list cache))"

definition live :: "rcu_pointer_cache \<Rightarrow> (addr \<times> u64) multiset" where
  "live cache = image_mset (\<lambda>i. (pi_ptr i, pi_size i)) (filter_mset pi_used (slots cache))"

text \<open>Slots are used exactly when they hold a pointer, and no pointer is held twice.\<close>

definition cache_ok :: "rcu_pointer_cache \<Rightarrow> bool" where
  "cache_ok cache \<longleftrightarrow> (\<forall>tbl \<in> set (ptr_tbl_list cache). length tbl = rcu_pointer_table_SIZE) \<and>
     (\<forall>i \<in># slots cache. pi_used i \<longleftrightarrow> pi_ptr i \<noteq> NULL) \<and>
     (\<forall>p. count (image_mset fst (live cache)) p \<le> 1)"

lemma scan_tables_None:
  assumes "\<forall>tbl \<in> set tbls. length tbl = rcu_pointer_table_SIZE"
  shows "scan_tables P k tbls = None \<longleftrightarrow> (\<forall>i \<in> set (concat tbls). \<not> P i)"
  using assms
proof (induction tbls arbitrary: k)
  case (Cons tbl tbls)
  have len: "length tbl = rcu_pointer_table_SIZE" using Cons.prems by simp
  have IH: "scan_tables P (Suc k) tbls = None \<longleftrightarrow> (\<forall>i \<in> set (concat tbls). \<not> P i)" using Cons by simp
  have f: "first_idx (\<lambda>a. P (tbl ! a)) rcu_pointer_table_SIZE = None \<longleftrightarrow> (\<forall>i \<in> set tbl. \<not> P i)"
    using len by (simp add: all_set_conv_all_nth)
  show ?case
  proof (cases "first_idx (\<lambda>a. P (tbl ! a)) rcu_pointer_table_SIZE")
    case None
    then have "\<forall>i \<in> set tbl. \<not> P i" using f by simp
    then show ?thesis using None IH by (auto simp del: first_idx_None_iff)
  next
    case (Some a)
    then have "\<not> (\<forall>i \<in> set tbl. \<not> P i)" using f by simp
    then show ?thesis using Some by auto
  qed
qed simp

lemma scan_tables_Some:
  assumes "\<forall>tbl \<in> set tbls. length tbl = rcu_pointer_table_SIZE" "scan_tables P j tbls = Some (k, a)"
  shows "j \<le> k \<and> k - j < length tbls \<and> a < length (tbls ! (k - j)) \<and> P (tbls ! (k - j) ! a)"
  using assms
proof (induction tbls arbitrary: j)
  case (Cons tbl tbls)
  show ?case
  proof (cases "first_idx (\<lambda>a. P (tbl ! a)) rcu_pointer_table_SIZE")
    case None
    have "scan_tables P (Suc j) tbls = Some (k, a)" using Cons.prems(2) None by simp
    from Cons.IH [OF _ this] Cons.prems(1) show ?thesis by (auto simp: nth_Cons' Suc_le_eq)
  next
    case (Some b)
    then show ?thesis using Cons.prems first_idx_SomeD [OF Some] by auto
  qed
qed simp

lemma slots_set_slot:
  assumes "k < length (ptr_tbl_list cache)" "a < length (ptr_tbl_list cache ! k)"
  shows "\<exists>M. slots cache = add_mset (ptr_tbl_list cache ! k ! a) M \<and> slots (set_slot (k, a) info cache) = add_mset info M"
proof -
  let ?ts = "ptr_tbl_list cache" let ?t = "?ts ! k"
  have t: "?ts = take k ?ts @ ?t # drop (Suc k) ?ts" by (rule id_take_nth_drop [OF assms(1)])
  have i: "?t = take a ?t @ ?t ! a # drop (Suc a) ?t" by (rule id_take_nth_drop [OF assms(2)])
  let ?M = "mset (concat (take k ?ts)) + mset (take a ?t) + mset (drop (Suc a) ?t) + mset (concat (drop (Suc k) ?ts))"
  have "mset (concat ?ts) = add_mset (?t ! a) ?M"
    by (subst t, subst i) simp
  moreover have "?ts[k := ?t[a := info]] = take k ?ts @ (take a ?t @ info # drop (Suc a) ?t) # drop (Suc k) ?ts"
    using assms by (simp add: upd_conv_take_nth_drop)
  ultimately show ?thesis by (intro exI [of _ ?M]) (simp add: slots_def set_slot_def Let_def)
qed

lemma cache_okD:
  assumes "cache_ok cache"
  shows "\<forall>tbl \<in> set (ptr_tbl_list cache). length tbl = rcu_pointer_table_SIZE"
    "\<And>i. i \<in># slots cache \<Longrightarrow> pi_used i \<longleftrightarrow> pi_ptr i \<noteq> NULL"
    "\<And>p. count (image_mset fst (live cache)) p \<le> 1"
  using assms by (auto simp: cache_ok_def)

lemma set_slot_tables:
  assumes "\<forall>tbl \<in> set (ptr_tbl_list cache). length tbl = rcu_pointer_table_SIZE"
  shows "\<forall>tbl \<in> set (ptr_tbl_list (set_slot pos info cache)). length tbl = rcu_pointer_table_SIZE"
proof (cases pos)
  case (Pair k a)
  show ?thesis
  proof (cases "k < length (ptr_tbl_list cache)")
    case True
    then show ?thesis using assms set_update_subset_insert [of "ptr_tbl_list cache" k]
      by (fastforce simp: Pair set_slot_def Let_def)
  qed (use assms in \<open>simp add: Pair set_slot_def Let_def list_update_beyond\<close>)
qed

text \<open>The pointer of a slot is found exactly when it is live.\<close>

lemma srch_live:
  assumes "cache_ok cache" "p \<noteq> NULL"
  shows "rcu_srch_ptr_info p cache = None \<longleftrightarrow> p \<notin># image_mset fst (live cache)"
proof -
  have "rcu_srch_ptr_info p cache = None \<longleftrightarrow> (\<forall>i \<in># slots cache. pi_ptr i \<noteq> p)"
    using scan_tables_None [OF cache_okD(1) [OF assms(1)]] by (simp add: rcu_srch_ptr_info_def slots_def)
  also have "\<dots> \<longleftrightarrow> p \<notin># image_mset fst (live cache)"
    using cache_okD(2) [OF assms(1)] assms(2) by (auto simp: live_def image_image)
  finally show ?thesis .
qed

definition slot_pair :: "rcu_pointer_info \<Rightarrow> addr \<times> u64" where
  "slot_pair i = (pi_ptr i, pi_size i)"

lemma live_split:
  "slots cache = add_mset i M \<Longrightarrow>
     live cache = (if pi_used i then {#slot_pair i#} else {#}) + image_mset slot_pair (filter_mset pi_used M)"
  by (simp add: live_def slot_pair_def [abs_def])

text \<open>What is outstanding after an allocation of \<open>sz\<close> bytes at \<open>p\<close> and after a release of \<open>p\<close>.\<close>

definition took :: "addr \<Rightarrow> u64 \<Rightarrow> (addr \<times> u64) multiset \<Rightarrow> (addr \<times> u64) multiset" where
  "took p sz A = (if p = NULL \<or> p \<in># image_mset fst A then A else add_mset (p, sz) A)"

definition released :: "addr \<Rightarrow> (addr \<times> u64) multiset \<Rightarrow> (addr \<times> u64) multiset" where
  "released p A = filter_mset (\<lambda>e. fst e \<noteq> p) A"

lemma find_free_fresh:
  assumes "cache_ok cache"
  defines "c1 \<equiv> (case rcu_find_free_slot cache of Some _ \<Rightarrow> cache | None \<Rightarrow> snd (rcu_cre_ptr_tbl True cache))"
  shows "cache_ok c1 \<and> live c1 = live cache \<and> rcu_find_free_slot c1 \<noteq> None"
proof (cases "rcu_find_free_slot cache")
  case None
  let ?c = "snd (rcu_cre_ptr_tbl True cache)"
  have s: "slots ?c = slots cache + replicate_mset 32 free_slot"
    by (simp add: rcu_cre_ptr_tbl_def slots_def rcu_pointer_table_SIZE_def)
  have l: "live ?c = live cache" by (simp add: live_def s free_slot_def)
  have t: "\<forall>tbl \<in> set (ptr_tbl_list ?c). length tbl = rcu_pointer_table_SIZE"
    using cache_okD(1) [OF assms(1)] by (auto simp: rcu_cre_ptr_tbl_def)
  have "free_slot \<in> set (concat (ptr_tbl_list ?c))" using s by (metis in_replicate_mset set_mset_mset slots_def union_iff zero_less_numeral)
  moreover have "\<not> pi_used free_slot" by (simp add: free_slot_def)
  ultimately have "rcu_find_free_slot ?c \<noteq> None"
    unfolding rcu_find_free_slot_def using scan_tables_None [OF t, of "\<lambda>i. \<not> pi_used i" 0] by blast
  moreover have "cache_ok ?c" using cache_okD [OF assms(1)] t by (auto simp: cache_ok_def l) (auto simp: s free_slot_def)
  ultimately show ?thesis using None l by (simp add: c1_def)
qed (use assms in \<open>simp add: c1_def\<close>)

text \<open>Without memory for a new table a full cache stays as it is, and otherwise the answer does not matter.\<close>

lemma cache_ptr_no_memory:
  "rcu_cache_ptr False p sz cache = (r, cache') \<Longrightarrow> cache' = cache \<or> cache' = snd (rcu_cache_ptr True p sz cache)"
  by (auto simp: rcu_cache_ptr_def rcu_cre_ptr_tbl_def Let_def split: if_splits option.splits)

lemma cache_ptr_memory:
  assumes "cache_ok cache" "p \<noteq> NULL" "rcu_cache_ptr True p sz cache = (r, cache')"
  shows "cache_ok cache' \<and> live cache' = took p sz (live cache)"
proof (cases "rcu_srch_ptr_info p cache")
  case (Some pos)
  then show ?thesis using assms srch_live [OF assms(1,2)] by (auto simp: rcu_cache_ptr_def took_def)
next
  case None
  define c1 where "c1 = (case rcu_find_free_slot cache of Some _ \<Rightarrow> cache | None \<Rightarrow> snd (rcu_cre_ptr_tbl True cache))"
  have c1: "cache_ok c1" "live c1 = live cache" using find_free_fresh [OF assms(1)] by (simp_all add: c1_def)
  obtain k a where f: "rcu_find_free_slot c1 = Some (k, a)" using find_free_fresh [OF assms(1)] by (auto simp: c1_def)
  let ?i = "\<lparr>pi_ptr = p, pi_size = sz, pi_used = True\<rparr>" and ?old = "ptr_tbl_list c1 ! k ! a"
  have pos: "k < length (ptr_tbl_list c1)" "a < length (ptr_tbl_list c1 ! k)" "\<not> pi_used ?old"
    using scan_tables_Some [OF cache_okD(1) [OF c1(1)] f [unfolded rcu_find_free_slot_def]] by auto
  have c': "cache' = set_slot (k, a) ?i c1" using assms(2,3) None f by (simp add: rcu_cache_ptr_def c1_def)
  obtain M where M: "slots c1 = add_mset ?old M" "slots cache' = add_mset ?i M"
    using slots_set_slot [OF pos(1,2), of ?i] c' by blast
  have l: "live cache' = add_mset (p, sz) (live c1)"
    using live_split [OF M(1)] live_split [OF M(2)] pos(3) by (simp add: slot_pair_def)
  have n: "p \<notin># image_mset fst (live cache)" using srch_live [OF assms(1,2)] None by simp
  have "cache_ok cache'"
    unfolding cache_ok_def
  proof (intro conjI allI)
    show "\<forall>tbl \<in> set (ptr_tbl_list cache'). length tbl = rcu_pointer_table_SIZE"
      unfolding c' by (rule set_slot_tables [OF cache_okD(1) [OF c1(1)]])
    show "\<forall>i \<in># slots cache'. pi_used i \<longleftrightarrow> pi_ptr i \<noteq> NULL"
      using cache_okD(2) [OF c1(1)] M assms(2) by auto
    show "count (image_mset fst (live cache')) q \<le> 1" for q
      using cache_okD(3) [OF c1(1), of q] n [folded count_eq_zero_iff] c1(2) by (auto simp: l)
  qed
  then show ?thesis using l n c1(2) assms(2) by (simp add: took_def)
qed

lemma cache_ptr_live:
  assumes "cache_ok cache" "rcu_cache_ptr mem p sz cache = (r, cache')"
  shows "cache_ok cache' \<and> (live cache' = took p sz (live cache) \<or> \<not> mem \<and> live cache' = live cache)"
proof (cases "p = NULL")
  case True
  then show ?thesis using assms by (simp add: rcu_cache_ptr_def took_def)
next
  case False
  have t: "cache_ok (snd (rcu_cache_ptr True p sz cache)) \<and> live (snd (rcu_cache_ptr True p sz cache)) = took p sz (live cache)"
    using cache_ptr_memory [OF assms(1) False] by (metis prod.collapse)
  show ?thesis
  proof (cases mem)
    case True
    then show ?thesis using t assms(2) by simp
  next
    case False
    then show ?thesis using cache_ptr_no_memory [of p sz cache r cache'] t assms by auto
  qed
qed

lemma uncache_ptr_live:
  assumes "cache_ok cache" "p \<noteq> NULL" "rcu_uncache_ptr p cache = (r, cache')"
  shows "cache_ok cache' \<and> live cache' = released p (live cache)"
  unfolding released_def
proof (cases "rcu_srch_ptr_info p cache")
  case None
  then have "p \<notin> fst ` set_mset (live cache)" using srch_live [OF assms(1,2)] by simp
  then have "filter_mset (\<lambda>e. fst e \<noteq> p) (live cache) = live cache" by (subst filter_mset_eq_conv) force
  then show "cache_ok cache' \<and> live cache' = filter_mset (\<lambda>e. fst e \<noteq> p) (live cache)"
    using None assms by (simp add: rcu_uncache_ptr_def)
next
  case (Some pos)
  obtain k a where ka: "pos = (k, a)" by fastforce
  let ?old = "ptr_tbl_list cache ! k ! a"
  have pos: "k < length (ptr_tbl_list cache)" "a < length (ptr_tbl_list cache ! k)" "pi_ptr ?old = p"
    using scan_tables_Some [OF cache_okD(1) [OF assms(1)] Some [unfolded ka rcu_srch_ptr_info_def]] by auto
  obtain M where M: "slots cache = add_mset ?old M" "slots (set_slot (k, a) free_slot cache) = add_mset free_slot M"
    using slots_set_slot [OF pos(1,2)] by blast
  have s: "slots cache' = add_mset free_slot M" "ptr_tbl_list cache' = ptr_tbl_list (set_slot (k, a) free_slot cache)"
    using assms(2,3) Some ka M(2) by (auto simp: rcu_uncache_ptr_def slots_def Let_def)
  have u: "pi_used ?old" using cache_okD(2) [OF assms(1), of ?old] M(1) pos(3) assms(2) by simp
  have lc: "live cache = add_mset (p, pi_size ?old) (live cache')"
    using live_split [OF M(1)] live_split [OF s(1)] u pos(3) by (simp add: slot_pair_def free_slot_def)
  have p: "p \<notin># image_mset fst (live cache')" using cache_okD(3) [OF assms(1), of p]
    unfolding count_eq_zero_iff [symmetric] by (simp add: lc)
  then have "filter_mset (\<lambda>e. fst e \<noteq> p) (live cache') = live cache'" by (subst filter_mset_eq_conv) force
  then have l: "live cache' = filter_mset (\<lambda>e. fst e \<noteq> p) (live cache)" by (simp add: lc)
  have "cache_ok cache'"
    unfolding cache_ok_def
  proof (intro conjI allI)
    show "\<forall>tbl \<in> set (ptr_tbl_list cache'). length tbl = rcu_pointer_table_SIZE"
      unfolding s(2) by (rule set_slot_tables [OF cache_okD(1) [OF assms(1)]])
    show "\<forall>i \<in># slots cache'. pi_used i \<longleftrightarrow> pi_ptr i \<noteq> NULL"
      using cache_okD(2) [OF assms(1)] M(1) s(1) by (auto simp: free_slot_def)
    show "count (image_mset fst (live cache')) q \<le> 1" for q
      using cache_okD(3) [OF assms(1), of q] by (simp add: lc split: if_splits)
  qed
  with l show "cache_ok cache' \<and> live cache' = filter_mset (\<lambda>e. fst e \<noteq> p) (live cache)" by simp
qed

section \<open>The report\<close>

lemma count_leaks:
  "fold count_leak infos acc = (fst acc + of_nat (length (filter pi_used infos)), snd acc + sum_list (map pi_size (filter pi_used infos)))"
  by (induction infos arbitrary: acc) (simp_all add: count_leak_def algebra_simps)

lemma report_slots:
  "fold (\<lambda>tbl acc. fold count_leak tbl acc) tbls acc = fold count_leak (concat tbls) acc"
  by (induction tbls arbitrary: acc) simp_all

lemma report_live:
  "fold (\<lambda>tbl acc. fold count_leak tbl acc) (ptr_tbl_list cache) (0, 0) = (of_nat (size (live cache)), sum_mset (image_mset snd (live cache)))"
proof -
  have "mset (filter pi_used (concat (ptr_tbl_list cache))) = filter_mset pi_used (slots cache)"
    by (simp add: slots_def mset_filter)
  then have "size (live cache) = length (filter pi_used (concat (ptr_tbl_list cache)))"
      "sum_mset (image_mset snd (live cache)) = sum_list (map pi_size (filter pi_used (concat (ptr_tbl_list cache))))"
    unfolding live_def by (metis size_image_mset size_mset, simp add: image_mset.compositionality comp_def sum_mset_sum_list [symmetric] mset_map)
  then show ?thesis unfolding report_slots by (simp add: count_leaks)
qed

section \<open>The tracer\<close>

text \<open>The caches are well formed once they are initialised; before that nothing is recorded.\<close>

definition tracer_ok :: "mtrace_state \<Rightarrow> bool" where
  "tracer_ok m \<longleftrightarrow> (gs_mtrace_init_done m \<longrightarrow> cache_ok (g_ptr_cache_1 m) \<and> cache_ok (g_ptr_cache_2 m))"

definition recorded :: "cache_ptr \<Rightarrow> mtrace_state \<Rightarrow> (addr \<times> u64) multiset" where
  "recorded c m = (if gs_mtrace_init_done m then live (get_cache c m) else {#})"

lemma init_cache_empty: "cache_ok (snd (rcu_init_ptr_cache b name)) \<and> live (snd (rcu_init_ptr_cache b name)) = {#}"
proof -
  have s: "ptr_tbl_list (snd (rcu_init_ptr_cache b name)) = (if b then [replicate rcu_pointer_table_SIZE free_slot] else [])"
    by (simp add: rcu_init_ptr_cache_def rcu_cre_ptr_tbl_def zero_cache_def)
  have l: "live (snd (rcu_init_ptr_cache b name)) = {#}" by (simp add: live_def slots_def s free_slot_def)
  then show ?thesis by (simp add: cache_ok_def s slots_def) (simp add: free_slot_def)
qed

lemma init_mtrace_ok:
  assumes "tracer_ok m"
  shows "tracer_ok (rcu_init_mtrace mem m)" "gs_mtrace_init_done (rcu_init_mtrace mem m)" "recorded c (rcu_init_mtrace mem m) = recorded c m"
  using assms init_cache_empty by (cases c; simp add: rcu_init_mtrace_def tracer_ok_def recorded_def)+

lemma ensure_ok:
  fixes mem
  assumes "tracer_ok m"
  defines "m1 \<equiv> rcu_ensure_mtrace_init mem m"
  shows "tracer_ok m1" "gs_mtrace_init_done m1" "recorded c m1 = recorded c m"
  using assms init_mtrace_ok [of m] by (auto simp: rcu_ensure_mtrace_init_def)

lemma mach_init_ok:
  assumes "tracer_ok m"
  shows "tracer_ok (mach_init mem m)" "recorded c (mach_init mem m) = recorded c m"
proof -
  have "tracer_ok (m\<lparr>mach_init_done := True\<rparr>)" "recorded c (m\<lparr>mach_init_done := True\<rparr>) = recorded c m"
    using assms by (cases c; simp add: tracer_ok_def recorded_def)+
  then show "tracer_ok (mach_init mem m)" "recorded c (mach_init mem m) = recorded c m"
    using assms init_mtrace_ok [of "m\<lparr>mach_init_done := True\<rparr>"] by (auto simp: mach_init_def)
qed

lemma set_cache_ok:
  assumes "tracer_ok m" "gs_mtrace_init_done m" "cache_ok x"
  shows "tracer_ok (set_cache c x m)" "recorded d (set_cache c x m) = (if d = c then live x else recorded d m)"
  using assms by (cases c; cases d; simp add: tracer_ok_def recorded_def)+

lemma get_cache_ok: "tracer_ok m \<Longrightarrow> gs_mtrace_init_done m \<Longrightarrow> cache_ok (get_cache c m) \<and> live (get_cache c m) = recorded c m"
  by (cases c) (simp_all add: tracer_ok_def recorded_def)

lemma cache_counters:
  "cache_ok (x\<lparr>nr_alloc := n\<rparr>) = cache_ok x" "cache_ok (x\<lparr>nr_free := n\<rparr>) = cache_ok x"
  "cache_ok (x\<lparr>max_alloc_size := n, max_total_alloc_size := k\<rparr>) = cache_ok x"
  "live (x\<lparr>nr_alloc := n\<rparr>) = live x" "live (x\<lparr>nr_free := n\<rparr>) = live x"
  "live (x\<lparr>max_alloc_size := n, max_total_alloc_size := k\<rparr>) = live x"
  by (simp_all add: cache_ok_def live_def slots_def)

lemma trace_alloc_ok:
  fixes mem p sz c
  assumes "tracer_ok m"
  defines "m' \<equiv> rcu_trace_alloc_impl mem p sz c m"
  shows "tracer_ok m'" "d \<noteq> c \<Longrightarrow> recorded d m' = recorded d m"
    "recorded c m' = took p sz (recorded c m) \<or> \<not> mem 2 \<and> recorded c m' = recorded c m"
proof -
  let ?m = "rcu_ensure_mtrace_init mem m" let ?x = "(get_cache c ?m)\<lparr>nr_alloc := nr_alloc (get_cache c ?m) + 1\<rparr>"
  note e = ensure_ok [OF assms(1), where mem = mem] note g = get_cache_ok [OF e(1,2), of c]
  obtain r y where y: "rcu_cache_ptr (mem 2) p sz ?x = (r, y)" by (metis surj_pair)
  have l: "cache_ok y" "live y = took p sz (recorded c m) \<or> \<not> mem 2 \<and> live y = recorded c m"
    using cache_ptr_live [OF _ y] g e(3) by (auto simp: cache_counters)
  have m': "m' = set_cache c (y\<lparr>max_alloc_size := (if sz > max_alloc_size y then sz else max_alloc_size y),
      max_total_alloc_size := max_total_alloc_size y + sz\<rparr>) ?m"
    by (simp add: m'_def rcu_trace_alloc_impl_def y Let_def)
  show "tracer_ok m'" "d \<noteq> c \<Longrightarrow> recorded d m' = recorded d m"
    "recorded c m' = took p sz (recorded c m) \<or> \<not> mem 2 \<and> recorded c m' = recorded c m"
    unfolding m' using set_cache_ok [OF e(1,2)] l e(3) by (simp_all add: cache_counters)
qed

lemma trace_free_ok:
  fixes mem c
  assumes "tracer_ok m" "p \<noteq> NULL"
  defines "m' \<equiv> rcu_trace_free_impl mem p c m"
  shows "tracer_ok m'" "recorded d m' = (if d = c then released p (recorded c m) else recorded d m)"
proof -
  let ?m = "rcu_ensure_mtrace_init mem m" let ?x = "(get_cache c ?m)\<lparr>nr_free := nr_free (get_cache c ?m) + 1\<rparr>"
  note e = ensure_ok [OF assms(1), where mem = mem] note g = get_cache_ok [OF e(1,2), of c]
  obtain r y where y: "rcu_uncache_ptr p ?x = (r, y)" by (metis surj_pair)
  have l: "cache_ok y" "live y = released p (recorded c m)"
    using uncache_ptr_live [OF _ assms(2) y] g e(3) by (auto simp: cache_counters)
  have m': "m' = set_cache c y ?m" by (simp add: m'_def rcu_trace_free_impl_def y Let_def)
  show "tracer_ok m'" "recorded d m' = (if d = c then released p (recorded c m) else recorded d m)"
    unfolding m' using set_cache_ok [OF e(1,2)] l e(3) by simp_all
qed

lemma null_not_recorded:
  assumes "tracer_ok m"
  shows "NULL \<notin># image_mset fst (recorded c m)"
  using get_cache_ok [OF assms, of c] by (auto simp: recorded_def cache_ok_def live_def)

lemma trace_null_ok:
  assumes "tracer_ok m"
  shows "tracer_ok (rcu_trace_free_impl mem NULL c m)" "recorded d (rcu_trace_free_impl mem NULL c m) = recorded d m"
proof -
  let ?m = "rcu_ensure_mtrace_init mem m"
  note e = ensure_ok [OF assms, where mem = mem] note g = get_cache_ok [OF e(1,2), of c]
  have "rcu_trace_free_impl mem NULL c m = set_cache c ((get_cache c ?m)\<lparr>nr_free := nr_free (get_cache c ?m) + 1\<rparr>) ?m"
    by (simp add: rcu_trace_free_impl_def rcu_uncache_ptr_def Let_def)
  then show "tracer_ok (rcu_trace_free_impl mem NULL c m)" "recorded d (rcu_trace_free_impl mem NULL c m) = recorded d m"
    using set_cache_ok [OF e(1,2)] g e(3) by (simp_all add: cache_counters)
qed

section \<open>Programs\<close>

text \<open>
  What a program does with memory: it calls the allocator of the framework, where \<open>Malloc sz p\<close> is the call for \<open>sz\<close> bytes to which
  \<open>malloc\<close> answers \<open>p\<close>, tells the tracer about memory of its own, or ends the tracing.
\<close>

datatype mem_call = Malloc u64 addr | Mfree addr | Trace_Alloc addr u64 | Trace_Free addr | Destroy_Mtrace

fun mem_step :: "(nat \<Rightarrow> bool) \<times> mem_call \<Rightarrow> mtrace_state \<Rightarrow> mtrace_state" where
  "mem_step (mem, Malloc sz p) m = snd (rcu_malloc mem (\<lambda>_. p) sz m)"
| "mem_step (mem, Mfree p) m = rcu_free mem p m"
| "mem_step (mem, Trace_Alloc p sz) m = RCU_TRACE_ALLOC mem p sz m"
| "mem_step (mem, Trace_Free p) m = RCU_TRACE_FREE mem p m"
| "mem_step (mem, Destroy_Mtrace) m = snd (rcu_destroy_mtrace m)"

text \<open>What is outstanding of the memory of the framework and of that of the tests, since the tracing was last ended.\<close>

fun outstanding :: "cache_ptr \<Rightarrow> mem_call \<Rightarrow> (addr \<times> u64) multiset \<Rightarrow> (addr \<times> u64) multiset" where
  "outstanding Cache_1 (Malloc sz p) A = took p (RCU_ALIGN_N 4 sz) A"
| "outstanding Cache_1 (Mfree p) A = released p A"
| "outstanding Cache_2 (Trace_Alloc p sz) A = took p sz A"
| "outstanding Cache_2 (Trace_Free p) A = released p A"
| "outstanding c Destroy_Mtrace A = {#}"
| "outstanding c call A = A"

lemma released_absent: "p \<notin># image_mset fst A \<Longrightarrow> released p A = A"
  unfolding released_def by (subst filter_mset_eq_conv) force

lemma free_ok:
  assumes "tracer_ok m"
  shows "tracer_ok (rcu_trace_free_impl mem p c m)"
    "recorded d (rcu_trace_free_impl mem p c m) = (if d = c then released p (recorded c m) else recorded d m)"
  using trace_free_ok [OF assms] trace_null_ok [OF assms] released_absent [OF null_not_recorded [OF assms]]
  by (cases "p = NULL"; auto)+

lemma mem_step_ok:
  assumes "tracer_ok m"
  shows "tracer_ok (mem_step (mem, call) m) \<and>
    (recorded c (mem_step (mem, call) m) = outstanding c call (recorded c m) \<or>
     \<not> mem 2 \<and> (\<exists>p sz. call = Malloc sz p \<or> call = Trace_Alloc p sz) \<and> recorded c (mem_step (mem, call) m) = recorded c m)"
proof (cases call)
  case (Malloc sz p)
  note i = mach_init_ok [OF assms, where mem = mem] note t = trace_alloc_ok [OF i(1), where mem = mem and p = p and sz = "RCU_ALIGN_N 4 sz" and c = Cache_1]
  show ?thesis
  proof (cases "p = NULL")
    case True
    then show ?thesis using i Malloc by (cases c) (simp_all add: rcu_malloc_def took_def)
  next
    case False
    then show ?thesis using i t Malloc by (cases c) (auto simp: rcu_malloc_def RCU_TRACE_ALLOC_INTERNAL_def)
  qed
next
  case (Mfree p)
  then show ?thesis using assms free_ok [OF assms, where mem = mem and p = p and c = Cache_1] released_absent [OF null_not_recorded [OF assms]]
    by (cases c) (auto simp: rcu_free_def RCU_TRACE_FREE_INTERNAL_def)
next
  case (Trace_Alloc p sz)
  then show ?thesis using trace_alloc_ok [OF assms, where mem = mem and p = p and sz = sz and c = Cache_2] by (cases c) (auto simp: RCU_TRACE_ALLOC_def)
next
  case (Trace_Free p)
  then show ?thesis using free_ok [OF assms, where mem = mem and p = p and c = Cache_2] by (cases c) (auto simp: RCU_TRACE_FREE_def)
next
  case Destroy_Mtrace
  then show ?thesis by (cases c) (simp_all add: rcu_destroy_mtrace_def tracer_ok_def recorded_def)
qed

lemma tracer_start_ok: "tracer_ok mtrace_start" "recorded c mtrace_start = {#}"
  by (simp_all add: mtrace_start_def tracer_ok_def recorded_def)

lemma run_exact:
  assumes "tracer_ok m" "list_all (\<lambda>(mem, call). mem 2) calls"
  shows "tracer_ok (fold mem_step calls m) \<and> recorded c (fold mem_step calls m) = fold (outstanding c) (map snd calls) (recorded c m)"
  using assms
proof (induction calls arbitrary: m)
  case (Cons x calls)
  obtain mem call where x: "x = (mem, call)" by fastforce
  have "tracer_ok (mem_step x m)" "recorded c (mem_step x m) = outstanding c call (recorded c m)"
    using mem_step_ok [OF Cons.prems(1), of mem call c] Cons.prems(2) by (auto simp: x)
  with Cons.IH [of "mem_step x m"] Cons.prems(2) show ?case by (simp add: x)
qed simp

lemma results_recorded:
  assumes "tracer_ok m"
  shows "fst (rcu_get_mtrace_results mem c (0, 0) m) = (of_nat (size (recorded c m)), sum_mset (image_mset snd (recorded c m)))"
    "fst (rcu_check_mem_leak_impl mem c m) = (of_nat (size (recorded c m)), sum_mset (image_mset snd (recorded c m)))"
proof -
  have "live (get_cache c (rcu_ensure_mtrace_init mem m1)) = recorded c m1" if "tracer_ok m1" for m1
    using get_cache_ok [OF ensure_ok(1,2) [OF that], of c mem] ensure_ok(3) [OF that] by simp
  from this [OF assms] this [OF mach_init_ok(1) [OF assms]]
  show "fst (rcu_get_mtrace_results mem c (0, 0) m) = (of_nat (size (recorded c m)), sum_mset (image_mset snd (recorded c m)))"
    "fst (rcu_check_mem_leak_impl mem c m) = (of_nat (size (recorded c m)), sum_mset (image_mset snd (recorded c m)))"
    by (simp_all add: rcu_get_mtrace_results_def rcu_check_mem_leak_impl_def report_live mach_init_ok(2) [OF assms] Let_def)
qed

lemma has_leak_recorded:
  assumes "tracer_ok m" "size (recorded Cache_1 m) < 2 ^ 31"
  shows "fst (rcu_has_mem_leak mem m) \<longleftrightarrow> recorded Cache_1 m \<noteq> {#}"
proof -
  have "sint (of_nat n :: 32 word) = int n" if "n < 2 ^ 31" for n
    using that by (simp add: signed_of_nat signed_take_bit_int_eq_self)
  from this [OF assms(2)] show ?thesis using results_recorded(1) [OF assms(1), of mem Cache_1]
    by (auto simp: rcu_has_mem_leak_def nonempty_has_size split: prod.splits)
qed

section \<open>Properties\<close>

text \<open>C17. The leak report is exact: after any sequence of \<open>rcu_malloc\<close>, \<open>rcu_free\<close>, \<open>RCU_TRACE_ALLOC\<close>, \<open>RCU_TRACE_FREE\<close> and
  \<open>rcu_destroy_mtrace\<close> from the start of the program, on condition that a full cache gets another pointer table whenever it asks for one, both reports on the cache of
  the framework count exactly the blocks that \<open>rcu_malloc\<close> returned and that were not passed to \<open>rcu_free\<close> since, with
  their sizes rounded up, as far as the tracing was not ended in between, and both reports on the cache of the tests those that were traced; the count is an \<open>int\<close>, and
  \<open>rcu_has_mem_leak\<close> holds exactly when a block of the framework is outstanding, as long as there are fewer than
  \<open>2\<^sup>3\<^sup>1\<close> of them.\<close>

theorem mtrace_leaks_exact:
  assumes "list_all (\<lambda>(mem, call). mem 2) calls"
  defines "m \<equiv> fold mem_step calls mtrace_start"
    and "A \<equiv> \<lambda>c. fold (outstanding c) (map snd calls) {#}"
  shows "fst (rcu_get_mtrace_results mem c (0, 0) m) = (of_nat (size (A c)), sum_mset (image_mset snd (A c))) \<and>
     fst (rcu_check_mem_leak_impl mem c m) = (of_nat (size (A c)), sum_mset (image_mset snd (A c))) \<and>
     (size (A Cache_1) < 2 ^ 31 \<longrightarrow> (fst (rcu_has_mem_leak mem m) \<longleftrightarrow> A Cache_1 \<noteq> {#}))"
proof -
  have ok: "tracer_ok m" "recorded d m = A d" for d
    using run_exact [OF tracer_start_ok(1) assms(1), of d] tracer_start_ok(2) by (simp_all add: m_def A_def)
  then show ?thesis using results_recorded [OF ok(1)] has_leak_recorded [OF ok(1)] by simp
qed

theorem mtrace_leaks_exact_witness:
  "let m = fold mem_step [(\<lambda>_. True, Malloc 13 100), (\<lambda>k. k = 2, Trace_Alloc 300 5), (\<lambda>_. True, Malloc 8 200), (\<lambda>_. True, Mfree 100)] mtrace_start
   in fst (rcu_get_mtrace_results (\<lambda>_. True) Cache_1 (0, 0) m) = (1, 8) \<and> fst (RCU_CHECK_MEMORY_LEAK (\<lambda>_. True) m) = (1, 5) \<and>
      fst (rcu_has_mem_leak (\<lambda>_. True) m)"
proof -
  let ?cs = "[(\<lambda>_. True, Malloc 13 100), (\<lambda>k. k = 2, Trace_Alloc 300 5), (\<lambda>_. True, Malloc 8 200), (\<lambda>_. True, Mfree 100)]"
  have l: "list_all (\<lambda>(mem, call). mem 2) ?cs" by simp
  have a: "RCU_ALIGN_N 4 13 = 16" "RCU_ALIGN_N 4 8 = 8" by (simp_all add: RCU_ALIGN_N_def)
  show ?thesis
    using mtrace_leaks_exact [OF l, of "\<lambda>_. True" Cache_1] mtrace_leaks_exact [OF l, of "\<lambda>_. True" Cache_2]
    by (simp add: RCU_CHECK_MEMORY_LEAK_def took_def released_def a del: mem_step.simps fold_simps)
qed

text \<open>A call that takes a block which is outstanding already.\<close>

fun retakes :: "cache_ptr \<Rightarrow> mem_call \<Rightarrow> (addr \<times> u64) multiset \<Rightarrow> bool" where
  "retakes Cache_1 (Malloc sz p) A \<longleftrightarrow> p \<in># image_mset fst A"
| "retakes Cache_2 (Trace_Alloc p sz) A \<longleftrightarrow> p \<in># image_mset fst A"
| "retakes c call A \<longleftrightarrow> False"

fun fresh_blocks :: "cache_ptr \<Rightarrow> mem_call list \<Rightarrow> (addr \<times> u64) multiset \<Rightarrow> bool" where
  "fresh_blocks c [] A \<longleftrightarrow> True"
| "fresh_blocks c (call # calls) A \<longleftrightarrow> \<not> retakes c call A \<and> fresh_blocks c calls (outstanding c call A)"

lemma took_mono:
  assumes "B \<subseteq># A" "p \<notin># image_mset fst A"
  shows "took p sz B \<subseteq># took p sz A" "B \<subseteq># took p sz A"
proof -
  have "p \<notin># image_mset fst B" using assms by (meson image_mset_subseteq_mono mset_subset_eqD)
  then show "took p sz B \<subseteq># took p sz A" "B \<subseteq># took p sz A"
    using assms by (auto simp: took_def subset_mset.le_iff_add)
qed

lemma released_mono: "B \<subseteq># A \<Longrightarrow> released p B \<subseteq># released p A"
  by (simp add: released_def multiset_filter_mono)

text \<open>A step keeps what is recorded within what is outstanding, also when it cannot record the block.\<close>

lemma mem_step_within:
  assumes "tracer_ok m" "recorded c m \<subseteq># A" "\<not> retakes c call A"
  shows "recorded c (mem_step (mem, call) m) \<subseteq># outstanding c call A"
proof -
  consider "recorded c (mem_step (mem, call) m) = outstanding c call (recorded c m)"
    | p sz where "call = Malloc sz p \<or> call = Trace_Alloc p sz" "recorded c (mem_step (mem, call) m) = recorded c m"
    using mem_step_ok [OF assms(1), of mem call c] by blast
  then show ?thesis
  proof cases
    case 1
    then show ?thesis using assms(2,3) took_mono(1) [OF assms(2)] released_mono [OF assms(2)] by (cases c; cases call) auto
  next
    case 2
    then show ?thesis using assms(2,3) took_mono(2) [OF assms(2)] by (cases c) auto
  qed
qed

lemma run_within:
  assumes "tracer_ok m" "recorded c m \<subseteq># A" "fresh_blocks c (map snd calls) A"
  shows "tracer_ok (fold mem_step calls m) \<and> recorded c (fold mem_step calls m) \<subseteq># fold (outstanding c) (map snd calls) A"
  using assms
proof (induction calls arbitrary: m A)
  case (Cons x calls)
  obtain mem call where x: "x = (mem, call)" by fastforce
  have "tracer_ok (mem_step x m)" "recorded c (mem_step x m) \<subseteq># outstanding c call A"
    using mem_step_ok [OF Cons.prems(1), of mem call c] mem_step_within [OF Cons.prems(1,2)] Cons.prems(3) by (auto simp: x)
  with Cons.IH [of "mem_step x m" "outstanding c call A"] Cons.prems(3) show ?case by (simp add: x)
qed simp

text \<open>C22. Without memory for its tables the tracer misses blocks, but it never reports one that is not there: when
  \<open>malloc\<close> returns no block that is still outstanding, then whatever requests for tables fail, on initialisation or later,
  each report counts a part of the outstanding blocks, with their sizes, and \<open>rcu_has_mem_leak\<close> is false when the
  framework has released all its blocks.\<close>

theorem reported_leaks_real:
  assumes "fresh_blocks c (map snd calls) {#}"
  defines "m \<equiv> fold mem_step calls mtrace_start"
    and "A \<equiv> fold (outstanding c) (map snd calls) {#}"
  shows "(\<exists>B. B \<subseteq># A \<and> fst (rcu_check_mem_leak_impl mem c m) = (of_nat (size B), sum_mset (image_mset snd B))) \<and>
     (c = Cache_1 \<and> A = {#} \<longrightarrow> \<not> fst (rcu_has_mem_leak mem m))"
proof -
  have ok: "tracer_ok m" "recorded c m \<subseteq># A"
    using run_within [OF tracer_start_ok(1) _ assms(1)] tracer_start_ok(2) by (simp_all add: m_def A_def)
  then show ?thesis using results_recorded(2) [OF ok(1)] has_leak_recorded [OF ok(1), of mem] by auto
qed

theorem reported_leaks_real_witness:
  "let calls = [(\<lambda>_. False, Malloc 13 100), (\<lambda>k. k = 2, Malloc 8 200), (\<lambda>_. True, Mfree 100)]
   in (\<exists>B. B \<subseteq># {#(200 :: addr, 8)#} \<and> fst (RCU_CHECK_MEMORY_LEAK_INTERNAL (\<lambda>_. False) (fold mem_step calls mtrace_start)) =
         (of_nat (size B), sum_mset (image_mset snd B))) \<and>
      \<not> fst (rcu_has_mem_leak (\<lambda>_. False) (fold mem_step (calls @ [(\<lambda>_. True, Mfree 200)]) mtrace_start))"
proof -
  let ?cs = "[(\<lambda>_. False, Malloc 13 100), (\<lambda>k. k = 2, Malloc 8 200), (\<lambda>_. True, Mfree 100)]"
  have a: "RCU_ALIGN_N 4 13 = 16" "RCU_ALIGN_N 4 8 = 8" by (simp_all add: RCU_ALIGN_N_def)
  have f: "fresh_blocks Cache_1 (map snd ?cs) {#}" "fresh_blocks Cache_1 (map snd (?cs @ [(\<lambda>_. True, Mfree 200)])) {#}"
    by (simp_all add: took_def released_def a)
  have o: "fold (outstanding Cache_1) (map snd ?cs) {#} = {#(200, 8)#}"
      "fold (outstanding Cache_1) (map snd (?cs @ [(\<lambda>_. True, Mfree 200)])) {#} = {#}"
    by (simp_all add: took_def released_def a)
  show ?thesis
    using reported_leaks_real [OF f(1), of "\<lambda>_. False"] reported_leaks_real [OF f(2), of "\<lambda>_. False"] unfolding o Let_def
    by (simp only: RCU_CHECK_MEMORY_LEAK_INTERNAL_def simp_thms)
qed

end
