(* ===== verification/Rcu_Thread.thy ===== *)
theory Rcu_Thread
  imports Rcu_List "HOL-Library.Monad_Syntax"
begin

text \<open>
  The table of threads of the test framework (\<^verbatim>\<open>src/rcunit/src/rcunit_thread.c\<close>). A thread is the address of its
  block; the list of threads is a sequence, as \<open>Rcu_List\<close> justifies, or \<open>None\<close> before it is initialised. Reading or
  linking a block that has been freed, freeing it twice and joining a thread that was not created or is joined already are undefined:
  the result is \<open>None\<close>. \<open>malloc\<close> and \<open>pthread_create\<close> are arguments, indexed by the number of the call.
\<close>

section \<open>The code\<close>

record thread_table =
  g_rcu_threads_initialized :: bool
  g_rcu_thread_list :: "addr list option"
  thr_live :: "addr \<Rightarrow> bool"
  thr_name :: "addr \<Rightarrow> string"
  thr_created :: "addr \<Rightarrow> bool"
  thr_calls :: nat
  thr_joined :: "addr list"

definition rcu_init_threads :: "thread_table \<Rightarrow> thread_table" where
  "rcu_init_threads st =
     (if \<not> g_rcu_threads_initialized st then st\<lparr>g_rcu_thread_list := Some [], g_rcu_threads_initialized := True\<rparr> else st)"

definition rcu_destroy_threads :: "thread_table \<Rightarrow> thread_table" where
  "rcu_destroy_threads st = (if g_rcu_threads_initialized st then st\<lparr>g_rcu_threads_initialized := False\<rparr> else st)"

text \<open>\<open>p\<close> is the variable that holds the thread, \<open>None\<close> when its address is \<open>NULL\<close>; the result is its new value.\<close>

definition rcu_destroy_thread :: "addr option \<Rightarrow> thread_table \<Rightarrow> (addr \<times> thread_table) option" where
  "rcu_destroy_thread p st =
     (let st = rcu_init_threads st
      in case p of
           None \<Rightarrow> None
         | Some a \<Rightarrow>
             if a \<noteq> NULL then if thr_live st a then Some (NULL, st\<lparr>thr_live := (thr_live st)(a := False)\<rparr>) else None
             else Some (NULL, st))"

fun srch_threads :: "string \<Rightarrow> addr list \<Rightarrow> thread_table \<Rightarrow> addr option" where
  "srch_threads n [] st = Some NULL"
| "srch_threads n (a # as) st = (if \<not> thr_live st a then None else if thr_name st a = n then Some a else srch_threads n as st)"

definition rcu_srch_thread_by_name :: "string \<Rightarrow> thread_table \<Rightarrow> addr option" where
  "rcu_srch_thread_by_name n st = do { as \<leftarrow> g_rcu_thread_list st; srch_threads n as st }"

text \<open>Linking a new thread writes to the last block of the list.\<close>

definition rcu_get_thread :: "(nat \<Rightarrow> addr option) \<Rightarrow> (nat \<Rightarrow> bool) \<Rightarrow> string option \<Rightarrow> thread_table \<Rightarrow> (addr \<times> thread_table) option" where
  "rcu_get_thread M P name st =
     (let st = rcu_init_threads st
      in case name of
           None \<Rightarrow> Some (NULL, st)
         | Some n \<Rightarrow> do {
             a \<leftarrow> rcu_srch_thread_by_name n st;
             if a \<noteq> NULL then Some (a, st)
             else
               let c = thr_calls st; st = st\<lparr>thr_calls := c + 1\<rparr>
               in case M c of
                    None \<Rightarrow> Some (NULL, st)
                  | Some b \<Rightarrow>
                      if b = NULL \<or> thr_live st b then Some (NULL, st)
                      else do {
                        as \<leftarrow> g_rcu_thread_list st;
                        if as \<noteq> [] \<and> \<not> thr_live st (last as) then None
                        else Some (b, st\<lparr>thr_live := (thr_live st)(b := True), g_rcu_thread_list := Some (as @ [b]),
                               thr_name := (thr_name st)(b := n), thr_created := (thr_created st)(b := P c)\<rparr>)
                      }
           })"

definition rcu_start_thread :: "addr \<Rightarrow> thread_table \<Rightarrow> thread_table" where
  "rcu_start_thread a st = st"

definition rcu_stop_thread :: "addr \<Rightarrow> thread_table \<Rightarrow> thread_table option" where
  "rcu_stop_thread a st =
     (if a = NULL then Some st
      else if \<not> thr_live st a then None
      else do {
        b \<leftarrow> rcu_srch_thread_by_name (thr_name st a) st;
        if b = NULL then Some st
        else if thr_created st a then Some (st\<lparr>thr_created := (thr_created st)(a := False), thr_joined := thr_joined st @ [a]\<rparr>)
        else None
      })"

section \<open>The table while no thread is destroyed\<close>

definition threads_ok :: "thread_table \<Rightarrow> bool" where
  "threads_ok st \<longleftrightarrow> (g_rcu_threads_initialized st \<longrightarrow> g_rcu_thread_list st \<noteq> None) \<and>
     (case g_rcu_thread_list st of None \<Rightarrow> True
      | Some as \<Rightarrow> NULL \<notin> set as \<and> distinct (map (thr_name st) as) \<and> list_all (thr_live st) as)"

lemma init_threads_ok:
  "threads_ok st \<Longrightarrow> threads_ok (rcu_init_threads st)" "g_rcu_threads_initialized (rcu_init_threads st)"
  "threads_ok st \<Longrightarrow> \<exists>as. g_rcu_thread_list (rcu_init_threads st) = Some as"
  by (auto simp: threads_ok_def rcu_init_threads_def)

lemma init_threads_again [simp]: "g_rcu_threads_initialized st \<Longrightarrow> rcu_init_threads st = st"
  by (simp add: rcu_init_threads_def)

lemma srch_threads_live:
  "list_all (thr_live st) as \<Longrightarrow> NULL \<notin> set as \<Longrightarrow>
     (\<exists>a. srch_threads n as st = Some a \<and> (if a = NULL then n \<notin> thr_name st ` set as else a \<in> set as \<and> thr_name st a = n))"
proof (induction as)
  case (Cons c as)
  have "list_all (thr_live st) as" "NULL \<notin> set as" using Cons.prems by simp_all
  from Cons.IH [OF this] obtain a where a: "srch_threads n as st = Some a"
      "if a = NULL then n \<notin> thr_name st ` set as else a \<in> set as \<and> thr_name st a = n" by blast
  show ?case
  proof (cases "thr_name st c = n")
    case True
    then show ?thesis using Cons.prems by (intro exI [of _ c]) auto
  next
    case False
    then show ?thesis using Cons.prems a by (intro exI [of _ a]) (auto split: if_splits)
  qed
qed simp

lemma srch_unique:
  "list_all (thr_live st) as \<Longrightarrow> distinct (map (thr_name st) as) \<Longrightarrow> a \<in> set as \<Longrightarrow> srch_threads (thr_name st a) as st = Some a"
  by (induction as) auto

lemma get_thread_cases:
  assumes "threads_ok st"
  defines "st1 \<equiv> rcu_init_threads st"
  obtains a where "rcu_get_thread M P (Some n) st = Some (a, st1)" "a \<noteq> NULL" "a \<in> set (the (g_rcu_thread_list st1))" "thr_name st1 a = n"
  | "rcu_get_thread M P (Some n) st = Some (NULL, st1\<lparr>thr_calls := thr_calls st1 + 1\<rparr>)"
  | as b where "rcu_get_thread M P (Some n) st = Some (b, st1\<lparr>thr_calls := thr_calls st1 + 1, thr_live := (thr_live st1)(b := True),
      g_rcu_thread_list := Some (as @ [b]), thr_name := (thr_name st1)(b := n), thr_created := (thr_created st1)(b := P (thr_calls st1))\<rparr>)"
    "b \<noteq> NULL" "\<not> thr_live st1 b" "g_rcu_thread_list st1 = Some as" "n \<notin> thr_name st1 ` set as"
proof -
  obtain as where as: "g_rcu_thread_list st1 = Some as" and ok: "threads_ok st1"
    using init_threads_ok [of st] assms by auto
  then have live: "list_all (thr_live st1) as" "NULL \<notin> set as" by (auto simp: threads_ok_def)
  obtain a where a: "srch_threads n as st1 = Some a" "if a = NULL then n \<notin> thr_name st1 ` set as else a \<in> set as \<and> thr_name st1 a = n"
    using srch_threads_live [OF live] by blast
  have s: "rcu_srch_thread_by_name n st1 = Some a" using a as by (simp add: rcu_srch_thread_by_name_def)
  have l: "as = [] \<or> thr_live st1 (last as)" using live(1) by (cases as rule: rev_cases) auto
  show thesis
  proof (cases "a = NULL")
    case False
    then show thesis using that(1) [of a] a(2) as s by (simp add: rcu_get_thread_def st1_def [symmetric] Let_def)
  next
    case True
    show thesis
    proof (cases "M (thr_calls st1)")
      case None
      then show thesis using that(2) True s by (simp add: rcu_get_thread_def st1_def [symmetric] Let_def)
    next
      case (Some b)
      show thesis
      proof (cases "b = NULL \<or> thr_live st1 b")
        case True
        then show thesis using that(2) Some \<open>a = NULL\<close> s by (auto simp: rcu_get_thread_def st1_def [symmetric] Let_def)
      next
        case False
        then show thesis using that(3) [of b as] Some True s a(2) as l by (simp add: rcu_get_thread_def st1_def [symmetric] Let_def)
      qed
    qed
  qed
qed

lemma get_thread_ok:
  assumes "threads_ok st" "rcu_get_thread M P (Some n) st = Some (a, st')" "a \<noteq> NULL"
  shows "threads_ok st' \<and> g_rcu_threads_initialized st' \<and> a \<in> set (the (g_rcu_thread_list st')) \<and> thr_name st' a = n"
proof (cases rule: get_thread_cases [OF assms(1), of M P n])
  case (1 b)
  then show ?thesis using assms(2) init_threads_ok [of st] assms(1) by auto
next
  case 2
  then show ?thesis using assms(2,3) by simp
next
  case (3 as b)
  have ok: "threads_ok (rcu_init_threads st)" by (rule init_threads_ok(1) [OF assms(1)])
  have b: "b \<notin> set as" using 3(3,4) ok by (auto simp: threads_ok_def list_all_iff)
  then have "map ((thr_name (rcu_init_threads st))(b := n)) as = map (thr_name (rcu_init_threads st)) as" by (auto intro: map_cong)
  then show ?thesis using 3 assms(2) ok b init_threads_ok(2) [of st] by (auto simp: threads_ok_def list_all_iff)
qed

text \<open>Any series of requests keeps the table: the interface \<open>inv_machine\<close> on the requests of a program.\<close>

definition request :: "(nat \<Rightarrow> addr option) \<Rightarrow> (nat \<Rightarrow> bool) \<Rightarrow> thread_table \<Rightarrow> string option \<Rightarrow> thread_table" where
  "request M P st name = snd (the (rcu_get_thread M P name st))"

lemma request_ok:
  assumes "threads_ok st"
  shows "threads_ok (request M P st name)"
proof (cases name)
  case None
  then show ?thesis using init_threads_ok(1) [OF assms] by (simp add: request_def rcu_get_thread_def)
next
  case (Some n)
  show ?thesis
  proof (cases rule: get_thread_cases [OF assms, of M P n])
    case (1 a)
    then show ?thesis using init_threads_ok(1) [OF assms] Some by (simp add: request_def)
  next
    case 2
    obtain as where "g_rcu_thread_list (rcu_init_threads st) = Some as" using init_threads_ok(3) [OF assms] by blast
    then show ?thesis using 2 init_threads_ok(1) [OF assms] Some by (auto simp: request_def threads_ok_def list_all_iff comp_def)
  next
    case (3 as b)
    then show ?thesis using get_thread_ok [OF assms 3(1,2)] Some by (simp add: request_def)
  qed
qed

interpretation thr: inv_machine "request M P" threads_ok for M P
  by unfold_locales (rule request_ok)

section \<open>Properties\<close>

text \<open>Asking for a thread by name gives the same thread again: after any requests, as long as no thread is destroyed, \<open>rcu_get_thread\<close> is
  free of undefined behaviour, the thread it returns is in the table under its name, and asking again returns
  the same thread, creates nothing and changes nothing.\<close>

theorem get_thread_stable:
  fixes names N Q
  assumes "threads_ok start"
  defines "st \<equiv> run_steps (request N Q) start names"
  shows "\<exists>a st'. rcu_get_thread M P (Some n) st = Some (a, st') \<and>
     (a = NULL \<or> threads_ok st' \<and> thr_name st' a = n \<and> rcu_get_thread M' P' (Some n) st' = Some (a, st'))"
proof -
  have ok: "threads_ok st" unfolding st_def by (rule thr.run_inv [OF assms(1)])
  obtain a st' where g: "rcu_get_thread M P (Some n) st = Some (a, st')"
    by (rule get_thread_cases [OF ok, of M P n]) blast+
  moreover have "threads_ok st' \<and> thr_name st' a = n \<and> rcu_get_thread M' P' (Some n) st' = Some (a, st')" if a: "a \<noteq> NULL"
  proof -
    note ok = get_thread_ok [OF ok g a]
    then obtain as where as: "g_rcu_thread_list st' = Some as" "a \<in> set as" by (auto simp: threads_ok_def)
    then have "srch_threads n as st' = Some a" using srch_unique [of st' as a] ok by (auto simp: threads_ok_def)
    then show ?thesis using ok as a by (simp add: rcu_get_thread_def rcu_srch_thread_by_name_def)
  qed
  ultimately show ?thesis by metis
qed

definition no_threads :: thread_table where
  "no_threads = \<lparr>g_rcu_threads_initialized = False, g_rcu_thread_list = None, thr_live = (\<lambda>_. False), thr_name = (\<lambda>_. []),
     thr_created = (\<lambda>_. False), thr_calls = 0, thr_joined = []\<rparr>"

theorem get_thread_stable_witness:
  "\<exists>st'. rcu_get_thread (\<lambda>n. Some (n + 1)) (\<lambda>_. True) (Some ''t'') no_threads = Some (1, st') \<and>
     rcu_get_thread (\<lambda>_. None) (\<lambda>_. True) (Some ''t'') st' = Some (1, st')"
proof -
  have "threads_ok no_threads" by (simp add: threads_ok_def no_threads_def)
  moreover have "\<exists>st'. rcu_get_thread (\<lambda>n. Some (n + 1)) (\<lambda>_. True) (Some ''t'') no_threads = Some (1, st')"
    by (simp add: rcu_get_thread_def no_threads_def rcu_init_threads_def rcu_srch_thread_by_name_def)
  ultimately show ?thesis
    using get_thread_stable [where start = no_threads and names = "[]" and N = "\<lambda>_. None" and Q = "\<lambda>_. True" and M = "\<lambda>n. Some (n + 1)"
        and P = "\<lambda>_. True" and n = "''t''" and M' = "\<lambda>_. None" and P' = "\<lambda>_. True"] by auto
qed

text \<open>C40. A destroyed thread stays in the table: \<open>rcu_destroy_thread\<close> frees the block of the thread without taking it out of the
  list, so that the next look-up of any name that no earlier thread has reads freed memory.\<close>

theorem destroyed_thread_dangles:
  assumes "threads_ok st" "g_rcu_threads_initialized st" "g_rcu_thread_list st = Some (xs @ a # ys)" "n \<notin> thr_name st ` set xs"
  shows "\<exists>st'. rcu_destroy_thread (Some a) st = Some (NULL, st') \<and> g_rcu_thread_list st' = Some (xs @ a # ys) \<and>
     rcu_get_thread M P (Some n) st' = None"
proof -
  let ?st = "st\<lparr>thr_live := (thr_live st)(a := False)\<rparr>"
  have a: "a \<noteq> NULL" "thr_live st a" "a \<notin> set xs" "list_all (thr_live st) xs"
    using assms(1,3) by (auto simp: threads_ok_def)
  then have "list_all (thr_live ?st) xs" by (auto simp: list_all_iff)
  then have "srch_threads n (xs @ a # ys) ?st = None" using assms(4) by (induction xs) auto
  then show ?thesis using a assms(2,3) by (simp add: rcu_destroy_thread_def rcu_get_thread_def rcu_srch_thread_by_name_def)
qed

theorem destroyed_thread_dangles_witness:
  "\<exists>st st'. rcu_get_thread (\<lambda>n. Some (n + 1)) (\<lambda>_. True) (Some ''t'') no_threads = Some (1, st) \<and> rcu_destroy_thread (Some 1) st = Some (0, st') \<and>
     rcu_get_thread (\<lambda>n. Some (n + 1)) (\<lambda>_. True) (Some ''t'') st' = None"
proof -
  obtain st where "rcu_get_thread (\<lambda>n. Some (n + 1)) (\<lambda>_. True) (Some ''t'') no_threads = Some (1, st)"
      "g_rcu_threads_initialized st" "g_rcu_thread_list st = Some ([] @ 1 # [])" "threads_ok st"
    by (simp add: rcu_get_thread_def no_threads_def rcu_init_threads_def rcu_srch_thread_by_name_def threads_ok_def)
  then show ?thesis using destroyed_thread_dangles [of st "[]" 1 "[]" "''t''" "\<lambda>n. Some (n + 1)" "\<lambda>_. True"] by auto
qed

end
