(* ===== verification/Rcu_Run.thy ===== *)
theory Rcu_Run
  imports Rcu_Tables
begin

text \<open>
  Running tests: the assertion engine (\<^verbatim>\<open>src/rcunit/src/rcunit_assert.c\<close>) and the runners of test functions,
  modules, registries and the machine (\<^verbatim>\<open>rcunit_function.c\<close>, \<^verbatim>\<open>rcunit_module.c\<close>, \<^verbatim>\<open>rcunit_registry.c\<close>,
  \<^verbatim>\<open>rcunit_machine.c\<close>, \<^verbatim>\<open>rcunit.c\<close>). User code is an input: what a setup, test or teardown function does is
  the list of assertions, thrown exceptions and signals it gets to. \<open>RCU_TRY\<close>, \<open>RCU_CATCH\<close> and \<open>RCU_THROW\<close>
  are an optional exception in the result. The linked lists of registries, modules and tests are
  sequences, as \<open>Rcu_List\<close> justifies; a pointer to the current test or module is the record itself, written
  back when its turn is over. Whether there is memory for failure records is the argument \<open>mem\<close>.
\<close>

section \<open>Data\<close>

datatype step = Assert bool string string | Throw rcu_exception_id | Crash core_signal

type_synonym body = "step list"

datatype run_ctx =
    RCU_RUN_CTX_UNKNOWN | RCU_RUN_CTX_FUNC | RCU_RUN_CTX_FUNC_INIT | RCU_RUN_CTX_FUNC_DESTROY
  | RCU_RUN_CTX_MOD_INIT | RCU_RUN_CTX_MOD_DESTROY

datatype run_stat = RCU_RUN_STAT_NOTTESTED | RCU_RUN_STAT_TEST_SUCC | RCU_RUN_STAT_TEST_FAILED

datatype run_level = RCU_RUN_LEVEL_MACH | RCU_RUN_LEVEL_REG | RCU_RUN_LEVEL_MOD

datatype run_event = RCU_TEST_RUN_STARTED | RCU_TEST_RUN_FINISHED

record rcu_test =
  t_name :: string
  t_entry :: body
  t_init :: "body option"
  t_destroy :: "body option"
  t_run_stat :: run_stat
  t_init_failed :: bool
  t_destroy_failed :: bool
  nr_fail_assert :: int
  nr_succ_assert :: int
  t_fail_recs :: "string list"

record rcu_module =
  m_name :: string
  m_init :: "body option"
  m_destroy :: "body option"
  func_list :: "rcu_test list"
  m_nr_test :: int
  m_nr_failed_test :: int
  m_nr_succ_test :: int
  m_run_stat :: run_stat
  m_init_failed :: bool
  m_destroy_failed :: bool
  m_fail_recs :: "string list"

record rcu_registry =
  r_name :: string
  mod_list :: "rcu_module list"
  nr_mod :: int
  nr_failed_mod :: int
  nr_succ_mod :: int

text \<open>
  The machine; \<open>hook_log\<close> is what the run hook of the user was called with and \<open>assert_log\<close> what the hook for
  assertions outside a test run was called with.
\<close>

record rcu_test_machine =
  reg_list :: "rcu_registry list"
  ctx :: run_ctx
  level :: run_level
  has_run_hook :: bool
  hook_log :: "run_event list"
  assert_list :: "string list"
  has_assert_hook :: bool
  assert_log :: "string list"
  nr_failed_reg :: int
  nr_succ_reg :: int
  nr_failed_test :: int
  nr_succ_test :: int

text \<open>The machine with its current module and its current test function.\<close>

record engine =
  mach :: rcu_test_machine
  curr_mod :: rcu_module
  curr_func :: rcu_test

section \<open>Assertions\<close>

definition rcu_add_fail_rec_impl :: "bool \<Rightarrow> string \<Rightarrow> string list \<Rightarrow> string list" where
  "rcu_add_fail_rec_impl mem info recs = (if mem then recs @ [info] else recs)"

text \<open>
  An assertion in the function \<open>fn\<close> with the message \<open>info\<close> of its failure record. In the branch for setup and
  teardown of a test the code compares with the context of a module, which it never is there.
\<close>

definition rcu_assert_impl ::
    "bool \<Rightarrow> bool \<Rightarrow> string \<Rightarrow> string \<Rightarrow> engine \<Rightarrow> engine \<times> rcu_exception_id option" where
  "rcu_assert_impl mem cond fn info e =
     (let run_ctx = ctx (mach e); func = curr_func e; md = curr_mod e;
          e_unknown = e\<lparr>mach := (mach e)\<lparr>ctx := RCU_RUN_CTX_UNKNOWN\<rparr>\<rparr>
      in if run_ctx = RCU_RUN_CTX_MOD_INIT \<or> run_ctx = RCU_RUN_CTX_MOD_DESTROY then
           (if \<not> cond then
              let md1 = (if run_ctx = RCU_RUN_CTX_MOD_INIT then md\<lparr>m_init_failed := True\<rparr> else md\<lparr>m_destroy_failed := True\<rparr>);
                  md2 = md1\<lparr>m_fail_recs := rcu_add_fail_rec_impl mem info (m_fail_recs md1)\<rparr>
              in (e_unknown\<lparr>curr_mod := md2\<rparr>, Some (fst (rcu_lookup_excp_by_id RCU_EXCP_ABORTMODRUN)))
            else (e, None))
         else if run_ctx = RCU_RUN_CTX_FUNC_INIT \<or> run_ctx = RCU_RUN_CTX_FUNC_DESTROY then
           (if \<not> cond then
              let func1 = (if run_ctx = RCU_RUN_CTX_MOD_INIT then func\<lparr>t_init_failed := True\<rparr>
                           else func\<lparr>t_destroy_failed := True\<rparr>);
                  func2 = func1\<lparr>t_fail_recs := rcu_add_fail_rec_impl mem info (t_fail_recs func1)\<rparr>
              in (e_unknown\<lparr>curr_func := func2\<rparr>, Some (fst (rcu_lookup_excp_by_id RCU_EXCP_ASSERTIONFAILURE)))
            else (e, None))
         else if run_ctx = RCU_RUN_CTX_FUNC then
           (let func0 = (if t_name func = ''set_on_run'' then func\<lparr>t_name := fn\<rparr> else func)
            in if \<not> cond then
                 let func1 = func0\<lparr>nr_fail_assert := nr_fail_assert func0 + 1, t_run_stat := RCU_RUN_STAT_TEST_FAILED,
                                   t_fail_recs := rcu_add_fail_rec_impl mem info (t_fail_recs func0)\<rparr>
                 in (e_unknown\<lparr>curr_func := func1\<rparr>, Some (fst (rcu_lookup_excp_by_id RCU_EXCP_ASSERTIONFAILURE)))
               else (e\<lparr>curr_func := func0\<lparr>nr_succ_assert := nr_succ_assert func0 + 1\<rparr>\<rparr>, None))
         else
           (if \<not> cond then
              (let m = (mach e)\<lparr>assert_list := rcu_add_fail_rec_impl mem info (assert_list (mach e))\<rparr>
               in (e\<lparr>mach := (if mem \<and> has_assert_hook m then m\<lparr>assert_log := assert_log m @ [info]\<rparr> else m)\<rparr>, None))
            else (e, None)))"

text \<open>A call of user code inside \<open>RCU_TRY\<close>: it ends normally, or with the exception that is caught.\<close>

fun call :: "bool \<Rightarrow> body \<Rightarrow> engine \<Rightarrow> engine \<times> rcu_exception_id option" where
  "call mem [] e = (e, None)"
| "call mem (Assert cond fn info # b) e =
     (case rcu_assert_impl mem cond fn info e of
        (e1, None) \<Rightarrow> call mem b e1
      | (e1, Some x) \<Rightarrow> (e1, Some x))"
| "call mem (Throw x # b) e = (e, Some (fst (rcu_lookup_excp_by_id x)))"
| "call mem (Crash sig # b) e = (e, Some (fst (rcu_sig_handler sig)))"

definition set_ctx :: "run_ctx \<Rightarrow> engine \<Rightarrow> engine" where
  "set_ctx c e = e\<lparr>mach := (mach e)\<lparr>ctx := c\<rparr>\<rparr>"

definition upd_func :: "(rcu_test \<Rightarrow> rcu_test) \<Rightarrow> engine \<Rightarrow> engine" where
  "upd_func f e = e\<lparr>curr_func := f (curr_func e)\<rparr>"

definition upd_mod :: "(rcu_module \<Rightarrow> rcu_module) \<Rightarrow> engine \<Rightarrow> engine" where
  "upd_mod f e = e\<lparr>curr_mod := f (curr_mod e)\<rparr>"

section \<open>Runners\<close>

text \<open>The current function of \<open>e\<close> is the one to run. First its setup, then the test, then the teardown.\<close>

definition run_entry :: "bool \<Rightarrow> engine \<Rightarrow> engine" where
  "run_entry mem e =
     (case call mem (t_entry (curr_func e)) (set_ctx RCU_RUN_CTX_FUNC e) of
        (e1, Some x) \<Rightarrow> e1
      | (e1, None) \<Rightarrow>
          if nr_succ_assert (curr_func e1) = 0 \<and> nr_fail_assert (curr_func e1) = 0
          then upd_func (\<lambda>f. f\<lparr>t_run_stat := RCU_RUN_STAT_TEST_FAILED\<rparr>) e1
          else upd_func (\<lambda>f. f\<lparr>t_run_stat := RCU_RUN_STAT_TEST_SUCC\<rparr>) e1)"

definition rcu_run_test_func_impl :: "bool \<Rightarrow> engine \<Rightarrow> rcu_error \<times> engine" where
  "rcu_run_test_func_impl mem e =
     (let e0 = upd_func (\<lambda>f. f\<lparr>t_run_stat := RCU_RUN_STAT_TEST_FAILED, nr_fail_assert := 0, nr_succ_assert := 0\<rparr>) e;
          (e1, x1) = (case t_init (curr_func e0) of
                        None \<Rightarrow> (e0, None)
                      | Some b \<Rightarrow> call mem b (set_ctx RCU_RUN_CTX_FUNC_INIT e0))
      in if x1 \<noteq> None then (RCU_E_NG, e1)
         else
           let e2 = run_entry mem e1;
               (e3, x3) = (case t_destroy (curr_func e2) of
                             None \<Rightarrow> (e2, None)
                           | Some b \<Rightarrow> call mem b (set_ctx RCU_RUN_CTX_FUNC_DESTROY e2))
           in if x3 \<noteq> None then (RCU_E_NG, e3) else (RCU_E_OK, e3))"

text \<open>The loop over the tests of a module; the tests come back as they are after their run.\<close>

definition count_test :: "engine \<Rightarrow> engine" where
  "count_test e =
     (if t_init_failed (curr_func e) \<or> t_destroy_failed (curr_func e) then
        upd_mod (\<lambda>m. m\<lparr>m_nr_failed_test := m_nr_failed_test m + 1\<rparr>)
          (upd_func (\<lambda>f. f\<lparr>t_run_stat := RCU_RUN_STAT_TEST_FAILED\<rparr>) e)
      else if t_run_stat (curr_func e) = RCU_RUN_STAT_TEST_FAILED then
        upd_mod (\<lambda>m. m\<lparr>m_nr_failed_test := m_nr_failed_test m + 1\<rparr>) e
      else upd_mod (\<lambda>m. m\<lparr>m_nr_succ_test := m_nr_succ_test m + 1\<rparr>) e)"

fun run_funcs :: "bool \<Rightarrow> rcu_test list \<Rightarrow> engine \<Rightarrow> rcu_test list \<times> engine" where
  "run_funcs mem [] e = ([], e)"
| "run_funcs mem (f # fs) e =
     (let e1 = count_test (snd (rcu_run_test_func_impl mem (e\<lparr>curr_func := f\<rparr>)));
          (fs', e2) = run_funcs mem fs e1
      in (curr_func e1 # fs', e2))"

definition call_hook :: "run_event \<Rightarrow> engine \<Rightarrow> engine" where
  "call_hook ev e =
     (if has_run_hook (mach e) then e\<lparr>mach := (mach e)\<lparr>hook_log := hook_log (mach e) @ [ev]\<rparr>\<rparr> else e)"

definition run_hook :: "run_level \<Rightarrow> run_event \<Rightarrow> engine \<Rightarrow> engine" where
  "run_hook lvl ev e = (if level (mach e) = lvl then call_hook ev e else e)"

definition reset_counters :: "rcu_test_machine \<Rightarrow> rcu_test_machine" where
  "reset_counters m = m\<lparr>nr_failed_reg := 0, nr_succ_reg := 0, nr_failed_test := 0, nr_succ_test := 0\<rparr>"

text \<open>The current module of \<open>e\<close> is the one to run.\<close>

definition rcu_run_test_mod_impl :: "bool \<Rightarrow> engine \<Rightarrow> rcu_error \<times> engine" where
  "rcu_run_test_mod_impl mem e =
     (let e0 = run_hook RCU_RUN_LEVEL_MOD RCU_TEST_RUN_STARTED e;
          e1 = (if level (mach e) = RCU_RUN_LEVEL_MOD
                then upd_mod (\<lambda>m. m\<lparr>m_nr_failed_test := 0, m_nr_succ_test := 0\<rparr>) (e0\<lparr>mach := reset_counters (mach e0)\<rparr>)
                else e0);
          (e2, x2) = (case m_init (curr_mod e1) of
                        None \<Rightarrow> (e1, None)
                      | Some b \<Rightarrow> call mem b (set_ctx RCU_RUN_CTX_MOD_INIT e1))
      in if x2 \<noteq> None then (RCU_E_NG, run_hook RCU_RUN_LEVEL_MOD RCU_TEST_RUN_FINISHED e2)
         else
           let (fs, e3) = run_funcs mem (func_list (curr_mod e2)) e2;
               e4 = upd_mod (\<lambda>m. m\<lparr>func_list := fs\<rparr>) e3;
               (e5, x5) = (case m_destroy (curr_mod e4) of
                             None \<Rightarrow> (e4, None)
                           | Some b \<Rightarrow> call mem b (set_ctx RCU_RUN_CTX_MOD_DESTROY e4));
               e6 = run_hook RCU_RUN_LEVEL_MOD RCU_TEST_RUN_FINISHED e5
           in if x5 \<noteq> None then (RCU_E_NG, e6)
              else
                let md = curr_mod e6;
                    stat = (if m_nr_failed_test md = 0 then RCU_RUN_STAT_TEST_SUCC else RCU_RUN_STAT_TEST_FAILED)
                in (RCU_E_OK, e6\<lparr>curr_mod := md\<lparr>m_run_stat := stat\<rparr>,
                     mach := (mach e6)\<lparr>nr_failed_test := nr_failed_test (mach e6) + m_nr_failed_test md,
                                       nr_succ_test := nr_succ_test (mach e6) + m_nr_succ_test md\<rparr>\<rparr>))"

text \<open>The loop over the modules of a registry; \<open>reg\<close> carries the counters.\<close>

definition override_test :: "rcu_test \<Rightarrow> rcu_test" where
  "override_test f = f\<lparr>t_run_stat := RCU_RUN_STAT_TEST_FAILED, nr_fail_assert := 0, nr_succ_assert := 0, t_fail_recs := []\<rparr>"

definition count_mod :: "rcu_module \<Rightarrow> rcu_registry \<Rightarrow> rcu_module \<times> rcu_registry" where
  "count_mod md reg =
     (if m_init_failed md \<or> m_destroy_failed md then
        (md\<lparr>m_run_stat := RCU_RUN_STAT_TEST_FAILED, func_list := map override_test (func_list md)\<rparr>, reg)
      else if m_run_stat md = RCU_RUN_STAT_TEST_FAILED then (md, reg\<lparr>nr_failed_mod := nr_failed_mod reg + 1\<rparr>)
      else (md, reg\<lparr>nr_succ_mod := nr_succ_mod reg + 1\<rparr>))"

fun run_mods :: "bool \<Rightarrow> rcu_module list \<Rightarrow> rcu_registry \<Rightarrow> engine \<Rightarrow> rcu_module list \<times> rcu_registry \<times> engine" where
  "run_mods mem [] reg e = ([], reg, e)"
| "run_mods mem (md # mds) reg e =
     (let e1 = snd (rcu_run_test_mod_impl mem (e\<lparr>curr_mod := md\<rparr>));
          (md1, reg1) = count_mod (curr_mod e1) reg;
          (mds', reg2, e2) = run_mods mem mds reg1 e1
      in (md1 # mds', reg2, e2))"

definition rcu_run_test_reg_impl :: "bool \<Rightarrow> rcu_registry \<Rightarrow> engine \<Rightarrow> rcu_registry \<times> engine" where
  "rcu_run_test_reg_impl mem reg e =
     (let e0 = run_hook RCU_RUN_LEVEL_REG RCU_TEST_RUN_STARTED e;
          (reg0, e1) = (if level (mach e) = RCU_RUN_LEVEL_REG
                        then (reg\<lparr>nr_failed_mod := 0, nr_succ_mod := 0\<rparr>, e0\<lparr>mach := reset_counters (mach e0)\<rparr>)
                        else (reg, e0));
          (mds, reg1, e2) = run_mods mem (mod_list reg0) reg0 e1;
          e3 = run_hook RCU_RUN_LEVEL_REG RCU_TEST_RUN_FINISHED e2;
          m = mach e3
      in (reg1\<lparr>mod_list := mds\<rparr>,
          e3\<lparr>mach := (if nr_failed_mod reg1 > 0 then m\<lparr>nr_failed_reg := nr_failed_reg m + 1\<rparr>
                      else m\<lparr>nr_succ_reg := nr_succ_reg m + 1\<rparr>)\<rparr>))"

fun run_regs :: "bool \<Rightarrow> rcu_registry list \<Rightarrow> engine \<Rightarrow> rcu_registry list \<times> engine" where
  "run_regs mem [] e = ([], e)"
| "run_regs mem (reg # regs) e =
     (let (reg1, e1) = rcu_run_test_reg_impl mem reg e;
          (regs', e2) = run_regs mem regs e1
      in (reg1 # regs', e2))"

definition rcu_run_tests_impl :: "bool \<Rightarrow> engine \<Rightarrow> engine" where
  "rcu_run_tests_impl mem e =
     (let e0 = call_hook RCU_TEST_RUN_STARTED e;
          (regs, e1) = run_regs mem (reg_list (mach e0)) e0;
          e2 = e1\<lparr>mach := (mach e1)\<lparr>reg_list := regs\<rparr>\<rparr>
      in call_hook RCU_TEST_RUN_FINISHED e2)"

text \<open>The value a test program returns from \<open>main\<close>; the report and the release of the database come after.\<close>

definition rcu_run_test_mach :: "bool \<Rightarrow> engine \<Rightarrow> rcu_error \<times> engine" where
  "rcu_run_test_mach mem e =
     (let e1 = rcu_run_tests_impl mem (e\<lparr>mach := (mach e)\<lparr>level := RCU_RUN_LEVEL_MACH\<rparr>\<rparr>)
      in (if nr_failed_reg (mach e1) > 0 then RCU_E_NG else RCU_E_OK, e1))"

definition rcu_get_nr_tests :: "rcu_test_machine \<Rightarrow> nat" where
  "rcu_get_nr_tests m = sum_list (map (\<lambda>reg. sum_list (map (\<lambda>md. length (func_list md)) (mod_list reg))) (reg_list m))"

definition rcu_get_nr_mods :: "rcu_test_machine \<Rightarrow> nat" where
  "rcu_get_nr_mods m = sum_list (map (\<lambda>reg. length (mod_list reg)) (reg_list m))"

definition rcu_get_nr_regs :: "rcu_test_machine \<Rightarrow> nat" where
  "rcu_get_nr_regs m = length (reg_list m)"

definition rcu_reset_all_run_stat :: "rcu_test_machine \<Rightarrow> rcu_test_machine" where
  "rcu_reset_all_run_stat m =
     m\<lparr>reg_list := map (\<lambda>reg. reg\<lparr>mod_list := map (\<lambda>md. md\<lparr>func_list := map (\<lambda>f. f\<lparr>t_run_stat := RCU_RUN_STAT_NOTTESTED\<rparr>)
        (func_list md)\<rparr>) (mod_list reg)\<rparr>) (reg_list m)\<rparr>"

section \<open>What a call of user code does\<close>

text \<open>
  \<open>clean b\<close>: all assertions hold and nothing is thrown. \<open>fails_assert b\<close>: the first thing that goes wrong is an
  assertion, not an exception or a signal.
\<close>

fun clean :: "body \<Rightarrow> bool" where
  "clean [] = True"
| "clean (Assert cond fn info # b) = (cond \<and> clean b)"
| "clean (Throw x # b) = False"
| "clean (Crash sig # b) = False"

fun fails_assert :: "body \<Rightarrow> bool" where
  "fails_assert [] = False"
| "fails_assert (Assert cond fn info # b) = (if cond then fails_assert b else True)"
| "fails_assert (Throw x # b) = False"
| "fails_assert (Crash sig # b) = False"

lemma clean_no_fail: "clean b \<Longrightarrow> \<not> fails_assert b"
  by (induction b rule: clean.induct) auto

text \<open>The fields of a test that running it does not change, and all but the marks of a failed setup or teardown.\<close>

definition plan :: "rcu_test \<Rightarrow> body \<times> body option \<times> body option \<times> bool" where
  "plan f = (t_entry f, t_init f, t_destroy f, t_init_failed f)"

lemma call_fixture:
  assumes "ctx (mach e) = RCU_RUN_CTX_FUNC_INIT \<or> ctx (mach e) = RCU_RUN_CTX_FUNC_DESTROY" "call mem b e = (e', x)"
  shows "(x = None \<longleftrightarrow> clean b) \<and> curr_mod e' = curr_mod e \<and> plan (curr_func e') = plan (curr_func e) \<and>
     t_run_stat (curr_func e') = t_run_stat (curr_func e) \<and> nr_succ_assert (curr_func e') = nr_succ_assert (curr_func e) \<and>
     nr_fail_assert (curr_func e') = nr_fail_assert (curr_func e) \<and>
     (t_destroy_failed (curr_func e') \<longleftrightarrow> t_destroy_failed (curr_func e) \<or> fails_assert b)"
  using assms
proof (induction mem b e rule: call.induct)
  case (2 mem cond fn info b e)
  then show ?case by (cases cond) (auto simp: rcu_assert_impl_def plan_def Let_def)
qed auto

lemma call_entry:
  assumes "ctx (mach e) = RCU_RUN_CTX_FUNC" "call mem b e = (e', x)"
  shows "(x = None \<longleftrightarrow> clean b) \<and> curr_mod e' = curr_mod e \<and> plan (curr_func e') = plan (curr_func e) \<and>
     (t_run_stat (curr_func e') = t_run_stat (curr_func e) \<or> t_run_stat (curr_func e') = RCU_RUN_STAT_TEST_FAILED) \<and>
     t_destroy_failed (curr_func e') = t_destroy_failed (curr_func e) \<and>
     (x = None \<longrightarrow> nr_succ_assert (curr_func e') = nr_succ_assert (curr_func e) + int (length b) \<and>
        nr_fail_assert (curr_func e') = nr_fail_assert (curr_func e))"
  using assms
proof (induction mem b e rule: call.induct)
  case (2 mem cond fn info b e)
  show ?case
  proof (cases cond)
    case True
    obtain e1 where a: "rcu_assert_impl mem cond fn info e = (e1, None)" "ctx (mach e1) = RCU_RUN_CTX_FUNC"
        "curr_mod e1 = curr_mod e" "plan (curr_func e1) = plan (curr_func e)"
        "t_run_stat (curr_func e1) = t_run_stat (curr_func e)" "t_destroy_failed (curr_func e1) = t_destroy_failed (curr_func e)"
        "nr_succ_assert (curr_func e1) = nr_succ_assert (curr_func e) + 1" "nr_fail_assert (curr_func e1) = nr_fail_assert (curr_func e)"
      using True "2.prems"(1) by (auto simp: rcu_assert_impl_def plan_def Let_def)
    have "call mem b e1 = (e', x)" using "2.prems"(2) a(1) by simp
    from "2.IH" [OF a(1) [symmetric] _ a(2) this] a True show ?thesis by auto
  next
    case False
    then show ?thesis using "2.prems" by (auto simp: rcu_assert_impl_def plan_def Let_def split: if_splits)
  qed
qed auto

lemma mach_upd [simp]:
  "curr_func (set_ctx c e) = curr_func e" "curr_mod (set_ctx c e) = curr_mod e" "ctx (mach (set_ctx c e)) = c"
  "curr_func (upd_func g e) = g (curr_func e)" "curr_mod (upd_func g e) = curr_mod e" "mach (upd_func g e) = mach e"
  "curr_func (upd_mod k e) = curr_func e" "curr_mod (upd_mod k e) = k (curr_mod e)" "mach (upd_mod k e) = mach e"
  by (simp_all add: set_ctx_def upd_func_def upd_mod_def)

text \<open>A test passes when its setup is clean, its body is clean and asserts something, and no assertion fails in its teardown.\<close>

definition passes :: "rcu_test \<Rightarrow> bool" where
  "passes f \<longleftrightarrow> (case t_init f of None \<Rightarrow> True | Some b \<Rightarrow> clean b) \<and> clean (t_entry f) \<and> t_entry f \<noteq> [] \<and>
     (case t_destroy f of None \<Rightarrow> True | Some b \<Rightarrow> \<not> fails_assert b)"

lemma run_entry_verdict:
  fixes mem
  assumes "t_run_stat (curr_func e) = RCU_RUN_STAT_TEST_FAILED" "nr_succ_assert (curr_func e) = 0" "nr_fail_assert (curr_func e) = 0"
  defines "e' \<equiv> run_entry mem e"
  shows "curr_mod e' = curr_mod e \<and> plan (curr_func e') = plan (curr_func e) \<and>
     t_destroy_failed (curr_func e') = t_destroy_failed (curr_func e) \<and>
     t_run_stat (curr_func e') = (if clean (t_entry (curr_func e)) \<and> t_entry (curr_func e) \<noteq> []
       then RCU_RUN_STAT_TEST_SUCC else RCU_RUN_STAT_TEST_FAILED)"
proof -
  obtain e1 x where c: "call mem (t_entry (curr_func e)) (set_ctx RCU_RUN_CTX_FUNC e) = (e1, x)" by (metis surj_pair)
  have "ctx (mach (set_ctx RCU_RUN_CTX_FUNC e)) = RCU_RUN_CTX_FUNC" by simp
  from call_entry [OF this c] show ?thesis using assms by (cases x) (auto simp: e'_def run_entry_def c plan_def)
qed

lemma func_impl_verdict:
  assumes "\<not> t_init_failed f" "\<not> t_destroy_failed f" "rcu_run_test_func_impl mem (e\<lparr>curr_func := f\<rparr>) = (r, e')"
  shows "curr_mod e' = curr_mod e \<and> \<not> t_init_failed (curr_func e') \<and>
     (t_destroy_failed (curr_func e') \<or> t_run_stat (curr_func e') = RCU_RUN_STAT_TEST_FAILED \<longleftrightarrow> \<not> passes f) \<and>
     (t_run_stat (curr_func e') = RCU_RUN_STAT_TEST_SUCC \<or> t_run_stat (curr_func e') = RCU_RUN_STAT_TEST_FAILED)"
proof -
  define e0 where "e0 = upd_func (\<lambda>f. f\<lparr>t_run_stat := RCU_RUN_STAT_TEST_FAILED, nr_fail_assert := 0, nr_succ_assert := 0\<rparr>)
      (e\<lparr>curr_func := f\<rparr>)"
  obtain e1 x1 where i: "(case t_init (curr_func e0) of None \<Rightarrow> (e0, None)
      | Some b \<Rightarrow> call mem b (set_ctx RCU_RUN_CTX_FUNC_INIT e0)) = (e1, x1)" by (metis surj_pair)
  have 0: "curr_mod e0 = curr_mod e" "plan (curr_func e0) = plan f" "t_run_stat (curr_func e0) = RCU_RUN_STAT_TEST_FAILED"
      "nr_succ_assert (curr_func e0) = 0" "nr_fail_assert (curr_func e0) = 0" "t_destroy_failed (curr_func e0) = False"
    using assms(2) by (simp_all add: e0_def plan_def)
  have 1: "(x1 = None \<longleftrightarrow> (case t_init f of None \<Rightarrow> True | Some b \<Rightarrow> clean b)) \<and> curr_mod e1 = curr_mod e \<and> plan (curr_func e1) = plan f \<and>
      t_run_stat (curr_func e1) = RCU_RUN_STAT_TEST_FAILED \<and> nr_succ_assert (curr_func e1) = 0 \<and> nr_fail_assert (curr_func e1) = 0 \<and>
      (x1 = None \<longrightarrow> \<not> t_destroy_failed (curr_func e1))"
    using i 0 call_fixture [of "set_ctx RCU_RUN_CTX_FUNC_INIT e0"] clean_no_fail
    by (auto simp: plan_def split: option.splits)
  show ?thesis
  proof (cases "x1 = None")
    case False
    then have "e' = e1" using assms(3) i by (simp add: rcu_run_test_func_impl_def e0_def [symmetric] Let_def)
    then show ?thesis using 1 False assms(1) by (auto simp: plan_def passes_def)
  next
    case True
    define e2 where "e2 = run_entry mem e1"
    have 2: "curr_mod e2 = curr_mod e" "plan (curr_func e2) = plan f" "\<not> t_destroy_failed (curr_func e2)"
        "t_run_stat (curr_func e2) = (if clean (t_entry f) \<and> t_entry f \<noteq> [] then RCU_RUN_STAT_TEST_SUCC else RCU_RUN_STAT_TEST_FAILED)"
      using run_entry_verdict [of e1 mem] 1 True by (auto simp: e2_def plan_def)
    obtain e3 x3 where d: "(case t_destroy (curr_func e2) of None \<Rightarrow> (e2, None)
        | Some b \<Rightarrow> call mem b (set_ctx RCU_RUN_CTX_FUNC_DESTROY e2)) = (e3, x3)" by (metis surj_pair)
    have 3: "curr_mod e3 = curr_mod e" "plan (curr_func e3) = plan f" "t_run_stat (curr_func e3) = t_run_stat (curr_func e2)"
        "t_destroy_failed (curr_func e3) \<longleftrightarrow> \<not> (case t_destroy f of None \<Rightarrow> True | Some b \<Rightarrow> \<not> fails_assert b)"
      using d 2 call_fixture [of "set_ctx RCU_RUN_CTX_FUNC_DESTROY e2"] by (auto simp: plan_def split: option.splits)
    have "e' = e3" using assms(3) i d True
      by (auto simp: rcu_run_test_func_impl_def e0_def [symmetric] e2_def [symmetric] Let_def split: if_splits)
    then show ?thesis using 1 2 3 True assms(1) by (auto simp: plan_def passes_def)
  qed
qed

lemma count_test_verdict:
  fixes mem e
  assumes "\<not> t_init_failed f" "\<not> t_destroy_failed f"
  defines "e' \<equiv> count_test (snd (rcu_run_test_func_impl mem (e\<lparr>curr_func := f\<rparr>)))"
  shows "curr_mod e' = (if passes f then (curr_mod e)\<lparr>m_nr_succ_test := m_nr_succ_test (curr_mod e) + 1\<rparr>
       else (curr_mod e)\<lparr>m_nr_failed_test := m_nr_failed_test (curr_mod e) + 1\<rparr>) \<and>
     t_run_stat (curr_func e') = (if passes f then RCU_RUN_STAT_TEST_SUCC else RCU_RUN_STAT_TEST_FAILED)"
proof -
  obtain r e1 where c: "rcu_run_test_func_impl mem (e\<lparr>curr_func := f\<rparr>) = (r, e1)" by (metis surj_pair)
  show ?thesis using func_impl_verdict [OF assms(1,2) c] by (auto simp: e'_def c count_test_def)
qed

text \<open>The counters of the machine only change between tests.\<close>

definition counters :: "rcu_test_machine \<Rightarrow> run_level \<times> bool \<times> int \<times> int \<times> int \<times> int" where
  "counters m = (level m, has_run_hook m, nr_failed_reg m, nr_succ_reg m, nr_failed_test m, nr_succ_test m)"

lemma counters_upd [simp]:
  "counters (mach (set_ctx c e)) = counters (mach e)" "counters (mach (count_test e)) = counters (mach e)"
  "counters (mach (call_hook ev e)) = counters (mach e)" "counters (mach (run_hook lvl ev e)) = counters (mach e)"
  by (simp_all add: counters_def set_ctx_def count_test_def call_hook_def run_hook_def)

lemma hook_mod [simp]: "curr_mod (call_hook ev e) = curr_mod e" "curr_mod (run_hook lvl ev e) = curr_mod e"
  by (simp_all add: call_hook_def run_hook_def)

lemma call_counters: "call mem b e = (e', x) \<Longrightarrow> counters (mach e') = counters (mach e)"
proof (induction mem b e rule: call.induct)
  case (2 mem cond fn info b e)
  obtain e1 y where a: "rcu_assert_impl mem cond fn info e = (e1, y)" by (metis surj_pair)
  then have c: "counters (mach e1) = counters (mach e)"
    by (auto simp: rcu_assert_impl_def counters_def Let_def split: if_splits)
  show ?case
  proof (cases y)
    case None
    then show ?thesis using "2.IH" [OF a [unfolded None, symmetric]] "2.prems" a c by simp
  qed (use "2.prems" a c in simp)
qed auto

lemma run_entry_counters: "counters (mach (run_entry mem e)) = counters (mach e)"
proof -
  obtain e1 x where c: "call mem (t_entry (curr_func e)) (set_ctx RCU_RUN_CTX_FUNC e) = (e1, x)" by (metis surj_pair)
  show ?thesis using call_counters [OF c] by (cases x) (simp_all add: run_entry_def c)
qed

lemma fixture_counters:
  "(case h of None \<Rightarrow> (e, None) | Some b \<Rightarrow> call mem b (set_ctx c e)) = (e', x) \<Longrightarrow> counters (mach e') = counters (mach e)"
  by (cases h) (auto dest: call_counters)

lemma func_impl_counters: "counters (mach (snd (rcu_run_test_func_impl mem e))) = counters (mach e)"
  by (auto simp: rcu_run_test_func_impl_def Let_def run_entry_counters dest!: fixture_counters split: prod.splits)

lemma run_funcs_tally:
  assumes "list_all (\<lambda>f. \<not> t_init_failed f \<and> \<not> t_destroy_failed f) fs" "run_funcs mem fs e = (fs', e')"
  shows "curr_mod e' = (curr_mod e)\<lparr>m_nr_succ_test := m_nr_succ_test (curr_mod e) + int (length (filter passes fs)),
       m_nr_failed_test := m_nr_failed_test (curr_mod e) + int (length (filter (\<lambda>f. \<not> passes f) fs))\<rparr> \<and>
     map t_run_stat fs' = map (\<lambda>f. if passes f then RCU_RUN_STAT_TEST_SUCC else RCU_RUN_STAT_TEST_FAILED) fs \<and>
     counters (mach e') = counters (mach e)"
  using assms
proof (induction fs arbitrary: e fs' e')
  case (Cons f fs)
  define e1 where "e1 = count_test (snd (rcu_run_test_func_impl mem (e\<lparr>curr_func := f\<rparr>)))"
  obtain fs2 where r: "run_funcs mem fs e1 = (fs2, e')" "fs' = curr_func e1 # fs2"
    using Cons.prems(2) by (auto simp: e1_def Let_def split: prod.splits)
  have 1: "curr_mod e1 = (if passes f then (curr_mod e)\<lparr>m_nr_succ_test := m_nr_succ_test (curr_mod e) + 1\<rparr>
       else (curr_mod e)\<lparr>m_nr_failed_test := m_nr_failed_test (curr_mod e) + 1\<rparr>)"
      "t_run_stat (curr_func e1) = (if passes f then RCU_RUN_STAT_TEST_SUCC else RCU_RUN_STAT_TEST_FAILED)"
    using count_test_verdict [of f mem e] Cons.prems(1) by (simp_all add: e1_def)
  have 2: "counters (mach e1) = counters (mach e)" by (simp add: e1_def func_impl_counters)
  show ?case using Cons.IH [OF _ r(1)] Cons.prems(1) r(2) 1 2 by (simp add: algebra_simps)
qed simp

lemma call_mod:
  assumes "ctx (mach e) = RCU_RUN_CTX_MOD_INIT \<or> ctx (mach e) = RCU_RUN_CTX_MOD_DESTROY" "call mem b e = (e', x)"
  shows "(x = None \<longleftrightarrow> clean b) \<and> (clean b \<longrightarrow> e' = e) \<and> m_run_stat (curr_mod e') = m_run_stat (curr_mod e)"
  using assms
proof (induction mem b e rule: call.induct)
  case (2 mem cond fn info b e)
  then show ?case by (cases cond) (auto simp: rcu_assert_impl_def Let_def)
qed auto

lemma fixture_mod:
  assumes "c = RCU_RUN_CTX_MOD_INIT \<or> c = RCU_RUN_CTX_MOD_DESTROY"
    and "(case h of None \<Rightarrow> (e, None) | Some b \<Rightarrow> call mem b (set_ctx c e)) = (e', x)"
  shows "(x = None \<longleftrightarrow> (case h of None \<Rightarrow> True | Some b \<Rightarrow> clean b)) \<and> (x = None \<longrightarrow> curr_mod e' = curr_mod e) \<and>
     m_run_stat (curr_mod e') = m_run_stat (curr_mod e)"
proof (cases h)
  case (Some b)
  have "ctx (mach (set_ctx c e)) = RCU_RUN_CTX_MOD_INIT \<or> ctx (mach (set_ctx c e)) = RCU_RUN_CTX_MOD_DESTROY"
    using assms(1) by simp
  from call_mod [OF this assms(2) [unfolded Some option.case]] show ?thesis by (auto simp: Some)
qed (use assms(2) in simp)

text \<open>The middle of a module's run: its tests and its teardown, after a clean setup.\<close>

lemma mod_tests:
  assumes "list_all (\<lambda>f. \<not> t_init_failed f \<and> \<not> t_destroy_failed f) (func_list (curr_mod e))"
    and "case m_destroy (curr_mod e) of None \<Rightarrow> True | Some b \<Rightarrow> clean b"
    and "run_funcs mem (func_list (curr_mod e)) e = (fs', e3)"
    and "(case m_destroy (curr_mod e3) of None \<Rightarrow> (upd_mod (\<lambda>m. m\<lparr>func_list := fs'\<rparr>) e3, None)
      | Some b \<Rightarrow> call mem b (set_ctx RCU_RUN_CTX_MOD_DESTROY (upd_mod (\<lambda>m. m\<lparr>func_list := fs'\<rparr>) e3))) = (e5, x5)"
  defines "fs \<equiv> func_list (curr_mod e)"
  shows "x5 = None \<and> counters (mach e5) = counters (mach e) \<and>
     m_nr_succ_test (curr_mod e5) = m_nr_succ_test (curr_mod e) + int (length (filter passes fs)) \<and>
     m_nr_failed_test (curr_mod e5) = m_nr_failed_test (curr_mod e) + int (length (filter (\<lambda>f. \<not> passes f) fs)) \<and>
     map t_run_stat (func_list (curr_mod e5)) = map (\<lambda>f. if passes f then RCU_RUN_STAT_TEST_SUCC else RCU_RUN_STAT_TEST_FAILED) fs"
  using run_funcs_tally [OF assms(1,3)] fixture_mod [OF disjI2 [OF refl] assms(4)] fixture_counters [OF assms(4)] assms(2)
  by (simp add: fs_def)

text \<open>The whole run of a module whose setup and teardown are clean.\<close>

lemma mod_impl_tally:
  assumes "level (mach e) = RCU_RUN_LEVEL_MOD"
    and "case m_init (curr_mod e) of None \<Rightarrow> True | Some b \<Rightarrow> clean b" "case m_destroy (curr_mod e) of None \<Rightarrow> True | Some b \<Rightarrow> clean b"
    and "list_all (\<lambda>f. \<not> t_init_failed f \<and> \<not> t_destroy_failed f) (func_list (curr_mod e))"
    and "rcu_run_test_mod_impl mem e = (r, e')"
  defines "fs \<equiv> func_list (curr_mod e)"
  shows "r = RCU_E_OK \<and> m_nr_succ_test (curr_mod e') = int (length (filter passes fs)) \<and>
     m_nr_succ_test (curr_mod e') + m_nr_failed_test (curr_mod e') = int (length fs) \<and>
     nr_succ_test (mach e') = m_nr_succ_test (curr_mod e') \<and> nr_failed_test (mach e') = m_nr_failed_test (curr_mod e') \<and>
     map t_run_stat (func_list (curr_mod e')) = map (\<lambda>f. if passes f then RCU_RUN_STAT_TEST_SUCC else RCU_RUN_STAT_TEST_FAILED) fs \<and>
     m_run_stat (curr_mod e') = (if list_all passes fs then RCU_RUN_STAT_TEST_SUCC else RCU_RUN_STAT_TEST_FAILED)"
proof -
  define e1 where "e1 = upd_mod (\<lambda>m. m\<lparr>m_nr_failed_test := 0, m_nr_succ_test := 0\<rparr>)
    ((call_hook RCU_TEST_RUN_STARTED e)\<lparr>mach := reset_counters (mach (call_hook RCU_TEST_RUN_STARTED e))\<rparr>)"
  have 1: "curr_mod e1 = (curr_mod e)\<lparr>m_nr_failed_test := 0, m_nr_succ_test := 0\<rparr>"
      "nr_failed_test (mach e1) = 0" "nr_succ_test (mach e1) = 0" "level (mach e1) = RCU_RUN_LEVEL_MOD"
    using assms(1) by (simp_all add: e1_def reset_counters_def call_hook_def)
  obtain e2 x2 where i: "(case m_init (curr_mod e1) of None \<Rightarrow> (e1, None)
      | Some b \<Rightarrow> call mem b (set_ctx RCU_RUN_CTX_MOD_INIT e1)) = (e2, x2)" by (metis surj_pair)
  have 2: "x2 = None" "curr_mod e2 = curr_mod e1" "counters (mach e2) = counters (mach e1)"
    using fixture_mod [OF disjI1 [OF refl] i] fixture_counters [OF i] assms(2) 1(1) by simp_all
  obtain fs' e3 where f: "run_funcs mem (func_list (curr_mod e2)) e2 = (fs', e3)" by (metis surj_pair)
  obtain e5 x5 where d: "(case m_destroy (curr_mod e3) of None \<Rightarrow> (upd_mod (\<lambda>m. m\<lparr>func_list := fs'\<rparr>) e3, None)
      | Some b \<Rightarrow> call mem b (set_ctx RCU_RUN_CTX_MOD_DESTROY (upd_mod (\<lambda>m. m\<lparr>func_list := fs'\<rparr>) e3))) = (e5, x5)"
    by (metis surj_pair)
  have "list_all (\<lambda>f. \<not> t_init_failed f \<and> \<not> t_destroy_failed f) (func_list (curr_mod e2))"
      "case m_destroy (curr_mod e2) of None \<Rightarrow> True | Some b \<Rightarrow> clean b"
    using assms(3,4) 1(1) 2(2) by simp_all
  note t = mod_tests [OF this f d]
  define e6 where "e6 = run_hook RCU_RUN_LEVEL_MOD RCU_TEST_RUN_FINISHED e5"
  have 6: "curr_mod e6 = curr_mod e5" "nr_failed_test (mach e6) = 0" "nr_succ_test (mach e6) = 0"
    using 1 2(3) t counters_upd(4) [of RCU_RUN_LEVEL_MOD RCU_TEST_RUN_FINISHED e5] by (simp_all add: e6_def counters_def)
  have r: "r = RCU_E_OK" "e' = e6\<lparr>curr_mod := (curr_mod e6)\<lparr>m_run_stat := (if m_nr_failed_test (curr_mod e6) = 0 then RCU_RUN_STAT_TEST_SUCC else RCU_RUN_STAT_TEST_FAILED)\<rparr>,
        mach := (mach e6)\<lparr>nr_failed_test := m_nr_failed_test (curr_mod e6), nr_succ_test := m_nr_succ_test (curr_mod e6)\<rparr>\<rparr>"
    using i [unfolded e1_def] assms(1,5) 2(1) 6(2,3) f d t
    by (simp_all add: rcu_run_test_mod_impl_def run_hook_def [of _ RCU_TEST_RUN_STARTED] Let_def e6_def [symmetric])
  have "length (filter passes fs) + length (filter (\<lambda>f. \<not> passes f) fs) = length fs" by (rule sum_length_filter_compl)
  moreover have "filter (\<lambda>f. \<not> passes f) fs = [] \<longleftrightarrow> list_all passes fs" by (auto simp: filter_empty_conv list_all_iff)
  ultimately show ?thesis using t 1(1) 2(2) 6(1) by (simp add: r fs_def flip: of_nat_add)
qed

text \<open>
  \<open>hopeless md\<close>: no test of the module gets to run, because its setup does not end normally, or because there
  is nothing in it, as in the default module of a program that registers its own modules.
\<close>

definition hopeless :: "rcu_module \<Rightarrow> bool" where
  "hopeless md \<longleftrightarrow> m_run_stat md \<noteq> RCU_RUN_STAT_TEST_FAILED \<and>
     (case m_init md of Some b \<Rightarrow> \<not> clean b
      | None \<Rightarrow> func_list md = [] \<and> m_destroy md = None \<and> m_nr_failed_test md = 0 \<and> m_nr_succ_test md = 0)"

lemma hopeless_mod:
  assumes "hopeless (curr_mod e)" "level (mach e) = RCU_RUN_LEVEL_MACH" "rcu_run_test_mod_impl mem e = (r, e')"
  shows "m_run_stat (curr_mod e') \<noteq> RCU_RUN_STAT_TEST_FAILED \<and> counters (mach e') = counters (mach e)"
proof (cases "m_init (curr_mod e)")
  case None
  then show ?thesis using assms by (auto simp: hopeless_def rcu_run_test_mod_impl_def run_hook_def Let_def counters_def)
next
  case (Some b)
  obtain e1 x where c: "call mem b (set_ctx RCU_RUN_CTX_MOD_INIT e) = (e1, x)" by (metis surj_pair)
  have "(x = None \<longleftrightarrow> clean b) \<and> m_run_stat (curr_mod e1) = m_run_stat (curr_mod e)" "counters (mach e1) = counters (mach e)"
    using call_mod [OF _ c] call_counters [OF c] by simp_all
  then show ?thesis using assms Some c
    by (auto simp: hopeless_def rcu_run_test_mod_impl_def run_hook_def [of _ RCU_TEST_RUN_STARTED] Let_def)
qed

lemma hopeless_mods:
  assumes "list_all hopeless mds" "level (mach e) = RCU_RUN_LEVEL_MACH" "run_mods mem mds reg e = (mds', reg', e')"
  shows "nr_failed_mod reg' = nr_failed_mod reg \<and> counters (mach e') = counters (mach e)"
  using assms
proof (induction mds arbitrary: reg e mds' reg' e')
  case (Cons md mds)
  obtain r e1 where m: "rcu_run_test_mod_impl mem (e\<lparr>curr_mod := md\<rparr>) = (r, e1)" by (metis surj_pair)
  obtain md1 reg1 where c: "count_mod (curr_mod e1) reg = (md1, reg1)" by (metis surj_pair)
  obtain mds2 where r: "run_mods mem mds reg1 e1 = (mds2, reg', e')"
    using Cons.prems(3) m c by (auto simp: Let_def split: prod.splits)
  have h: "m_run_stat (curr_mod e1) \<noteq> RCU_RUN_STAT_TEST_FAILED" "counters (mach e1) = counters (mach e)"
    using hopeless_mod [OF _ _ m] Cons.prems(1,2) by simp_all
  then have "level (mach e1) = RCU_RUN_LEVEL_MACH" "nr_failed_mod reg1 = nr_failed_mod reg"
    using Cons.prems(2) c by (auto simp: counters_def count_mod_def split: if_splits)
  then show ?case using Cons.IH [OF _ _ r] Cons.prems(1) h(2) by simp
qed simp

lemma hopeless_regs:
  assumes "list_all (\<lambda>reg. nr_failed_mod reg = 0 \<and> list_all hopeless (mod_list reg)) regs"
    and "level (mach e) = RCU_RUN_LEVEL_MACH" "run_regs mem regs e = (regs', e')"
  shows "nr_failed_reg (mach e') = nr_failed_reg (mach e) \<and> nr_succ_test (mach e') = nr_succ_test (mach e) \<and>
     nr_succ_reg (mach e') = nr_succ_reg (mach e) + int (length regs)"
  using assms
proof (induction regs arbitrary: e regs' e')
  case (Cons reg regs)
  obtain mds reg1 e1 where m: "run_mods mem (mod_list reg) reg e = (mds, reg1, e1)" by (metis surj_pair)
  have h: "nr_failed_mod reg1 = 0" "counters (mach e1) = counters (mach e)"
    using hopeless_mods [OF _ _ m] Cons.prems(1,2) by simp_all
  define e2 where "e2 = e1\<lparr>mach := (mach e1)\<lparr>nr_succ_reg := nr_succ_reg (mach e1) + 1\<rparr>\<rparr>"
  have 2: "rcu_run_test_reg_impl mem reg e = (reg1\<lparr>mod_list := mds\<rparr>, e2)"
    using Cons.prems(2) m h by (simp add: rcu_run_test_reg_impl_def run_hook_def Let_def e2_def counters_def)
  obtain regs2 where "run_regs mem regs e2 = (regs2, e')"
    using Cons.prems(3) 2 by (auto simp: Let_def split: prod.splits)
  moreover have "level (mach e2) = RCU_RUN_LEVEL_MACH" using Cons.prems(2) h(2) by (simp add: e2_def counters_def)
  ultimately show ?case using Cons.IH [of e2 regs2 e'] Cons.prems(1) h(2) by (simp add: e2_def counters_def)
qed simp

section \<open>Properties\<close>

text \<open>C19. The verdict on a test: for a test without marks from an earlier run, whatever its setup, body and
  teardown do, it is counted as passed and marked so exactly when its setup is clean, its body is clean
  and makes at least one assertion, and no assertion fails in its teardown; otherwise it is counted as
  failed. (An exception or a signal in the teardown alone does not make it fail.)\<close>

theorem test_verdict:
  assumes "\<not> t_init_failed f" "\<not> t_destroy_failed f"
    and "count_test (snd (rcu_run_test_func_impl mem (e\<lparr>curr_func := f\<rparr>))) = e'"
  shows "(if passes f then t_run_stat (curr_func e') = RCU_RUN_STAT_TEST_SUCC \<and>
            m_nr_succ_test (curr_mod e') = m_nr_succ_test (curr_mod e) + 1 \<and> m_nr_failed_test (curr_mod e') = m_nr_failed_test (curr_mod e)
          else t_run_stat (curr_func e') = RCU_RUN_STAT_TEST_FAILED \<and>
            m_nr_succ_test (curr_mod e') = m_nr_succ_test (curr_mod e) \<and> m_nr_failed_test (curr_mod e') = m_nr_failed_test (curr_mod e) + 1)"
  using count_test_verdict [OF assms(1,2), of mem e] assms(3) by auto

definition sample_test :: "body \<Rightarrow> rcu_test" where
  "sample_test b = \<lparr>t_name = ''t'', t_entry = b, t_init = None, t_destroy = None, t_run_stat = RCU_RUN_STAT_NOTTESTED,
     t_init_failed = False, t_destroy_failed = False, nr_fail_assert = 0, nr_succ_assert = 0, t_fail_recs = []\<rparr>"

definition sample_module :: "body option \<Rightarrow> rcu_module" where
  "sample_module setup = \<lparr>m_name = ''m'', m_init = setup, m_destroy = None,
     func_list = [sample_test [Assert True ''t'' ''a''], sample_test [Assert False ''t'' ''b''], sample_test []],
     m_nr_test = 3, m_nr_failed_test = 0, m_nr_succ_test = 0, m_run_stat = RCU_RUN_STAT_NOTTESTED, m_init_failed = False,
     m_destroy_failed = False, m_fail_recs = []\<rparr>"

definition sample_engine :: "run_level \<Rightarrow> body option \<Rightarrow> engine" where
  "sample_engine lvl setup = \<lparr>mach = \<lparr>reg_list = [\<lparr>r_name = ''r'', mod_list = [sample_module setup], nr_mod = 1, nr_failed_mod = 0, nr_succ_mod = 0\<rparr>],
       ctx = RCU_RUN_CTX_UNKNOWN, level = lvl, has_run_hook = False, hook_log = [], assert_list = [], has_assert_hook = False,
       assert_log = [], nr_failed_reg = 0, nr_succ_reg = 0, nr_failed_test = 0, nr_succ_test = 0\<rparr>,
     curr_mod = sample_module setup, curr_func = sample_test []\<rparr>"

theorem test_verdict_witness:
  "t_run_stat (curr_func (count_test (snd (rcu_run_test_func_impl True
     ((sample_engine RCU_RUN_LEVEL_MACH None)\<lparr>curr_func := sample_test [Assert True ''t'' ''a'']\<rparr>))))) = RCU_RUN_STAT_TEST_SUCC"
  using test_verdict [OF _ _ refl, of "sample_test [Assert True ''t'' ''a'']" True "sample_engine RCU_RUN_LEVEL_MACH None"]
  by (simp add: passes_def sample_test_def)

text \<open>A module adds up: when a module is run on its own and its setup and teardown are clean, every test is
  counted exactly once, the numbers of passed and failed tests of the module and of the machine are the
  numbers of tests that pass and do not pass, every test is marked accordingly, and the module is marked
  as failed exactly when some test failed.\<close>

theorem module_tally:
  assumes "level (mach e) = RCU_RUN_LEVEL_MOD"
    and "case m_init (curr_mod e) of None \<Rightarrow> True | Some b \<Rightarrow> clean b" "case m_destroy (curr_mod e) of None \<Rightarrow> True | Some b \<Rightarrow> clean b"
    and "list_all (\<lambda>f. \<not> t_init_failed f \<and> \<not> t_destroy_failed f) (func_list (curr_mod e))"
    and "rcu_run_test_mod_impl mem e = (r, e')"
  defines "fs \<equiv> func_list (curr_mod e)"
  shows "r = RCU_E_OK \<and> m_nr_succ_test (curr_mod e') = int (length (filter passes fs)) \<and>
     m_nr_succ_test (curr_mod e') + m_nr_failed_test (curr_mod e') = int (length fs) \<and>
     nr_succ_test (mach e') = m_nr_succ_test (curr_mod e') \<and> nr_failed_test (mach e') = m_nr_failed_test (curr_mod e') \<and>
     map t_run_stat (func_list (curr_mod e')) = map (\<lambda>f. if passes f then RCU_RUN_STAT_TEST_SUCC else RCU_RUN_STAT_TEST_FAILED) fs \<and>
     m_run_stat (curr_mod e') = (if list_all passes fs then RCU_RUN_STAT_TEST_SUCC else RCU_RUN_STAT_TEST_FAILED)"
  unfolding fs_def using mod_impl_tally [OF assms(1-5)] .

theorem module_tally_witness:
  "m_nr_succ_test (curr_mod (snd (rcu_run_test_mod_impl True (sample_engine RCU_RUN_LEVEL_MOD None)))) = 1"
  using module_tally [of "sample_engine RCU_RUN_LEVEL_MOD None" True, OF _ _ _ _ prod.collapse [symmetric]]
  by (simp add: sample_engine_def sample_module_def sample_test_def passes_def)

text \<open>C36. A run in which no test is executed can be reported as a success: when the setup of every registered module
  fails (and the default module is empty), the run of the whole machine counts every registry as passed
  and returns \<open>RCU_E_OK\<close>, although there are tests and not one of them was run.\<close>

theorem failed_setup_reported_as_success:
  assumes "nr_failed_reg (mach e) = 0" "nr_succ_reg (mach e) = 0" "nr_succ_test (mach e) = 0"
    and "list_all (\<lambda>reg. nr_failed_mod reg = 0 \<and> list_all hopeless (mod_list reg)) (reg_list (mach e))"
    and "rcu_run_test_mach mem e = (r, e')"
  shows "r = RCU_E_OK \<and> nr_succ_test (mach e') = 0 \<and> nr_failed_reg (mach e') = 0 \<and>
     nr_succ_reg (mach e') = int (rcu_get_nr_regs (mach e))"
proof -
  define e0 where "e0 = call_hook RCU_TEST_RUN_STARTED (e\<lparr>mach := (mach e)\<lparr>level := RCU_RUN_LEVEL_MACH\<rparr>\<rparr>)"
  have 0: "reg_list (mach e0) = reg_list (mach e)" "level (mach e0) = RCU_RUN_LEVEL_MACH"
      "nr_failed_reg (mach e0) = 0" "nr_succ_reg (mach e0) = 0" "nr_succ_test (mach e0) = 0"
    using assms(1-3) by (simp_all add: e0_def call_hook_def)
  obtain regs e1 where g: "run_regs mem (reg_list (mach e0)) e0 = (regs, e1)" by (metis surj_pair)
  have "list_all (\<lambda>reg. nr_failed_mod reg = 0 \<and> list_all hopeless (mod_list reg)) (reg_list (mach e0))" using assms(4) 0(1) by simp
  note h = hopeless_regs [OF this 0(2) g]
  have "e' = call_hook RCU_TEST_RUN_FINISHED (e1\<lparr>mach := (mach e1)\<lparr>reg_list := regs\<rparr>\<rparr>)"
      "r = (if nr_failed_reg (mach e') > 0 then RCU_E_NG else RCU_E_OK)"
    using assms(5) g by (auto simp: rcu_run_test_mach_def rcu_run_tests_impl_def e0_def [symmetric] Let_def)
  then show ?thesis using h 0 by (simp add: call_hook_def rcu_get_nr_regs_def)
qed

theorem failed_setup_reported_as_success_witness:
  "fst (rcu_run_test_mach True (sample_engine RCU_RUN_LEVEL_MACH (Some [Crash SIGSEGV]))) = RCU_E_OK \<and>
   rcu_get_nr_tests (mach (sample_engine RCU_RUN_LEVEL_MACH (Some [Crash SIGSEGV]))) = 3"
  using failed_setup_reported_as_success [of "sample_engine RCU_RUN_LEVEL_MACH (Some [Crash SIGSEGV])" True, OF _ _ _ _ prod.collapse [symmetric]]
  by (simp add: sample_engine_def sample_module_def hopeless_def rcu_get_nr_tests_def)

end
