(* ===== verification/Rcu_Dbase.thy ===== *)
theory Rcu_Dbase
  imports Rcu_Run "HOL-Library.Monad_Syntax"
begin

text \<open>
  The test database: registries, modules and test functions, how they are created, found, linked and
  destroyed (\<^verbatim>\<open>src/rcunit/src/rcunit_registry.c\<close>, \<^verbatim>\<open>rcunit_module.c\<close>, \<^verbatim>\<open>rcunit_function.c\<close>, \<^verbatim>\<open>rcunit_machine.c\<close>,
  \<^verbatim>\<open>rcunit_util.c\<close>, \<^verbatim>\<open>rcunit.c\<close>). Objects are reached through pointers: the registry and the module inside the
  machine, and blocks of the heap with the kind of object they hold. The linked lists are sequences of
  pointers, as \<open>Rcu_List\<close> justifies for nodes that are in one list at a time. What is undefined in C is the
  result \<open>None\<close>: an access through a dangling pointer, and linking a node that is still in a list.
\<close>

section \<open>Data\<close>

datatype ptr = Null | Def_Reg | Def_Mod | Heap nat

datatype block_kind = Reg_Block | Mod_Block | Func_Block

text \<open>A function pointer; \<open>None\<close> is \<open>NULL\<close>.\<close>

type_synonym fptr = "nat option"

text \<open>The link of a module: pointing to itself, in the list of a registry, or left over from a list it was removed from.\<close>

datatype link = Self | In ptr | Stale

record db_test =
  df_name :: string
  df_entry :: fptr
  df_init :: fptr
  df_destroy :: fptr
  df_in :: ptr

record db_module =
  dm_name :: string
  dm_init :: fptr
  dm_destroy :: fptr
  dm_funcs :: "ptr list"
  dm_nr_test :: int
  dm_link :: link

record db_registry =
  dr_name :: string
  dr_mods :: "ptr list"
  dr_nr_mod :: int
  dr_stale :: bool

record dbase =
  init_done :: bool
  db_regs :: "ptr list"
  nr_reg :: int
  db_reg :: "ptr \<Rightarrow> db_registry"
  db_mod :: "ptr \<Rightarrow> db_module"
  db_func :: "ptr \<Rightarrow> db_test"
  db_block :: "nat \<Rightarrow> block_kind option"
  db_calls :: nat
  g_ercd :: rcu_error

text \<open>\<open>dm_link\<close>, \<open>df_in\<close> and \<open>dr_stale\<close> say where a link field points; the length of a name is limited by its buffer.\<close>

definition RCU_DEFAULT_REGISTRY_NAME :: string where "RCU_DEFAULT_REGISTRY_NAME = ''default-reg''"

definition RCU_DEFAULT_MODULE_NAME :: string where "RCU_DEFAULT_MODULE_NAME = ''default-mod''"

definition RCU_TEST_REGISTRY_NAME_LENGTH :: nat where "RCU_TEST_REGISTRY_NAME_LENGTH = 255"

definition RCU_TEST_MODULE_NAME_LENGTH :: nat where "RCU_TEST_MODULE_NAME_LENGTH = 255"

definition RCU_TEST_FUNCTION_NAME_LENGTH :: nat where "RCU_TEST_FUNCTION_NAME_LENGTH = 255"

definition zero_reg :: db_registry where
  "zero_reg = \<lparr>dr_name = [], dr_mods = [], dr_nr_mod = 0, dr_stale = False\<rparr>"

definition zero_mod :: db_module where
  "zero_mod = \<lparr>dm_name = [], dm_init = None, dm_destroy = None, dm_funcs = [], dm_nr_test = 0, dm_link = Self\<rparr>"

definition zero_func :: db_test where
  "zero_func = \<lparr>df_name = [], df_entry = None, df_init = None, df_destroy = None, df_in = Null\<rparr>"

definition upd_reg :: "ptr \<Rightarrow> (db_registry \<Rightarrow> db_registry) \<Rightarrow> dbase \<Rightarrow> dbase" where
  "upd_reg r f db = db\<lparr>db_reg := (db_reg db)(r := f (db_reg db r))\<rparr>"

definition upd_module :: "ptr \<Rightarrow> (db_module \<Rightarrow> db_module) \<Rightarrow> dbase \<Rightarrow> dbase" where
  "upd_module m f db = db\<lparr>db_mod := (db_mod db)(m := f (db_mod db m))\<rparr>"

definition upd_test :: "ptr \<Rightarrow> (db_test \<Rightarrow> db_test) \<Rightarrow> dbase \<Rightarrow> dbase" where
  "upd_test p f db = db\<lparr>db_func := (db_func db)(p := f (db_func db p))\<rparr>"

definition set_ercd :: "rcu_error \<Rightarrow> dbase \<Rightarrow> dbase" where
  "set_ercd e db = db\<lparr>g_ercd := e\<rparr>"

section \<open>Memory\<close>

fun valid :: "block_kind \<Rightarrow> dbase \<Rightarrow> ptr \<Rightarrow> bool" where
  "valid k db Null = False"
| "valid k db Def_Reg = (k = Reg_Block)"
| "valid k db Def_Mod = (k = Mod_Block)"
| "valid k db (Heap a) = (db_block db a = Some k)"

text \<open>
  \<open>rcu_malloc\<close> as far as the database sees it: \<open>M n\<close> is what the \<open>n\<close>-th call offers, and it is returned when it
  is not a block in use, which the C library never returns.
\<close>

definition alloc :: "(nat \<Rightarrow> nat option) \<Rightarrow> block_kind \<Rightarrow> dbase \<Rightarrow> ptr \<times> dbase" where
  "alloc M k db =
     (let db1 = db\<lparr>db_calls := db_calls db + 1\<rparr>
      in case M (db_calls db) of
           None \<Rightarrow> (Null, db1)
         | Some a \<Rightarrow> if db_block db a = None then (Heap a, db1\<lparr>db_block := (db_block db)(a \<mapsto> k)\<rparr>) else (Null, db1))"

text \<open>Only a block of the heap can be freed.\<close>

fun is_block :: "block_kind \<Rightarrow> dbase \<Rightarrow> ptr \<Rightarrow> bool" where
  "is_block k db (Heap a) = (db_block db a = Some k)"
| "is_block k db p = False"

fun free_block :: "ptr \<Rightarrow> dbase \<Rightarrow> dbase" where
  "free_block (Heap a) db = db\<lparr>db_block := (db_block db)(a := None)\<rparr>"
| "free_block p db = db"

definition rcu_alloc_reg :: "(nat \<Rightarrow> nat option) \<Rightarrow> nat \<Rightarrow> dbase \<Rightarrow> ptr \<times> dbase" where
  "rcu_alloc_reg M n db =
     (if n = 0 then (Null, db)
      else case alloc M Reg_Block db of
             (reg, db1) \<Rightarrow> (reg, if reg \<noteq> Null then upd_reg reg (\<lambda>_. zero_reg) db1 else db1))"

definition rcu_free_reg :: "ptr \<Rightarrow> dbase \<Rightarrow> dbase option" where
  "rcu_free_reg reg db =
     (if reg \<noteq> Null then if is_block Reg_Block db reg then Some (free_block reg db) else None else Some db)"

definition rcu_alloc_test_mod :: "(nat \<Rightarrow> nat option) \<Rightarrow> nat \<Rightarrow> dbase \<Rightarrow> ptr \<times> dbase" where
  "rcu_alloc_test_mod M n_mod db =
     (if n_mod = 0 then (Null, db)
      else case alloc M Mod_Block db of
             (m, db1) \<Rightarrow> (m, if m \<noteq> Null then upd_module m (\<lambda>_. zero_mod) db1 else db1))"

definition rcu_free_test_mod :: "ptr \<Rightarrow> dbase \<Rightarrow> (rcu_error \<times> dbase) option" where
  "rcu_free_test_mod m db =
     (if m = Null then Some (RCU_E_NG, db)
      else if is_block Mod_Block db m then Some (RCU_E_OK, free_block m db) else None)"

definition rcu_alloc_test_func :: "(nat \<Rightarrow> nat option) \<Rightarrow> int \<Rightarrow> dbase \<Rightarrow> ptr \<times> dbase" where
  "rcu_alloc_test_func M nr_func db =
     (if nr_func \<le> 0 then (Null, db)
      else case alloc M Func_Block db of
             (p, db1) \<Rightarrow> (p, if p \<noteq> Null then upd_test p (\<lambda>_. zero_func) db1 else db1))"

definition rcu_free_test_func :: "ptr \<Rightarrow> dbase \<Rightarrow> (rcu_error \<times> dbase) option" where
  "rcu_free_test_func p db =
     (if p = Null then Some (RCU_E_NG, db)
      else if is_block Func_Block db p then Some (RCU_E_OK, free_block p db) else None)"

section \<open>Searching\<close>

text \<open>A search that ends without a result returns \<open>NULL\<close>.\<close>

definition found :: "ptr option \<Rightarrow> ptr" where
  "found x = (case x of None \<Rightarrow> Null | Some p \<Rightarrow> p)"

definition rcu_srch_reg_by_name :: "dbase \<Rightarrow> string option \<Rightarrow> ptr" where
  "rcu_srch_reg_by_name db reg_name =
     (case reg_name of None \<Rightarrow> Null | Some name \<Rightarrow> found (find (\<lambda>r. name = dr_name (db_reg db r)) (db_regs db)))"

definition rcu_reg_exists :: "dbase \<Rightarrow> ptr \<Rightarrow> bool" where
  "rcu_reg_exists db reg = (reg \<noteq> Null \<and> reg \<in> set (db_regs db))"

definition rcu_srch_mod_by_name :: "dbase \<Rightarrow> ptr \<Rightarrow> string option \<Rightarrow> ptr" where
  "rcu_srch_mod_by_name db reg mod_name =
     (case mod_name of None \<Rightarrow> Null | Some name \<Rightarrow> found (find (\<lambda>m. dm_name (db_mod db m) = name) (dr_mods (db_reg db reg))))"

definition rcu_mod_exists :: "dbase \<Rightarrow> ptr \<Rightarrow> ptr \<Rightarrow> bool" where
  "rcu_mod_exists db reg srch_mod =
     (if reg = Null \<or> srch_mod = Null then False else srch_mod \<in> set (dr_mods (db_reg db reg)))"

definition rcu_srch_test_func_by_name :: "dbase \<Rightarrow> ptr \<Rightarrow> string \<Rightarrow> ptr" where
  "rcu_srch_test_func_by_name db m name = found (find (\<lambda>p. df_name (db_func db p) = name) (dm_funcs (db_mod db m)))"

definition rcu_srch_test_func_entry :: "dbase \<Rightarrow> ptr \<Rightarrow> fptr \<Rightarrow> ptr" where
  "rcu_srch_test_func_entry db m entry = found (find (\<lambda>p. df_entry (db_func db p) = entry) (dm_funcs (db_mod db m)))"

text \<open>The searches over all registries; the registry and module come with the result.\<close>

definition all_mods :: "dbase \<Rightarrow> (ptr \<times> ptr) list" where
  "all_mods db = concat (map (\<lambda>r. map (\<lambda>m. (r, m)) (dr_mods (db_reg db r))) (db_regs db))"

definition rcu_srch_mod_by_name_global :: "dbase \<Rightarrow> string \<Rightarrow> ptr \<times> ptr" where
  "rcu_srch_mod_by_name_global db mod_name =
     (case find (\<lambda>(r, m). dm_name (db_mod db m) = mod_name) (all_mods db) of
        Some (r, m) \<Rightarrow> (m, r) | None \<Rightarrow> (Null, Null))"

definition rcu_srch_test_func_entry_global :: "dbase \<Rightarrow> fptr \<Rightarrow> ptr \<times> ptr \<times> ptr" where
  "rcu_srch_test_func_entry_global db entry =
     (case find (\<lambda>(r, m). rcu_srch_test_func_entry db m entry \<noteq> Null) (all_mods db) of
        Some (r, m) \<Rightarrow> (rcu_srch_test_func_entry db m entry, m, r) | None \<Rightarrow> (Null, Null, Null))"

definition rcu_srch_test_func_by_name_global :: "dbase \<Rightarrow> string option \<Rightarrow> ptr \<times> ptr \<times> ptr" where
  "rcu_srch_test_func_by_name_global db name =
     (case name of
        None \<Rightarrow> (Null, Null, Null)
      | Some s \<Rightarrow>
          (case find (\<lambda>(r, m). rcu_srch_test_func_by_name db m s \<noteq> Null) (all_mods db) of
             Some (r, m) \<Rightarrow> (rcu_srch_test_func_by_name db m s, m, r) | None \<Rightarrow> (Null, Null, Null)))"

text \<open>The registry that contains the module is not reported: \<open>which_reg\<close> stays \<open>NULL\<close>.\<close>

definition rcu_srch_mod_by_ref_global :: "dbase \<Rightarrow> ptr \<Rightarrow> bool \<times> ptr" where
  "rcu_srch_mod_by_ref_global db srch_mod = (list_ex (\<lambda>(r, m). m = srch_mod) (all_mods db), Null)"

section \<open>Initialising and linking\<close>

definition rcu_init_reg :: "ptr \<Rightarrow> string option \<Rightarrow> dbase \<Rightarrow> rcu_error \<times> dbase" where
  "rcu_init_reg reg name db =
     (if reg = Null then (RCU_E_NG, db)
      else case name of
             None \<Rightarrow> (RCU_E_NG, db)
           | Some s \<Rightarrow> (RCU_E_OK, upd_reg reg (\<lambda>_. zero_reg\<lparr>dr_name := take RCU_TEST_REGISTRY_NAME_LENGTH s\<rparr>) db))"

definition rcu_init_mod :: "ptr \<Rightarrow> fptr \<Rightarrow> fptr \<Rightarrow> string option \<Rightarrow> dbase \<Rightarrow> rcu_error \<times> dbase" where
  "rcu_init_mod m init destroy name db =
     (if m = Null then (RCU_E_NG, db)
      else case name of
             None \<Rightarrow> (RCU_E_NG, db)
           | Some s \<Rightarrow> (RCU_E_OK, upd_module m (\<lambda>_. zero_mod\<lparr>dm_init := init, dm_destroy := destroy,
                          dm_name := take RCU_TEST_MODULE_NAME_LENGTH s\<rparr>) db))"

text \<open>
  \<open>rcu_add_test_reg\<close> and \<open>rcu_add_mod_to_reg\<close> first call \<open>rcu_init\<close>, which calls them while it sets up the machine;
  there the inner call of \<open>rcu_init\<close> returns at once. What they do after it:
\<close>

definition add_test_reg :: "ptr \<Rightarrow> dbase \<Rightarrow> (rcu_error \<times> dbase) option" where
  "add_test_reg reg db =
     (if \<not> init_done db then Some (RCU_E_NG, set_ercd RCU_E_MACHNOINIT db)
      else if reg = Null then Some (RCU_E_NG, set_ercd RCU_E_INVREG db)
      else if rcu_reg_exists db reg then Some (RCU_E_NG, set_ercd RCU_E_REGEXISTS db)
      else if \<not> valid Reg_Block db reg then None
      else if rcu_srch_reg_by_name db (Some (dr_name (db_reg db reg))) \<noteq> Null then Some (RCU_E_NG, set_ercd RCU_E_REGEXISTS db)
      else Some (RCU_E_OK, upd_reg reg (\<lambda>x. x\<lparr>dr_stale := False\<rparr>) (db\<lparr>db_regs := db_regs db @ [reg], nr_reg := nr_reg db + 1\<rparr>)))"

definition add_mod_to_reg :: "ptr \<Rightarrow> ptr \<Rightarrow> dbase \<Rightarrow> (rcu_error \<times> dbase) option" where
  "add_mod_to_reg reg m db =
     (if m = Null then Some (RCU_E_NG, set_ercd RCU_E_INVMOD db)
      else let r = (if reg = Null then Def_Reg else reg)
           in if \<not> valid Reg_Block db r \<or> \<not> valid Mod_Block db m then None
              else case dm_link (db_mod db m) of
                     In _ \<Rightarrow> None
                   | _ \<Rightarrow> Some (RCU_E_OK, upd_module m (\<lambda>x. x\<lparr>dm_link := In r\<rparr>)
                            (upd_reg r (\<lambda>x. x\<lparr>dr_mods := dr_mods x @ [m], dr_nr_mod := dr_nr_mod x + 1\<rparr>) db)))"

text \<open>
  \<open>memset\<close> clears the machine with the registry and module inside it. That is the loss of a list when the
  module is linked elsewhere or the registry is not empty.
\<close>

definition rcu_init_test_mach :: "dbase \<Rightarrow> dbase option" where
  "rcu_init_test_mach db =
     (if (case dm_link (db_mod db Def_Mod) of In _ \<Rightarrow> True | _ \<Rightarrow> False) \<or> dr_mods (db_reg db Def_Reg) \<noteq> [] \<or> db_regs db \<noteq> [] then None
      else do {
        let db1 = db\<lparr>init_done := True, db_regs := [], nr_reg := 0\<rparr>;
        let db2 = snd (rcu_init_reg Def_Reg (Some RCU_DEFAULT_REGISTRY_NAME) db1);
        (_, db3) \<leftarrow> add_test_reg Def_Reg db2;
        let db4 = snd (rcu_init_mod Def_Mod None None (Some RCU_DEFAULT_MODULE_NAME) db3);
        (_, db5) \<leftarrow> add_mod_to_reg Def_Reg Def_Mod db4;
        Some db5
      })"

definition rcu_is_mach_initialized :: "dbase \<Rightarrow> bool" where
  "rcu_is_mach_initialized db = init_done db"

definition rcu_init :: "dbase \<Rightarrow> dbase option" where
  "rcu_init db = (if \<not> rcu_is_mach_initialized db then rcu_init_test_mach db else Some db)"

definition rcu_add_test_reg :: "ptr \<Rightarrow> dbase \<Rightarrow> (rcu_error \<times> dbase) option" where
  "rcu_add_test_reg reg db = do { db \<leftarrow> rcu_init db; add_test_reg reg db }"

definition rcu_add_mod_to_reg :: "ptr \<Rightarrow> ptr \<Rightarrow> dbase \<Rightarrow> (rcu_error \<times> dbase) option" where
  "rcu_add_mod_to_reg reg m db = do { db \<leftarrow> rcu_init db; add_mod_to_reg reg m db }"

definition rcu_get_default_reg :: "dbase \<Rightarrow> (ptr \<times> dbase) option" where
  "rcu_get_default_reg db = do { db \<leftarrow> rcu_init db; Some (Def_Reg, db) }"

definition rcu_get_default_mod :: "dbase \<Rightarrow> (ptr \<times> dbase) option" where
  "rcu_get_default_mod db = do { db \<leftarrow> rcu_init db; Some (Def_Mod, db) }"

definition rcu_add_test_mod :: "ptr \<Rightarrow> dbase \<Rightarrow> (rcu_error \<times> dbase) option" where
  "rcu_add_test_mod m db = do { (reg, db) \<leftarrow> rcu_get_default_reg db; rcu_add_mod_to_reg reg m db }"

section \<open>Registries and modules\<close>

definition rcu_cre_test_reg :: "(nat \<Rightarrow> nat option) \<Rightarrow> string option \<Rightarrow> dbase \<Rightarrow> (ptr \<times> dbase) option" where
  "rcu_cre_test_reg M name db = do {
     db \<leftarrow> rcu_init db;
     let (reg, db) = rcu_alloc_reg M 1 db;
     if reg = Null then Some (Null, set_ercd RCU_E_NOMEM db)
     else if name = Some RCU_DEFAULT_REGISTRY_NAME then do {
       db \<leftarrow> rcu_free_reg reg (set_ercd RCU_E_INVREGNAME db);
       Some (Null, db)
     }
     else let (rc, db) = rcu_init_reg reg name db
          in if rc = RCU_E_NG then do { db \<leftarrow> rcu_free_reg reg db; Some (Null, db) }
             else Some (reg, db)
   }"

text \<open>The result of \<open>rcu_add_test_reg\<close> is not looked at.\<close>

definition rcu_get_reg :: "(nat \<Rightarrow> nat option) \<Rightarrow> string option \<Rightarrow> dbase \<Rightarrow> (ptr \<times> dbase) option" where
  "rcu_get_reg M name db =
     (if name = None then Some (Null, db)
      else do {
        db \<leftarrow> rcu_init db;
        let reg = rcu_srch_reg_by_name db name;
        if reg = Null then do {
          (reg, db) \<leftarrow> rcu_cre_test_reg M name db;
          (_, db) \<leftarrow> rcu_add_test_reg reg db;
          Some (reg, db)
        }
        else Some (reg, db)
      })"

definition rcu_cre_test_mod :: "(nat \<Rightarrow> nat option) \<Rightarrow> string option \<Rightarrow> fptr \<Rightarrow> fptr \<Rightarrow> dbase \<Rightarrow> (ptr \<times> dbase) option" where
  "rcu_cre_test_mod M name init destroy db = do {
     db \<leftarrow> rcu_init db;
     let (m, db) = rcu_alloc_test_mod M 1 db;
     if m = Null then Some (Null, set_ercd RCU_E_NOMEM db)
     else if name = Some RCU_DEFAULT_MODULE_NAME then do {
       (_, db) \<leftarrow> rcu_free_test_mod m (set_ercd RCU_E_INVMODNAME db);
       Some (Null, db)
     }
     else let (rc, db) = rcu_init_mod m init destroy name db
          in if rc = RCU_E_NG then do { (_, db) \<leftarrow> rcu_free_test_mod m db; Some (Null, db) }
             else Some (m, db)
   }"

definition rcu_get_mod :: "(nat \<Rightarrow> nat option) \<Rightarrow> string option \<Rightarrow> dbase \<Rightarrow> (ptr \<times> dbase) option" where
  "rcu_get_mod M name db = do {
     db \<leftarrow> rcu_init db;
     case name of
       None \<Rightarrow> Some (Null, db)
     | Some s \<Rightarrow>
         (case rcu_srch_mod_by_name_global db s of
            (m, _) \<Rightarrow>
              if m \<noteq> Null then Some (m, db)
              else do {
                (m, db) \<leftarrow> rcu_cre_test_mod M (Some s) None None db;
                (_, db) \<leftarrow> rcu_add_test_mod m db;
                Some (m, db)
              })
   }"

definition rcu_set_mod_fxt :: "ptr \<Rightarrow> fptr \<Rightarrow> fptr \<Rightarrow> dbase \<Rightarrow> dbase option" where
  "rcu_set_mod_fxt m setup teardown db =
     (if valid Mod_Block db m then Some (upd_module m (\<lambda>x. x\<lparr>dm_init := setup, dm_destroy := teardown\<rparr>) db) else None)"

section \<open>Tests\<close>

text \<open>
  \<open>show_ptr\<close> is what \<open>sprintf\<close> prints for \<open>%p\<close>. A name of 255 or more characters fills its array without a terminator; read as a
  string it ends at the next byte, which is padding before an aligned pointer that \<open>memset\<close> has cleared. The model takes it
  to end there, as it does on every platform with such a layout.
\<close>

definition rcu_add_test_func ::
    "(nat \<Rightarrow> nat option) \<Rightarrow> (nat \<Rightarrow> string) \<Rightarrow> ptr \<Rightarrow> fptr \<Rightarrow> fptr \<Rightarrow> fptr \<Rightarrow> string option \<Rightarrow> dbase \<Rightarrow> (rcu_error \<times> dbase) option" where
  "rcu_add_test_func M show_ptr m entry init destroy name db = do {
     db \<leftarrow> rcu_init db;
     case entry of
       None \<Rightarrow> Some (RCU_E_NG, set_ercd RCU_E_INVFUNCENTRY db)
     | Some code \<Rightarrow>
         let md = (if m = Null then Def_Mod else m)
         in if \<not> valid Mod_Block db md then None
            else
              (let (p, db) = rcu_alloc_test_func M 1 db
               in if p = Null then Some (RCU_E_NG, set_ercd RCU_E_NOMEM db)
                  else
                    let nm = (case name of None \<Rightarrow> show_ptr code | Some s \<Rightarrow> take RCU_TEST_FUNCTION_NAME_LENGTH s)
                    in Some (RCU_E_OK,
                         upd_module md (\<lambda>x. x\<lparr>dm_funcs := dm_funcs x @ [p], dm_nr_test := dm_nr_test x + 1\<rparr>)
                           (upd_test p (\<lambda>x. x\<lparr>df_name := nm, df_entry := entry, df_init := init, df_destroy := destroy, df_in := md\<rparr>) db)))
   }"

definition rcu_add_test ::
    "(nat \<Rightarrow> nat option) \<Rightarrow> (nat \<Rightarrow> string) \<Rightarrow> fptr \<Rightarrow> dbase \<Rightarrow> (rcu_error \<times> dbase) option" where
  "rcu_add_test M show_ptr test db =
     do { (m, db) \<leftarrow> rcu_get_default_mod db; rcu_add_test_func M show_ptr m test None None None db }"

definition rcu_add_test_to_mod ::
    "(nat \<Rightarrow> nat option) \<Rightarrow> (nat \<Rightarrow> string) \<Rightarrow> ptr \<Rightarrow> fptr \<Rightarrow> dbase \<Rightarrow> (rcu_error \<times> dbase) option" where
  "rcu_add_test_to_mod M show_ptr m test db = rcu_add_test_func M show_ptr m test None None None db"

definition rcu_add_test_fxt ::
    "(nat \<Rightarrow> nat option) \<Rightarrow> (nat \<Rightarrow> string) \<Rightarrow> fptr \<Rightarrow> fptr \<Rightarrow> fptr \<Rightarrow> dbase \<Rightarrow> (rcu_error \<times> dbase) option" where
  "rcu_add_test_fxt M show_ptr test setup teardown db =
     do { (m, db) \<leftarrow> rcu_get_default_mod db; rcu_add_test_func M show_ptr m test setup teardown None db }"

text \<open>The module it is given is not used.\<close>

definition rcu_add_test_fxt_to_mod ::
    "(nat \<Rightarrow> nat option) \<Rightarrow> (nat \<Rightarrow> string) \<Rightarrow> ptr \<Rightarrow> fptr \<Rightarrow> fptr \<Rightarrow> fptr \<Rightarrow> dbase \<Rightarrow> (rcu_error \<times> dbase) option" where
  "rcu_add_test_fxt_to_mod M show_ptr m test setup teardown db =
     do { (d, db) \<leftarrow> rcu_get_default_mod db; rcu_add_test_func M show_ptr d test setup teardown None db }"

text \<open>A table ends at the first entry without a name, so it is the list of the entries before that one.\<close>

record rcu_test_function_entry =
  fe_name :: string
  fe_entry :: fptr
  fe_init :: fptr
  fe_destroy :: fptr

fun add_func_entries ::
    "(nat \<Rightarrow> nat option) \<Rightarrow> (nat \<Rightarrow> string) \<Rightarrow> ptr \<Rightarrow> rcu_test_function_entry list \<Rightarrow> dbase \<Rightarrow> dbase option" where
  "add_func_entries M show_ptr m [] db = Some db"
| "add_func_entries M show_ptr m (c # cs) db =
     (if fe_entry c \<noteq> None then do {
        (_, db) \<leftarrow> rcu_add_test_func M show_ptr m (fe_entry c) (fe_init c) (fe_destroy c) (Some (fe_name c)) db;
        add_func_entries M show_ptr m cs db
      }
      else add_func_entries M show_ptr m cs db)"

definition rcu_add_test_func_tbl ::
    "(nat \<Rightarrow> nat option) \<Rightarrow> (nat \<Rightarrow> string) \<Rightarrow> ptr \<Rightarrow> rcu_test_function_entry list option \<Rightarrow> dbase \<Rightarrow> (rcu_error \<times> dbase) option" where
  "rcu_add_test_func_tbl M show_ptr m func_tbl db = do {
     db \<leftarrow> rcu_init db;
     if \<not> rcu_is_mach_initialized db then Some (RCU_E_NG, set_ercd RCU_E_MACHNOINIT db)
     else case func_tbl of
            None \<Rightarrow> Some (RCU_E_NG, set_ercd RCU_E_INVFUNCTABLE db)
          | Some tbl \<Rightarrow> do {
              db \<leftarrow> add_func_entries M show_ptr (if m = Null then Def_Mod else m) tbl db;
              Some (RCU_E_OK, db)
            }
   }"

section \<open>Destroying\<close>

text \<open>
  \<open>rcu_remove_list\<close> on the link of a module or registry. A node that points to itself stays as it is; a node
  that was removed before still holds its old neighbours, and using them again is not defined in general.
\<close>

definition unlink_mod :: "ptr \<Rightarrow> dbase \<Rightarrow> dbase option" where
  "unlink_mod m db =
     (case dm_link (db_mod db m) of
        Self \<Rightarrow> Some db
      | Stale \<Rightarrow> None
      | In r \<Rightarrow> Some (upd_module m (\<lambda>x. x\<lparr>dm_link := Stale\<rparr>) (upd_reg r (\<lambda>x. x\<lparr>dr_mods := removeAll m (dr_mods x)\<rparr>) db)))"

definition unlink_reg :: "ptr \<Rightarrow> dbase \<Rightarrow> dbase option" where
  "unlink_reg r db =
     (if r \<in> set (db_regs db)
      then Some (upd_reg r (\<lambda>x. x\<lparr>dr_stale := True\<rparr>) (db\<lparr>db_regs := removeAll r (db_regs db)\<rparr>))
      else if dr_stale (db_reg db r) then None else Some db)"

fun free_funcs :: "ptr list \<Rightarrow> dbase \<Rightarrow> dbase option" where
  "free_funcs [] db = Some db"
| "free_funcs (p # ps) db = do { (_, db) \<leftarrow> rcu_free_test_func p db; free_funcs ps db }"

definition rcu_destroy_test_mod :: "ptr \<Rightarrow> dbase \<Rightarrow> (rcu_error \<times> dbase) option" where
  "rcu_destroy_test_mod m db = do {
     db \<leftarrow> rcu_init db;
     if m = Null then Some (RCU_E_NG, set_ercd RCU_E_INVMOD db)
     else if \<not> valid Mod_Block db m then None
     else do {
       db \<leftarrow> free_funcs (dm_funcs (db_mod db m)) db;
       db \<leftarrow> unlink_mod m (upd_module m (\<lambda>x. x\<lparr>dm_funcs := []\<rparr>) db);
       if dm_name (db_mod db m) \<noteq> RCU_DEFAULT_MODULE_NAME then do {
         (_, db) \<leftarrow> rcu_free_test_mod m db;
         Some (RCU_E_OK, db)
       }
       else Some (RCU_E_OK, db)
     }
   }"

text \<open>
  The loops that destroy the contents of a registry or of the machine remove a node before they destroy it,
  and destroying it removes it once more; on a list the second removal changes nothing (\<open>remove_twice\<close>).
\<close>

fun destroy_mods :: "ptr list \<Rightarrow> dbase \<Rightarrow> dbase option" where
  "destroy_mods [] db = Some db"
| "destroy_mods (m # ms) db = do { (_, db) \<leftarrow> rcu_destroy_test_mod m db; destroy_mods ms db }"

definition rcu_destroy_test_reg :: "ptr \<Rightarrow> dbase \<Rightarrow> (rcu_error \<times> dbase) option" where
  "rcu_destroy_test_reg reg db = do {
     db \<leftarrow> rcu_init db;
     if reg = Null then Some (RCU_E_NG, set_ercd RCU_E_INVREG db)
     else if \<not> valid Reg_Block db reg then None
     else do {
       db \<leftarrow> destroy_mods (dr_mods (db_reg db reg)) db;
       db \<leftarrow> unlink_reg reg db;
       if dr_name (db_reg db reg) \<noteq> RCU_DEFAULT_REGISTRY_NAME then do {
         db \<leftarrow> rcu_free_reg reg db;
         Some (RCU_E_OK, db)
       }
       else Some (RCU_E_OK, db)
     }
   }"

fun destroy_regs :: "ptr list \<Rightarrow> dbase \<Rightarrow> dbase option" where
  "destroy_regs [] db = Some db"
| "destroy_regs (r # rs) db = do { (_, db) \<leftarrow> rcu_destroy_test_reg r db; destroy_regs rs db }"

definition rcu_destroy_test_dbase :: "dbase \<Rightarrow> (rcu_error \<times> dbase) option" where
  "rcu_destroy_test_dbase db =
     (if \<not> rcu_is_mach_initialized db then Some (RCU_E_NG, db)
      else do { db \<leftarrow> destroy_regs (db_regs db) db; Some (RCU_E_OK, db) })"

text \<open>
  What \<open>rcu_destroy_test_mach\<close> does to the database. It also deletes the failure records (\<open>rcu_del_all_fail_rec\<close> of \<open>Rcu_Report\<close>), which live
  outside the blocks counted here, and resets the tracer (\<open>rcu_destroy_mtrace\<close> of \<open>Rcu_Mtrace\<close>); \<open>rcu_destroy_exception\<close> does nothing.
\<close>

definition rcu_destroy_test_mach :: "dbase \<Rightarrow> dbase option" where
  "rcu_destroy_test_mach db = do { (_, db) \<leftarrow> rcu_destroy_test_dbase db; Some (db\<lparr>init_done := False\<rparr>) }"

definition rcu_destroy :: "dbase \<Rightarrow> dbase option" where
  "rcu_destroy db = (if rcu_is_mach_initialized db then rcu_destroy_test_mach db else Some db)"

section \<open>Module tables\<close>

record rcu_module_entry =
  me_name :: string
  me_init :: fptr
  me_destroy :: fptr
  me_func_tbl :: "rcu_test_function_entry list option"

fun add_mod_entries ::
    "(nat \<Rightarrow> nat option) \<Rightarrow> (nat \<Rightarrow> string) \<Rightarrow> ptr \<Rightarrow> rcu_module_entry list \<Rightarrow> dbase \<Rightarrow> dbase option" where
  "add_mod_entries M show_ptr reg [] db = Some db"
| "add_mod_entries M show_ptr reg (c # cs) db =
     (if me_func_tbl c = None then add_mod_entries M show_ptr reg cs db
      else do {
        (m, db) \<leftarrow> rcu_cre_test_mod M (Some (me_name c)) (me_init c) (me_destroy c) db;
        if m = Null then add_mod_entries M show_ptr reg cs db
        else do {
          (rc, db) \<leftarrow> rcu_add_mod_to_reg reg m db;
          if rc = RCU_E_NG then do {
            (_, db) \<leftarrow> rcu_destroy_test_mod m db;
            add_mod_entries M show_ptr reg cs db
          }
          else do {
            (_, db) \<leftarrow> rcu_add_test_func_tbl M show_ptr m (me_func_tbl c) db;
            add_mod_entries M show_ptr reg cs db
          }
        }
      })"

definition rcu_add_test_mod_tbl ::
    "(nat \<Rightarrow> nat option) \<Rightarrow> (nat \<Rightarrow> string) \<Rightarrow> ptr \<Rightarrow> rcu_module_entry list option \<Rightarrow> dbase \<Rightarrow> (rcu_error \<times> dbase) option" where
  "rcu_add_test_mod_tbl M show_ptr reg mod_tbl db = do {
     db \<leftarrow> rcu_init db;
     case mod_tbl of
       None \<Rightarrow> Some (RCU_E_NG, set_ercd RCU_E_INVMODTABLE db)
     | Some tbl \<Rightarrow> do { db \<leftarrow> add_mod_entries M show_ptr reg tbl db; Some (RCU_E_OK, db) }
   }"

section \<open>Commands of a test program\<close>

text \<open>The calls a program can make, and what it must respect: no dangling pointers, a module is added only while
  it is in no registry, and the default module and registry are left to the framework.\<close>

datatype db_cmd =
    Get_Reg "string option"
  | Get_Mod "string option"
  | Cre_Reg "string option"
  | Cre_Mod "string option" fptr fptr
  | Add_Reg ptr
  | Add_Mod ptr ptr
  | Set_Fxt ptr fptr fptr
  | Add_Test ptr fptr fptr fptr "string option"
  | Add_Test_Fxt_To_Mod ptr fptr fptr fptr
  | Add_Func_Tbl ptr "rcu_test_function_entry list option"
  | Add_Mod_Tbl ptr "rcu_module_entry list option"
  | Destroy_Mod ptr
  | Destroy_Reg ptr
  | Init
  | Destroy

fun db_exec :: "(nat \<Rightarrow> nat option) \<Rightarrow> (nat \<Rightarrow> string) \<Rightarrow> db_cmd \<Rightarrow> dbase \<Rightarrow> dbase option" where
  "db_exec M sp (Get_Reg name) db = map_option snd (rcu_get_reg M name db)"
| "db_exec M sp (Get_Mod name) db = map_option snd (rcu_get_mod M name db)"
| "db_exec M sp (Cre_Reg name) db = map_option snd (rcu_cre_test_reg M name db)"
| "db_exec M sp (Cre_Mod name i d) db = map_option snd (rcu_cre_test_mod M name i d db)"
| "db_exec M sp (Add_Reg r) db = map_option snd (rcu_add_test_reg r db)"
| "db_exec M sp (Add_Mod r m) db = map_option snd (rcu_add_mod_to_reg r m db)"
| "db_exec M sp (Set_Fxt m i d) db = rcu_set_mod_fxt m i d db"
| "db_exec M sp (Add_Test m t i d name) db = map_option snd (rcu_add_test_func M sp m t i d name db)"
| "db_exec M sp (Add_Test_Fxt_To_Mod m t i d) db = map_option snd (rcu_add_test_fxt_to_mod M sp m t i d db)"
| "db_exec M sp (Add_Func_Tbl m tbl) db = map_option snd (rcu_add_test_func_tbl M sp m tbl db)"
| "db_exec M sp (Add_Mod_Tbl r tbl) db = map_option snd (rcu_add_test_mod_tbl M sp r tbl db)"
| "db_exec M sp (Destroy_Mod m) db = map_option snd (rcu_destroy_test_mod m db)"
| "db_exec M sp (Destroy_Reg r) db = map_option snd (rcu_destroy_test_reg r db)"
| "db_exec M sp Init db = rcu_init db"
| "db_exec M sp Destroy db = rcu_destroy db"

fun args_ok :: "dbase \<Rightarrow> db_cmd \<Rightarrow> bool" where
  "args_ok db (Add_Reg r) \<longleftrightarrow> r = Null \<or> valid Reg_Block db r"
| "args_ok db (Add_Mod r m) \<longleftrightarrow> (r = Null \<or> valid Reg_Block db r) \<and>
     (m = Null \<or> valid Mod_Block db m \<and> m \<noteq> Def_Mod \<and> dm_link (db_mod db m) = Self)"
| "args_ok db (Set_Fxt m i d) \<longleftrightarrow> valid Mod_Block db m"
| "args_ok db (Add_Test m t i d name) \<longleftrightarrow> m = Null \<or> valid Mod_Block db m"
| "args_ok db (Add_Func_Tbl m tbl) \<longleftrightarrow> m = Null \<or> valid Mod_Block db m"
| "args_ok db (Add_Mod_Tbl r tbl) \<longleftrightarrow> r = Null \<or> valid Reg_Block db r"
| "args_ok db (Destroy_Mod m) \<longleftrightarrow> m = Null \<or> valid Mod_Block db m \<and> m \<noteq> Def_Mod"
| "args_ok db (Destroy_Reg r) \<longleftrightarrow> r = Null \<or> valid Reg_Block db r \<and> r \<noteq> Def_Reg"
| "args_ok db _ \<longleftrightarrow> True"

text \<open>The state at the start of a program.\<close>

definition db_start :: dbase where
  "db_start = \<lparr>init_done = False, db_regs = [], nr_reg = 0, db_reg = (\<lambda>_. zero_reg), db_mod = (\<lambda>_. zero_mod),
     db_func = (\<lambda>_. zero_func), db_block = (\<lambda>_. None), db_calls = 0, g_ercd = RCU_E_OK\<rparr>"

inductive db_reach :: "(nat \<Rightarrow> nat option) \<Rightarrow> (nat \<Rightarrow> string) \<Rightarrow> dbase \<Rightarrow> bool" for M sp where
  start: "db_reach M sp db_start"
| step: "db_reach M sp db \<Longrightarrow> args_ok db cmd \<Longrightarrow> db_exec M sp cmd db = Some db' \<Longrightarrow> db_reach M sp db'"

end
