(* ===== verification/Rcu_Dbase_Inv.thy ===== *)
theory Rcu_Dbase_Inv
  imports Rcu_Dbase
begin

text \<open>
  The invariant of the test database and its preservation by every call: registries, modules and tests
  form a forest of live objects, each in one list only.
\<close>

section \<open>The invariant\<close>

text \<open>Registries in the machine's list are there once, and no two have the same name.\<close>

definition regs_ok :: "dbase \<Rightarrow> bool" where
  "regs_ok db \<longleftrightarrow> distinct (db_regs db) \<and> distinct (map (\<lambda>r. dr_name (db_reg db r)) (db_regs db)) \<and>
     (\<forall>r \<in> set (db_regs db). valid Reg_Block db r) \<and> int (length (db_regs db)) \<le> nr_reg db"

text \<open>The modules of a registry are live, are there once, and are linked in this registry only.\<close>

definition mods_ok :: "dbase \<Rightarrow> bool" where
  "mods_ok db \<longleftrightarrow>
     (\<forall>r. valid Reg_Block db r \<longrightarrow> distinct (dr_mods (db_reg db r)) \<and> int (length (dr_mods (db_reg db r))) \<le> dr_nr_mod (db_reg db r)) \<and>
     (\<forall>r m. valid Reg_Block db r \<and> m \<in> set (dr_mods (db_reg db r)) \<longleftrightarrow> valid Mod_Block db m \<and> dm_link (db_mod db m) = In r)"

text \<open>The tests of a module are live, are there once, and belong to this module only.\<close>

definition funcs_ok :: "dbase \<Rightarrow> bool" where
  "funcs_ok db \<longleftrightarrow> (\<forall>m. valid Mod_Block db m \<longrightarrow> distinct (dm_funcs (db_mod db m)) \<and>
       int (length (dm_funcs (db_mod db m))) \<le> dm_nr_test (db_mod db m) \<and>
       (\<forall>p \<in> set (dm_funcs (db_mod db m)). valid Func_Block db p \<and> df_in (db_func db p) = m))"

text \<open>The reserved names are those of the default module and registry; only these outlive their removal from a list.\<close>

definition heap_ok :: "dbase \<Rightarrow> bool" where
  "heap_ok db \<longleftrightarrow>
     (\<forall>a. valid Reg_Block db (Heap a) \<longrightarrow> \<not> dr_stale (db_reg db (Heap a)) \<and> dr_name (db_reg db (Heap a)) \<noteq> RCU_DEFAULT_REGISTRY_NAME) \<and>
     (\<forall>a. valid Mod_Block db (Heap a) \<longrightarrow> dm_link (db_mod db (Heap a)) \<noteq> Stale \<and> dm_name (db_mod db (Heap a)) \<noteq> RCU_DEFAULT_MODULE_NAME)"

definition core_ok :: "dbase \<Rightarrow> bool" where
  "core_ok db \<longleftrightarrow> regs_ok db \<and> mods_ok db \<and> funcs_ok db \<and> heap_ok db"

definition phase_ok :: "dbase \<Rightarrow> bool" where
  "phase_ok db \<longleftrightarrow>
     (if init_done db
      then Def_Reg \<in> set (db_regs db) \<and> dm_link (db_mod db Def_Mod) = In Def_Reg \<and>
        dr_name (db_reg db Def_Reg) = RCU_DEFAULT_REGISTRY_NAME \<and> dm_name (db_mod db Def_Mod) = RCU_DEFAULT_MODULE_NAME
      else db_regs db = [] \<and> dr_mods (db_reg db Def_Reg) = [] \<and> (\<forall>r. dm_link (db_mod db Def_Mod) \<noteq> In r))"

definition db_ok :: "dbase \<Rightarrow> bool" where
  "db_ok db \<longleftrightarrow> core_ok db \<and> phase_ok db"

lemmas core_defs = core_ok_def regs_ok_def mods_ok_def funcs_ok_def heap_ok_def

subsection \<open>Updates\<close>

lemma valid_upd [simp]:
  "valid k (upd_reg r f db) = valid k db" "valid k (upd_module m g db) = valid k db" "valid k (upd_test p h db) = valid k db"
  "valid k (set_ercd e db) = valid k db" "valid k (db\<lparr>db_regs := rs\<rparr>) = valid k db" "valid k (db\<lparr>nr_reg := n\<rparr>) = valid k db"
  "valid k (db\<lparr>init_done := b\<rparr>) = valid k db" "valid k (db\<lparr>db_calls := c\<rparr>) = valid k db"
  by (rule ext, rename_tac q, case_tac q; simp add: upd_reg_def upd_module_def upd_test_def set_ercd_def)+

lemma upd_fields [simp]:
  "db_reg (upd_reg r f db) = (db_reg db)(r := f (db_reg db r))" "db_mod (upd_reg r f db) = db_mod db" "db_func (upd_reg r f db) = db_func db"
  "db_regs (upd_reg r f db) = db_regs db" "nr_reg (upd_reg r f db) = nr_reg db" "init_done (upd_reg r f db) = init_done db"
  "db_mod (upd_module m g db) = (db_mod db)(m := g (db_mod db m))" "db_reg (upd_module m g db) = db_reg db" "db_func (upd_module m g db) = db_func db"
  "db_regs (upd_module m g db) = db_regs db" "nr_reg (upd_module m g db) = nr_reg db" "init_done (upd_module m g db) = init_done db"
  "db_func (upd_test p h db) = (db_func db)(p := h (db_func db p))" "db_reg (upd_test p h db) = db_reg db" "db_mod (upd_test p h db) = db_mod db"
  "db_regs (upd_test p h db) = db_regs db" "nr_reg (upd_test p h db) = nr_reg db" "init_done (upd_test p h db) = init_done db"
  "db_reg (set_ercd e db) = db_reg db" "db_mod (set_ercd e db) = db_mod db" "db_func (set_ercd e db) = db_func db"
  "db_regs (set_ercd e db) = db_regs db" "nr_reg (set_ercd e db) = nr_reg db" "init_done (set_ercd e db) = init_done db"
  by (simp_all add: upd_reg_def upd_module_def upd_test_def set_ercd_def)

lemma ok_set_ercd [simp]: "core_ok (set_ercd e db) = core_ok db" "phase_ok (set_ercd e db) = phase_ok db" "db_ok (set_ercd e db) = db_ok db"
  by (simp_all add: db_ok_def phase_ok_def core_defs)

lemma ok_calls [simp]: "core_ok (db\<lparr>db_calls := c\<rparr>) = core_ok db" "phase_ok (db\<lparr>db_calls := c\<rparr>) = phase_ok db" "db_ok (db\<lparr>db_calls := c\<rparr>) = db_ok db"
  by (simp_all add: db_ok_def phase_ok_def core_defs)

text \<open>A block that is allocated or freed changes the validity of its own address only.\<close>

lemma valid_block: "valid k (db\<lparr>db_block := B\<rparr>) q = (case q of Heap a \<Rightarrow> B a = Some k | _ \<Rightarrow> valid k db q)"
  by (cases q) simp_all

lemma valid_kind: "valid k db q \<Longrightarrow> valid k' db q \<Longrightarrow> k = k'"
  by (cases q) auto

subsection \<open>The elementary changes keep the invariant\<close>

lemma valid_new: "db_block db a = None \<Longrightarrow>
    valid k (db\<lparr>db_block := (db_block db)(a \<mapsto> k')\<rparr>) q = (if q = Heap a then k = k' else valid k db q)"
  by (cases q) auto

lemma names_other: "r \<notin> set rs \<Longrightarrow> map (\<lambda>x. dr_name ((R(r := y)) x)) rs = map (\<lambda>x. dr_name (R x)) rs"
  by (auto intro: map_cong)

lemma names_same: "dr_name y = dr_name (R r) \<Longrightarrow> map (\<lambda>x. dr_name ((R(r := y)) x)) rs = map (\<lambda>x. dr_name (R x)) rs"
  by (auto intro: map_cong)

lemma funcs_okD:
  "core_ok db \<Longrightarrow> valid Mod_Block db m \<Longrightarrow> p \<in> set (dm_funcs (db_mod db m)) \<Longrightarrow> valid Func_Block db p \<and> df_in (db_func db p) = m"
  by (auto simp: core_ok_def funcs_ok_def)

lemma mods_okD:
  "core_ok db \<Longrightarrow> valid Reg_Block db r \<Longrightarrow> m \<in> set (dr_mods (db_reg db r)) \<Longrightarrow> valid Mod_Block db m \<and> dm_link (db_mod db m) = In r"
  "core_ok db \<Longrightarrow> valid Mod_Block db m \<Longrightarrow> dm_link (db_mod db m) = In r \<Longrightarrow> valid Reg_Block db r \<and> m \<in> set (dr_mods (db_reg db r))"
  unfolding core_ok_def mods_ok_def by blast+

lemma fresh_block:
  assumes "core_ok db" "db_block db a = None"
  shows "\<not> valid k db (Heap a)" "Heap a \<notin> set (db_regs db)"
    "valid Reg_Block db r \<Longrightarrow> Heap a \<notin> set (dr_mods (db_reg db r))" "valid Mod_Block db m \<Longrightarrow> Heap a \<notin> set (dm_funcs (db_mod db m))"
    "valid Mod_Block db m \<Longrightarrow> dm_link (db_mod db m) \<noteq> In (Heap a)"
proof -
  show new: "\<not> valid k db (Heap a)" for k using assms(2) by simp
  show "Heap a \<notin> set (db_regs db)" using assms(1) new by (auto simp: core_ok_def regs_ok_def simp del: valid.simps)
  show "valid Reg_Block db r \<Longrightarrow> Heap a \<notin> set (dr_mods (db_reg db r))" "valid Mod_Block db m \<Longrightarrow> dm_link (db_mod db m) \<noteq> In (Heap a)"
    using assms(1) new unfolding core_ok_def mods_ok_def by blast+
  show "valid Mod_Block db m \<Longrightarrow> Heap a \<notin> set (dm_funcs (db_mod db m))"
    using assms(1) new unfolding core_ok_def funcs_ok_def by blast
qed

lemma core_new_reg:
  assumes "core_ok db" "db_block db a = None" "n \<noteq> RCU_DEFAULT_REGISTRY_NAME"
  shows "core_ok (upd_reg (Heap a) (\<lambda>_. zero_reg\<lparr>dr_name := n\<rparr>) (db\<lparr>db_block := (db_block db)(a \<mapsto> Reg_Block)\<rparr>))" (is "core_ok ?db")
proof -
  note v = valid_new [OF assms(2)] and f = fresh_block [OF assms(1,2)]
  have "regs_ok ?db" using assms(1) f by (auto simp: core_ok_def regs_ok_def v names_other simp del: fun_upd_apply)
  moreover have "mods_ok ?db" using assms(1) f by (auto simp: core_ok_def mods_ok_def v zero_reg_def)
  moreover have "funcs_ok ?db" using assms(1) f by (auto simp: core_ok_def funcs_ok_def v zero_reg_def)
  moreover have "heap_ok ?db" using assms(1,3) by (auto simp: core_ok_def heap_ok_def v zero_reg_def)
  ultimately show ?thesis by (simp add: core_ok_def)
qed

lemma core_new_mod:
  assumes "core_ok db" "db_block db a = None" "n \<noteq> RCU_DEFAULT_MODULE_NAME"
  shows "core_ok (upd_module (Heap a) (\<lambda>_. zero_mod\<lparr>dm_init := i, dm_destroy := d, dm_name := n\<rparr>) (db\<lparr>db_block := (db_block db)(a \<mapsto> Mod_Block)\<rparr>))" (is "core_ok ?db")
proof -
  note v = valid_new [OF assms(2)] and f = fresh_block [OF assms(1,2)]
  have "regs_ok ?db" using assms(1) f by (auto simp: core_ok_def regs_ok_def v)
  moreover have "mods_ok ?db" using assms(1) f by (auto simp: core_ok_def mods_ok_def v zero_mod_def)
  moreover have "funcs_ok ?db" using assms(1) f by (auto simp: core_ok_def funcs_ok_def v zero_mod_def)
  moreover have "heap_ok ?db" using assms(1,3) by (auto simp: core_ok_def heap_ok_def v zero_mod_def)
  ultimately show ?thesis by (simp add: core_ok_def)
qed

lemma core_new_func:
  assumes "core_ok db" "db_block db a = None" "valid Mod_Block db m" "df_in t = m"
  shows "core_ok (upd_module m (\<lambda>x. x\<lparr>dm_funcs := dm_funcs x @ [Heap a], dm_nr_test := dm_nr_test x + 1\<rparr>)
     (upd_test (Heap a) (\<lambda>_. t) (db\<lparr>db_block := (db_block db)(a \<mapsto> Func_Block)\<rparr>)))" (is "core_ok ?db")
proof -
  note v = valid_new [OF assms(2)] and f = fresh_block [OF assms(1,2)]
  have "regs_ok ?db" using assms(1) f by (auto simp: core_ok_def regs_ok_def v)
  moreover have "mods_ok ?db" using assms(1) f by (auto simp: core_ok_def mods_ok_def v)
  moreover have "funcs_ok ?db" using assms f by (auto simp: core_ok_def funcs_ok_def v)
  moreover have "heap_ok ?db" using assms(1) by (auto simp: core_ok_def heap_ok_def v)
  ultimately show ?thesis by (simp add: core_ok_def)
qed

lemma core_add_reg:
  assumes "core_ok db" "valid Reg_Block db r" "r \<notin> set (db_regs db)"
    "dr_name (db_reg db r) \<notin> (\<lambda>r. dr_name (db_reg db r)) ` set (db_regs db)"
  shows "core_ok (upd_reg r (\<lambda>x. x\<lparr>dr_stale := False\<rparr>) (db\<lparr>db_regs := db_regs db @ [r], nr_reg := nr_reg db + 1\<rparr>))" (is "core_ok ?db")
proof -
  have "regs_ok ?db" using assms by (auto simp: core_ok_def regs_ok_def names_other simp del: fun_upd_apply) auto
  moreover have "mods_ok ?db" using assms(1) by (auto simp: core_ok_def mods_ok_def)
  moreover have "funcs_ok ?db" using assms(1) by (auto simp: core_ok_def funcs_ok_def)
  moreover have "heap_ok ?db" using assms(1) by (auto simp: core_ok_def heap_ok_def)
  ultimately show ?thesis by (simp add: core_ok_def)
qed

lemma core_add_mod:
  assumes "core_ok db" "valid Reg_Block db r" "valid Mod_Block db m" "\<forall>r. dm_link (db_mod db m) \<noteq> In r"
  shows "core_ok (upd_module m (\<lambda>x. x\<lparr>dm_link := In r\<rparr>)
     (upd_reg r (\<lambda>x. x\<lparr>dr_mods := dr_mods x @ [m], dr_nr_mod := dr_nr_mod x + 1\<rparr>) db))" (is "core_ok ?db")
proof -
  have n: "valid Reg_Block db r' \<Longrightarrow> m \<notin> set (dr_mods (db_reg db r'))" for r'
    using assms(1,4) unfolding core_ok_def mods_ok_def by blast
  have "regs_ok ?db" using assms(1) by (auto simp: core_ok_def regs_ok_def names_same simp del: fun_upd_apply)
  moreover have "mods_ok ?db" using assms n by (auto simp: core_ok_def mods_ok_def)
  moreover have "funcs_ok ?db" using assms(1) by (auto simp: core_ok_def funcs_ok_def)
  moreover have "heap_ok ?db" using assms(1) by (auto simp: core_ok_def heap_ok_def)
  ultimately show ?thesis by (simp add: core_ok_def)
qed

text \<open>Freeing: the tests of a module, an unlinked module without tests, an unlinked registry without modules.\<close>

lemma free_funcs_eq:
  assumes "distinct ps" "\<forall>p \<in> set ps. valid Func_Block db p"
  shows "free_funcs ps db = Some (db\<lparr>db_block := (\<lambda>a. if Heap a \<in> set ps then None else db_block db a)\<rparr>)"
  using assms
proof (induction ps arbitrary: db)
  case (Cons p ps)
  obtain a where a: "p = Heap a" "db_block db a = Some Func_Block" using Cons.prems(2) by (cases p) auto
  have "\<forall>q \<in> set ps. valid Func_Block (db\<lparr>db_block := (db_block db)(a := None)\<rparr>) q"
    using Cons.prems a(1) by (auto simp: valid_block split: ptr.split)
  from Cons.IH [OF _ this] show ?case using Cons.prems(1) a
    by (auto simp: rcu_free_test_func_def fun_eq_iff intro!: arg_cong [where f = "\<lambda>B. db\<lparr>db_block := B\<rparr>"])
qed simp

definition drop_funcs :: "ptr \<Rightarrow> dbase \<Rightarrow> dbase" where
  "drop_funcs m db = upd_module m (\<lambda>x. x\<lparr>dm_funcs := []\<rparr>)
     (db\<lparr>db_block := (\<lambda>a. if Heap a \<in> set (dm_funcs (db_mod db m)) then None else db_block db a)\<rparr>)"

lemma drop_funcs_fields:
  "db_regs (drop_funcs m db) = db_regs db" "nr_reg (drop_funcs m db) = nr_reg db" "db_reg (drop_funcs m db) = db_reg db"
  "db_func (drop_funcs m db) = db_func db" "db_mod (drop_funcs m db) = (db_mod db)(m := (db_mod db m)\<lparr>dm_funcs := []\<rparr>)"
  "init_done (drop_funcs m db) = init_done db"
  by (simp_all add: drop_funcs_def)

lemma valid_drop_funcs:
  assumes "core_ok db" "valid Mod_Block db m"
  shows "valid Reg_Block (drop_funcs m db) = valid Reg_Block db" "valid Mod_Block (drop_funcs m db) = valid Mod_Block db"
    "valid Func_Block (drop_funcs m db) q = (valid Func_Block db q \<and> q \<notin> set (dm_funcs (db_mod db m)))"
proof -
  have f: "Heap a \<in> set (dm_funcs (db_mod db m)) \<Longrightarrow> db_block db a = Some Func_Block" for a
    using funcs_okD [OF assms] by fastforce
  have "valid k (drop_funcs m db) q = valid k db q" if "k \<noteq> Func_Block" for k q
    using f that by (cases q) (auto simp: drop_funcs_def)
  then show "valid Reg_Block (drop_funcs m db) = valid Reg_Block db" "valid Mod_Block (drop_funcs m db) = valid Mod_Block db"
    by (simp_all add: fun_eq_iff)
  show "valid Func_Block (drop_funcs m db) q = (valid Func_Block db q \<and> q \<notin> set (dm_funcs (db_mod db m)))"
    by (cases q) (auto simp: drop_funcs_def)
qed

lemma core_drop_funcs:
  assumes "core_ok db" "valid Mod_Block db m"
  shows "core_ok (drop_funcs m db)"
proof -
  note d = valid_drop_funcs [OF assms] drop_funcs_fields
  have f: "p \<in> set (dm_funcs (db_mod db m')) \<Longrightarrow> valid Mod_Block db m' \<Longrightarrow> m' \<noteq> m \<Longrightarrow> p \<notin> set (dm_funcs (db_mod db m))" for p m'
    using funcs_okD [OF assms] funcs_okD [OF assms(1)] by metis
  have "regs_ok (drop_funcs m db)" using assms(1) by (simp add: core_ok_def regs_ok_def d)
  moreover have "mods_ok (drop_funcs m db)" using assms(1) by (simp add: core_ok_def mods_ok_def d)
  moreover have "funcs_ok (drop_funcs m db)" using assms f by (auto simp: core_ok_def funcs_ok_def d)
  moreover have "heap_ok (drop_funcs m db)" using assms(1) by (auto simp: core_ok_def heap_ok_def d simp del: valid.simps)
  ultimately show ?thesis by (simp add: core_ok_def)
qed

definition drop_link :: "ptr \<Rightarrow> dbase \<Rightarrow> dbase" where
  "drop_link m db =
     (case dm_link (db_mod db m) of
        In r \<Rightarrow> upd_module m (\<lambda>x. x\<lparr>dm_link := Stale\<rparr>) (upd_reg r (\<lambda>x. x\<lparr>dr_mods := removeAll m (dr_mods x)\<rparr>) db)
      | _ \<Rightarrow> db)"

lemma drop_link_valid [simp]: "valid k (drop_link m db) = valid k db"
  by (simp add: drop_link_def split: link.split)

lemma drop_link_fields:
  "db_regs (drop_link m db) = db_regs db" "nr_reg (drop_link m db) = nr_reg db" "init_done (drop_link m db) = init_done db"
  "db_func (drop_link m db) = db_func db" "db_block (drop_link m db) = db_block db"
  "m' \<noteq> m \<Longrightarrow> db_mod (drop_link m db) m' = db_mod db m'"
  "dm_funcs (db_mod (drop_link m db) m') = dm_funcs (db_mod db m')" "dm_nr_test (db_mod (drop_link m db) m') = dm_nr_test (db_mod db m')"
  "dm_name (db_mod (drop_link m db) m') = dm_name (db_mod db m')"
  "dr_name (db_reg (drop_link m db) r) = dr_name (db_reg db r)" "dr_stale (db_reg (drop_link m db) r) = dr_stale (db_reg db r)"
  "dr_nr_mod (db_reg (drop_link m db) r) = dr_nr_mod (db_reg db r)"
  "dm_link (db_mod (drop_link m db) m) \<noteq> In r"
  by (simp_all add: drop_link_def upd_module_def upd_reg_def split: link.split)

lemma drop_link_mods:
  assumes "core_ok db" "valid Mod_Block db m" "valid Reg_Block db r"
  shows "dr_mods (db_reg (drop_link m db) r) = removeAll m (dr_mods (db_reg db r))"
proof -
  have "dm_link (db_mod db m) \<noteq> In r \<Longrightarrow> removeAll m (dr_mods (db_reg db r)) = dr_mods (db_reg db r)"
    using mods_okD(1) [OF assms(1,3)] by (metis removeAll_id)
  then show ?thesis by (auto simp: drop_link_def split: link.split)
qed

lemma drop_link_ok:
  assumes "core_ok db" "valid Mod_Block db m"
  shows "regs_ok (drop_link m db)" "mods_ok (drop_link m db)" "funcs_ok (drop_link m db)"
proof -
  note d = drop_link_fields
  show "regs_ok (drop_link m db)" using assms(1) by (simp add: core_ok_def regs_ok_def d)
  show "funcs_ok (drop_link m db)" using assms(1) by (simp add: core_ok_def funcs_ok_def d)
  have l: "dm_link (db_mod (drop_link m db) m') = In r \<longleftrightarrow> m' \<noteq> m \<and> dm_link (db_mod db m') = In r" for m' r
    by (cases "m' = m") (simp_all add: d)
  have "distinct (removeAll m (dr_mods (db_reg db r))) \<and> int (length (removeAll m (dr_mods (db_reg db r)))) \<le> dr_nr_mod (db_reg db r)"
    if "valid Reg_Block db r" for r
  proof -
    have "distinct (dr_mods (db_reg db r))" "int (length (dr_mods (db_reg db r))) \<le> dr_nr_mod (db_reg db r)"
      using assms(1) that by (simp_all add: core_ok_def mods_ok_def)
    moreover have "length (removeAll m (dr_mods (db_reg db r))) \<le> length (dr_mods (db_reg db r))" by (rule length_removeAll_less_eq)
    ultimately show ?thesis by (intro conjI distinct_removeAll) linarith+
  qed
  moreover have "valid Reg_Block db r \<and> m' \<in> set (dr_mods (db_reg (drop_link m db) r)) \<longleftrightarrow> m' \<noteq> m \<and> valid Mod_Block db m' \<and> dm_link (db_mod db m') = In r" for r m'
  proof -
    have "valid Reg_Block db r \<and> m' \<in> set (dr_mods (db_reg db r)) \<longleftrightarrow> valid Mod_Block db m' \<and> dm_link (db_mod db m') = In r"
      using assms(1) by (simp add: core_ok_def mods_ok_def)
    then show ?thesis by (cases "valid Reg_Block db r") (auto simp: drop_link_mods [OF assms])
  qed
  ultimately show "mods_ok (drop_link m db)" unfolding mods_ok_def l drop_link_valid d by (simp add: drop_link_mods [OF assms] conj_ac)
qed

lemma free_block_fields [simp]:
  "db_regs (free_block q db) = db_regs db" "nr_reg (free_block q db) = nr_reg db" "init_done (free_block q db) = init_done db"
  "db_reg (free_block q db) = db_reg db" "db_mod (free_block q db) = db_mod db" "db_func (free_block q db) = db_func db"
  by (cases q; simp)+

lemma valid_free: "valid k (free_block q db) p = (valid k db p \<and> (p \<noteq> q \<or> (\<forall>a. q \<noteq> Heap a)))"
  by (cases q; cases p) auto

lemma core_free_mod:
  assumes "regs_ok db" "mods_ok db" "funcs_ok db" "valid Mod_Block db (Heap a)" "\<forall>r. dm_link (db_mod db (Heap a)) \<noteq> In r"
    and "heap_ok (free_block (Heap a) db)"
  shows "core_ok (free_block (Heap a) db)"
proof -
  have n: "\<not> valid Reg_Block db (Heap a)" "\<not> valid Func_Block db (Heap a)" using assms(4) by simp_all
  have v: "valid Reg_Block (free_block (Heap a) db) = valid Reg_Block db" "valid Func_Block (free_block (Heap a) db) = valid Func_Block db"
      "valid Mod_Block (free_block (Heap a) db) q = (valid Mod_Block db q \<and> q \<noteq> Heap a)" for q
    using n by (auto simp: fun_eq_iff valid_free simp del: valid.simps free_block.simps)
  have l: "m \<noteq> Heap a \<and> dm_link (db_mod db m) = In r \<longleftrightarrow> dm_link (db_mod db m) = In r" for m r
    using assms(5) by auto
  have "regs_ok (free_block (Heap a) db)" using assms(1) by (simp add: regs_ok_def v del: free_block.simps)
  moreover have "mods_ok (free_block (Heap a) db)" using assms(2) by (simp add: mods_ok_def v l del: free_block.simps)
  moreover have "funcs_ok (free_block (Heap a) db)" using assms(3) by (auto simp: funcs_ok_def v simp del: free_block.simps)
  ultimately show ?thesis using assms(6) by (simp add: core_ok_def)
qed

definition dropped :: "ptr \<Rightarrow> dbase \<Rightarrow> dbase" where
  "dropped m db = free_block m (drop_link m (drop_funcs m db))"

lemma dropped_fields:
  assumes "core_ok db" "valid Mod_Block db m"
  shows "db_regs (dropped m db) = db_regs db" "init_done (dropped m db) = init_done db"
    "valid Reg_Block (dropped m db) = valid Reg_Block db"
    "m' \<noteq> m \<Longrightarrow> valid Mod_Block (dropped m db) m' = valid Mod_Block db m' \<and> db_mod (dropped m db) m' = db_mod db m'"
    "dm_link (db_mod (dropped m db) m) \<noteq> In r" "dm_name (db_mod (dropped m db) m') = dm_name (db_mod db m')"
    "dr_name (db_reg (dropped m db) r) = dr_name (db_reg db r)" "dr_stale (db_reg (dropped m db) r) = dr_stale (db_reg db r)"
    "valid Reg_Block db r \<Longrightarrow> dr_mods (db_reg (dropped m db) r) = removeAll m (dr_mods (db_reg db r))"
    "db_block (dropped m db) a = (if Heap a = m \<or> Heap a \<in> set (dm_funcs (db_mod db m)) then None else db_block db a)"
proof -
  have nr: "\<not> valid Reg_Block db m" using assms(2) valid_kind by auto
  note d = drop_link_fields drop_funcs_fields valid_drop_funcs [OF assms]
  have v: "valid Mod_Block (drop_funcs m db) m" using assms(2) by (simp add: d)
  show "db_regs (dropped m db) = db_regs db" "init_done (dropped m db) = init_done db"
    "dm_link (db_mod (dropped m db) m) \<noteq> In r" "dm_name (db_mod (dropped m db) m') = dm_name (db_mod db m')"
    "dr_name (db_reg (dropped m db) r) = dr_name (db_reg db r)" "dr_stale (db_reg (dropped m db) r) = dr_stale (db_reg db r)"
    by (simp_all add: dropped_def d)
  show "valid Reg_Block (dropped m db) = valid Reg_Block db" using nr by (auto simp: dropped_def fun_eq_iff valid_free d)
  show "m' \<noteq> m \<Longrightarrow> valid Mod_Block (dropped m db) m' = valid Mod_Block db m' \<and> db_mod (dropped m db) m' = db_mod db m'"
    by (simp add: dropped_def valid_free d)
  show "valid Reg_Block db r \<Longrightarrow> dr_mods (db_reg (dropped m db) r) = removeAll m (dr_mods (db_reg db r))"
    using drop_link_mods [OF core_drop_funcs [OF assms] v, of r] by (simp add: dropped_def d)
  show "db_block (dropped m db) a = (if Heap a = m \<or> Heap a \<in> set (dm_funcs (db_mod db m)) then None else db_block db a)"
    by (cases m) (simp_all add: dropped_def d drop_funcs_def upd_module_def)
qed

lemma core_dropped:
  assumes "core_ok db" "valid Mod_Block db m"
  shows "core_ok (dropped m db)"
proof -
  note c = core_drop_funcs [OF assms] and d = drop_link_fields drop_funcs_fields valid_drop_funcs [OF assms]
  have v: "valid Mod_Block (drop_funcs m db) m" using assms(2) by (simp add: d)
  note k = drop_link_ok [OF c v]
  have h: "heap_ok (dropped m db)"
    using assms(1) unfolding core_ok_def heap_ok_def dropped_def
    by (auto simp: valid_free d simp del: valid.simps)
  show ?thesis
  proof (cases m)
    case (Heap a)
    then show ?thesis using core_free_mod [OF k, of a] v h d(13) by (simp add: dropped_def del: valid.simps free_block.simps)
  next
    case Def_Mod
    then show ?thesis using k h by (simp add: core_ok_def dropped_def)
  qed (use assms(2) in auto)
qed

subsection \<open>Destroying modules and registries\<close>

lemma destroy_mod_eq:
  assumes "core_ok db" "init_done db" "valid Mod_Block db m" "dm_link (db_mod db m) \<noteq> Stale"
    and "m = Def_Mod \<Longrightarrow> dm_name (db_mod db m) = RCU_DEFAULT_MODULE_NAME"
  shows "rcu_destroy_test_mod m db = Some (RCU_E_OK, dropped m db)"
proof -
  have f: "free_funcs (dm_funcs (db_mod db m)) db =
      Some (db\<lparr>db_block := (\<lambda>a. if Heap a \<in> set (dm_funcs (db_mod db m)) then None else db_block db a)\<rparr>)"
    using assms(1,3) by (intro free_funcs_eq) (auto simp: core_ok_def funcs_ok_def)
  have u: "unlink_mod m (drop_funcs m db) = Some (drop_link m (drop_funcs m db))"
    using assms(4) by (auto simp: unlink_mod_def drop_link_def drop_funcs_fields split: link.split)
  have n: "dm_name (db_mod (drop_link m (drop_funcs m db)) m) = dm_name (db_mod db m)"
    by (simp add: drop_link_fields drop_funcs_fields)
  have r: "rcu_init db = Some db" using assms(2) by (simp add: rcu_init_def rcu_is_mach_initialized_def)
  show ?thesis
  proof (cases m)
    case (Heap a)
    have "db_block (drop_link m (drop_funcs m db)) a = Some Mod_Block"
      using valid_drop_funcs(2) [OF assms(1,3)] assms(3) Heap by (metis drop_link_valid valid.simps(4))
    moreover have "dm_name (db_mod db m) \<noteq> RCU_DEFAULT_MODULE_NAME" using assms(1,3) Heap by (simp add: core_ok_def heap_ok_def)
    ultimately show ?thesis using assms(3) f u n r Heap
      by (simp add: rcu_destroy_test_mod_def drop_funcs_def [symmetric] dropped_def rcu_free_test_mod_def)
  next
    case Def_Mod
    then show ?thesis using assms(5) f u n r by (simp add: rcu_destroy_test_mod_def drop_funcs_def [symmetric] dropped_def)
  qed (use assms(3) in auto)
qed

text \<open>What destroying a list of modules leaves.\<close>

definition after_mods :: "ptr list \<Rightarrow> dbase \<Rightarrow> dbase \<Rightarrow> bool" where
  "after_mods ms db db' \<longleftrightarrow> core_ok db' \<and> init_done db' = init_done db \<and> db_regs db' = db_regs db \<and>
     valid Reg_Block db' = valid Reg_Block db \<and> (\<forall>m. dm_name (db_mod db' m) = dm_name (db_mod db m)) \<and>
     (\<forall>r. dr_name (db_reg db' r) = dr_name (db_reg db r) \<and> dr_stale (db_reg db' r) = dr_stale (db_reg db r)) \<and>
     (\<forall>r. valid Reg_Block db r \<longrightarrow> dr_mods (db_reg db' r) = filter (\<lambda>m. m \<notin> set ms) (dr_mods (db_reg db r))) \<and>
     (\<forall>m r. dm_link (db_mod db' m) = In r \<longrightarrow> dm_link (db_mod db m) = In r) \<and>
     (\<forall>m. m \<notin> set ms \<longrightarrow> valid Mod_Block db' m = valid Mod_Block db m \<and> db_mod db' m = db_mod db m) \<and>
     (\<forall>a. db_block db' a = (if Heap a \<in> set ms \<or> (\<exists>m \<in> set ms. Heap a \<in> set (dm_funcs (db_mod db m))) then None else db_block db a))"

lemma after_modsD:
  assumes "after_mods ms db db'"
  shows "core_ok db'" "init_done db' = init_done db" "db_regs db' = db_regs db" "valid Reg_Block db' = valid Reg_Block db"
    "dm_name (db_mod db' m) = dm_name (db_mod db m)" "dr_name (db_reg db' r) = dr_name (db_reg db r)"
    "dr_stale (db_reg db' r) = dr_stale (db_reg db r)"
    "valid Reg_Block db r \<Longrightarrow> dr_mods (db_reg db' r) = filter (\<lambda>m. m \<notin> set ms) (dr_mods (db_reg db r))"
    "dm_link (db_mod db' m) = In r \<Longrightarrow> dm_link (db_mod db m) = In r"
    "m \<notin> set ms \<Longrightarrow> db_mod db' m = db_mod db m"
    "db_block db' a = (if Heap a \<in> set ms \<or> (\<exists>m \<in> set ms. Heap a \<in> set (dm_funcs (db_mod db m))) then None else db_block db a)"
  using assms unfolding after_mods_def by blast+

lemma after_mods_dropped:
  assumes "core_ok db" "valid Mod_Block db m"
  shows "after_mods [m] db (dropped m db)"
proof -
  note d = dropped_fields [OF assms]
  have "removeAll m xs = filter (\<lambda>x. x \<noteq> m) xs" for xs by (induction xs) auto
  moreover have "dm_link (db_mod (dropped m db) m') = In r \<Longrightarrow> dm_link (db_mod db m') = In r" for m' r
    using d(4,5) by (cases "m' = m") auto
  ultimately show ?thesis using core_dropped [OF assms] d by (simp add: after_mods_def)
qed

lemma after_mods_trans:
  assumes "after_mods [m] db db1" "after_mods ms db1 db2" "m \<notin> set ms"
  shows "after_mods (m # ms) db db2"
proof -
  have "db_mod db1 m' = db_mod db m'" if "m' \<in> set ms" for m' using assms(1,3) that by (auto simp: after_mods_def)
  then have "db_block db2 a = (if Heap a \<in> set (m # ms) \<or> (\<exists>m' \<in> set (m # ms). Heap a \<in> set (dm_funcs (db_mod db m'))) then None else db_block db a)" for a
    using after_modsD(11) [OF assms(1), of a] after_modsD(11) [OF assms(2), of a] by auto
  moreover
  have "filter (\<lambda>x. x \<notin> set ms) (filter (\<lambda>x. x \<notin> set [m]) xs) = filter (\<lambda>x. x \<notin> set (m # ms)) xs" for xs
    by (simp add: conj_commute)
  ultimately show ?thesis using assms(1,2) unfolding after_mods_def by simp
qed

lemma destroy_mods_spec:
  assumes "core_ok db" "init_done db" "dm_name (db_mod db Def_Mod) = RCU_DEFAULT_MODULE_NAME" "distinct ms"
    and "\<forall>m \<in> set ms. valid Mod_Block db m \<and> dm_link (db_mod db m) \<noteq> Stale"
  shows "\<exists>db'. destroy_mods ms db = Some db' \<and> after_mods ms db db'"
  using assms
proof (induction ms arbitrary: db)
  case (Cons m ms)
  have v: "valid Mod_Block db m" "dm_link (db_mod db m) \<noteq> Stale" using Cons.prems(5) by simp_all
  have e: "rcu_destroy_test_mod m db = Some (RCU_E_OK, dropped m db)"
    using destroy_mod_eq [OF Cons.prems(1,2) v] Cons.prems(3) by simp
  have a: "after_mods [m] db (dropped m db)" by (rule after_mods_dropped [OF Cons.prems(1) v(1)])
  have "\<exists>db'. destroy_mods ms (dropped m db) = Some db' \<and> after_mods ms (dropped m db) db'"
  proof (rule Cons.IH)
    show "core_ok (dropped m db)" "init_done (dropped m db)" "dm_name (db_mod (dropped m db) Def_Mod) = RCU_DEFAULT_MODULE_NAME"
      using Cons.prems(2,3) a by (simp_all add: after_mods_def)
    have "m' \<in> set ms \<Longrightarrow> m' \<noteq> m" for m' using Cons.prems(4) by auto
    then show "\<forall>m' \<in> set ms. valid Mod_Block (dropped m db) m' \<and> dm_link (db_mod (dropped m db) m') \<noteq> Stale"
      using Cons.prems(5) dropped_fields(4) [OF Cons.prems(1) v(1)] by simp
  qed (use Cons.prems(4) in simp)
  then obtain db' where "destroy_mods ms (dropped m db) = Some db'" "after_mods ms (dropped m db) db'" by blast
  then show ?case using e after_mods_trans [OF a] Cons.prems(4) by simp
qed (simp add: after_mods_def)

definition dropped_reg :: "ptr \<Rightarrow> dbase \<Rightarrow> dbase" where
  "dropped_reg r db =
     free_block r (if r \<in> set (db_regs db)
       then upd_reg r (\<lambda>x. x\<lparr>dr_stale := True\<rparr>) (db\<lparr>db_regs := removeAll r (db_regs db)\<rparr>) else db)"

lemma dropped_reg_fields:
  "db_regs (dropped_reg r db) = removeAll r (db_regs db)" "init_done (dropped_reg r db) = init_done db"
  "db_mod (dropped_reg r db) = db_mod db" "db_func (dropped_reg r db) = db_func db" "nr_reg (dropped_reg r db) = nr_reg db"
  "dr_name (db_reg (dropped_reg r db) r') = dr_name (db_reg db r')" "dr_mods (db_reg (dropped_reg r db) r') = dr_mods (db_reg db r')"
  "dr_nr_mod (db_reg (dropped_reg r db) r') = dr_nr_mod (db_reg db r')" "r' \<noteq> r \<Longrightarrow> db_reg (dropped_reg r db) r' = db_reg db r'"
  "valid k (dropped_reg r db) q = (valid k db q \<and> (q \<noteq> r \<or> (\<forall>a. r \<noteq> Heap a)))"
  by (auto simp: dropped_reg_def valid_free simp del: free_block.simps)

lemma dropped_reg_block: "db_block (dropped_reg r db) a = (if Heap a = r then None else db_block db a)"
  by (cases r) (simp_all add: dropped_reg_def upd_reg_def)

lemma core_dropped_reg:
  assumes "core_ok db" "valid Reg_Block db r" "dr_mods (db_reg db r) = []"
  shows "core_ok (dropped_reg r db)"
proof -
  note d = dropped_reg_fields
  have n: "\<not> valid Mod_Block db r" "\<not> valid Func_Block db r" using assms(2) valid_kind by auto
  have v: "valid Mod_Block (dropped_reg r db) = valid Mod_Block db" "valid Func_Block (dropped_reg r db) = valid Func_Block db"
    using n by (auto simp: fun_eq_iff d)
  have l: "(valid Reg_Block db r' \<and> (r' \<noteq> r \<or> (\<forall>a. r \<noteq> Heap a))) \<and> m \<in> set (dr_mods (db_reg db r')) \<longleftrightarrow>
      valid Reg_Block db r' \<and> m \<in> set (dr_mods (db_reg db r'))" for r' m
    using assms(3) by auto
  have "int (length (db_regs db)) \<le> nr_reg db" using assms(1) by (simp add: core_ok_def regs_ok_def)
  then have "int (length (removeAll r (db_regs db))) \<le> nr_reg db" using length_removeAll_less_eq [of r "db_regs db"] by linarith
  moreover have "distinct (map (\<lambda>r. dr_name (db_reg db r)) (removeAll r (db_regs db)))"
    using assms(1) by (auto simp: core_ok_def regs_ok_def distinct_map distinct_removeAll intro: inj_on_subset)
  ultimately have "regs_ok (dropped_reg r db)" using assms(1) by (auto simp: core_ok_def regs_ok_def d distinct_removeAll)
  moreover have "mods_ok (dropped_reg r db)"
    using assms(1) unfolding core_ok_def mods_ok_def d v l by simp
  moreover have "funcs_ok (dropped_reg r db)" using assms(1) by (simp add: core_ok_def funcs_ok_def d(1-9) v)
  moreover have "valid Reg_Block (dropped_reg r db) (Heap a) \<Longrightarrow> valid Reg_Block db (Heap a) \<and> db_reg (dropped_reg r db) (Heap a) = db_reg db (Heap a)" for a
    using d(9) [of "Heap a" r db] d(10) [of Reg_Block r db "Heap a"] by auto
  then have "heap_ok (dropped_reg r db)" using assms(1) by (simp add: core_ok_def heap_ok_def d(3) v del: valid.simps)
  ultimately show ?thesis by (simp add: core_ok_def)
qed

lemma destroy_reg_spec:
  assumes "core_ok db" "init_done db" "dm_name (db_mod db Def_Mod) = RCU_DEFAULT_MODULE_NAME"
    "dr_name (db_reg db Def_Reg) = RCU_DEFAULT_REGISTRY_NAME" "valid Reg_Block db r" "r \<in> set (db_regs db) \<or> \<not> dr_stale (db_reg db r)"
  shows "\<exists>db1. after_mods (dr_mods (db_reg db r)) db db1 \<and> dr_mods (db_reg db1 r) = [] \<and>
     rcu_destroy_test_reg r db = Some (RCU_E_OK, dropped_reg r db1) \<and> core_ok (dropped_reg r db1)"
proof -
  have "\<forall>m \<in> set (dr_mods (db_reg db r)). valid Mod_Block db m \<and> dm_link (db_mod db m) \<noteq> Stale"
    using mods_okD(1) [OF assms(1,5)] by simp
  moreover have "distinct (dr_mods (db_reg db r))" using assms(1,5) by (simp add: core_ok_def mods_ok_def)
  ultimately obtain db1 where 1: "destroy_mods (dr_mods (db_reg db r)) db = Some db1" "after_mods (dr_mods (db_reg db r)) db db1"
    using destroy_mods_spec [OF assms(1-3)] by metis
  have f: "core_ok db1" "valid Reg_Block db1 r" "dr_mods (db_reg db1 r) = []" "db_regs db1 = db_regs db" "dr_name (db_reg db1 r) = dr_name (db_reg db r)"
      "dr_stale (db_reg db1 r) = dr_stale (db_reg db r)"
    using after_modsD [OF 1(2)] assms(5) by simp_all
  define db2 where "db2 = (if r \<in> set (db_regs db1)
       then upd_reg r (\<lambda>x. x\<lparr>dr_stale := True\<rparr>) (db1\<lparr>db_regs := removeAll r (db_regs db1)\<rparr>) else db1)"
  have d: "dropped_reg r db1 = free_block r db2" by (simp add: dropped_reg_def db2_def)
  have u: "unlink_reg r db1 = Some db2" "dr_name (db_reg db2 r) = dr_name (db_reg db r)" "valid k db2 = valid k db1" for k
    using assms(6) f(4-6) by (auto simp: unlink_reg_def db2_def)
  have r: "rcu_init db = Some db" using assms(2) by (simp add: rcu_init_def rcu_is_mach_initialized_def)
  have "rcu_destroy_test_reg r db = Some (RCU_E_OK, free_block r db2)"
  proof (cases r)
    case (Heap a)
    have "db_block db2 a = Some Reg_Block" using f(2) u(3) Heap by (metis valid.simps(4))
    moreover have "dr_name (db_reg db r) \<noteq> RCU_DEFAULT_REGISTRY_NAME" using assms(1,5) Heap by (simp add: core_ok_def heap_ok_def)
    ultimately show ?thesis using assms(5) 1 u(1,2) r Heap by (simp add: rcu_destroy_test_reg_def rcu_free_reg_def)
  next
    case Def_Reg
    then show ?thesis using assms(4) 1 u(1,2) r by (simp add: rcu_destroy_test_reg_def)
  qed (use assms(5) in auto)
  then have "rcu_destroy_test_reg r db = Some (RCU_E_OK, dropped_reg r db1)" by (simp only: d)
  then show ?thesis by (intro exI [of _ db1] conjI 1(2) f(3) core_dropped_reg [OF f(1-3)])
qed

subsection \<open>Every call keeps the invariant\<close>

text \<open>
  \<open>fine P res\<close>: the call has a defined result, after which the invariant holds and \<open>P\<close> of the result. The rule
  for sequencing calls lets a composite call be proved step by step.
\<close>

definition fine :: "('a \<Rightarrow> dbase \<Rightarrow> bool) \<Rightarrow> ('a \<times> dbase) option \<Rightarrow> bool" where
  "fine P res \<longleftrightarrow> (\<exists>x db. res = Some (x, db) \<and> db_ok db \<and> P x db)"

lemma fine_bind:
  assumes "fine Q res" "\<And>x db. res = Some (x, db) \<Longrightarrow> db_ok db \<Longrightarrow> Q x db \<Longrightarrow> fine P (f x db)"
  shows "fine P (res \<bind> (\<lambda>(x, db). f x db))"
  using assms by (auto simp: fine_def)

lemma fine_Some [simp]: "fine P (Some (x, db)) \<longleftrightarrow> db_ok db \<and> P x db"
  by (simp add: fine_def)

lemma fine_mono: "fine P res \<Longrightarrow> (\<And>x db. P x db \<Longrightarrow> Q x db) \<Longrightarrow> fine Q res"
  by (auto simp: fine_def)

lemma fine_snd: "fine P res \<Longrightarrow> \<exists>db'. map_option snd res = Some db' \<and> db_ok db'"
  by (auto simp: fine_def)

text \<open>A call only adds objects: what was valid stays so, and a module that was in no list still is in none.\<close>

definition grows :: "dbase \<Rightarrow> dbase \<Rightarrow> bool" where
  "grows db db' \<longleftrightarrow> init_done db' \<and> (\<forall>k q. valid k db q \<longrightarrow> valid k db' q) \<and>
     (\<forall>a. valid Mod_Block db (Heap a) \<longrightarrow> db_mod db' (Heap a) = db_mod db (Heap a))"

lemma core_reset_reg:
  assumes "core_ok db" "db_regs db = []" "dr_mods (db_reg db Def_Reg) = []"
  shows "core_ok (upd_reg Def_Reg (\<lambda>_. zero_reg\<lparr>dr_name := n\<rparr>) (db\<lparr>init_done := True, db_regs := [], nr_reg := 0\<rparr>))" (is "core_ok ?db")
proof -
  have B: "valid Reg_Block db r \<and> m \<in> set (dr_mods (db_reg db r)) \<longleftrightarrow> valid Mod_Block db m \<and> dm_link (db_mod db m) = In r" for r m
    using assms(1) by (simp add: core_ok_def mods_ok_def)
  have "dr_mods (db_reg ?db r) = dr_mods (db_reg db r)" for r using assms(3) by (simp add: zero_reg_def)
  moreover have "int (length (dr_mods (db_reg ?db r))) \<le> dr_nr_mod (db_reg ?db r)" if "valid Reg_Block db r" for r
    using assms(1) that by (simp add: zero_reg_def core_ok_def mods_ok_def)
  ultimately have "mods_ok ?db" using assms(1) B unfolding mods_ok_def core_ok_def by simp
  moreover have "funcs_ok ?db" "heap_ok ?db" "regs_ok ?db" using assms(1) by (simp_all add: core_ok_def funcs_ok_def heap_ok_def regs_ok_def)
  ultimately show ?thesis by (simp add: core_ok_def)
qed

lemma core_reset_mod:
  assumes "core_ok db" "\<forall>r. dm_link (db_mod db Def_Mod) \<noteq> In r"
  shows "core_ok (upd_module Def_Mod (\<lambda>_. zero_mod\<lparr>dm_init := i, dm_destroy := d, dm_name := n\<rparr>) db)" (is "core_ok ?db")
proof -
  have "(dm_link (db_mod ?db m) = In r) = (dm_link (db_mod db m) = In r)" for m r using assms(2) by (simp add: zero_mod_def)
  then have "mods_ok ?db" using assms(1) unfolding mods_ok_def core_ok_def by simp
  moreover have "funcs_ok ?db" using assms(1) by (auto simp: core_ok_def funcs_ok_def zero_mod_def)
  moreover have "heap_ok ?db" "regs_ok ?db" using assms(1) by (simp_all add: core_ok_def heap_ok_def regs_ok_def)
  ultimately show ?thesis by (simp add: core_ok_def)
qed

lemma short_names: "take RCU_TEST_REGISTRY_NAME_LENGTH RCU_DEFAULT_REGISTRY_NAME = RCU_DEFAULT_REGISTRY_NAME"
    "take RCU_TEST_MODULE_NAME_LENGTH RCU_DEFAULT_MODULE_NAME = RCU_DEFAULT_MODULE_NAME"
  by (rule take_all, simp add: RCU_TEST_REGISTRY_NAME_LENGTH_def RCU_DEFAULT_REGISTRY_NAME_def
        RCU_TEST_MODULE_NAME_LENGTH_def RCU_DEFAULT_MODULE_NAME_def)+

lemma init_spec:
  assumes "db_ok db"
  shows "\<exists>db'. rcu_init db = Some db' \<and> db_ok db' \<and> grows db db' \<and> (init_done db \<longrightarrow> db' = db)"
proof (cases "init_done db")
  case True
  then show ?thesis using assms by (auto simp: rcu_init_def rcu_is_mach_initialized_def grows_def)
next
  case False
  have p: "db_regs db = []" "dr_mods (db_reg db Def_Reg) = []" "\<forall>r. dm_link (db_mod db Def_Mod) \<noteq> In r" and c: "core_ok db"
    using assms False by (simp_all add: db_ok_def phase_ok_def)
  define db1 where "db1 = upd_reg Def_Reg (\<lambda>_. zero_reg\<lparr>dr_name := RCU_DEFAULT_REGISTRY_NAME\<rparr>) (db\<lparr>init_done := True, db_regs := [], nr_reg := 0\<rparr>)"
  define db2 where "db2 = upd_reg Def_Reg (\<lambda>x. x\<lparr>dr_stale := False\<rparr>) (db1\<lparr>db_regs := db_regs db1 @ [Def_Reg], nr_reg := nr_reg db1 + 1\<rparr>)"
  define db3 where "db3 = upd_module Def_Mod (\<lambda>_. zero_mod\<lparr>dm_init := None, dm_destroy := None, dm_name := RCU_DEFAULT_MODULE_NAME\<rparr>) db2"
  define db4 where "db4 = upd_module Def_Mod (\<lambda>x. x\<lparr>dm_link := In Def_Reg\<rparr>)
     (upd_reg Def_Reg (\<lambda>x. x\<lparr>dr_mods := dr_mods x @ [Def_Mod], dr_nr_mod := dr_nr_mod x + 1\<rparr>) db3)"
  note defs = db1_def db2_def db3_def db4_def
  have "core_ok db1" unfolding db1_def by (rule core_reset_reg [OF c p(1,2)])
  then have "core_ok db2" unfolding db2_def by (rule core_add_reg) (simp_all add: db1_def)
  then have "core_ok db3" unfolding db3_def using p(3) by (intro core_reset_mod) (simp_all add: db2_def db1_def)
  then have "core_ok db4" unfolding db4_def by (rule core_add_mod) (simp_all add: db3_def zero_mod_def)
  moreover have "phase_ok db4" by (simp add: phase_ok_def defs zero_mod_def zero_reg_def)
  moreover have "rcu_init db = Some db4"
  proof -
    have "\<not> (case dm_link (db_mod db Def_Mod) of In _ \<Rightarrow> True | _ \<Rightarrow> False)" using p(3) by (simp split: link.split)
    moreover have "add_test_reg Def_Reg db1 = Some (RCU_E_OK, db2)"
      by (simp add: add_test_reg_def db2_def db1_def rcu_reg_exists_def rcu_srch_reg_by_name_def found_def)
    moreover have "add_mod_to_reg Def_Reg Def_Mod db3 = Some (RCU_E_OK, db4)"
      by (simp add: add_mod_to_reg_def db4_def db3_def zero_mod_def Let_def)
    ultimately show ?thesis using False p
      by (simp add: rcu_init_def rcu_is_mach_initialized_def rcu_init_test_mach_def rcu_init_reg_def rcu_init_mod_def short_names
          db1_def [symmetric] db3_def [symmetric] Let_def)
  qed
  moreover have "grows db db4" by (simp add: grows_def defs)
  ultimately show ?thesis using False by (simp add: db_ok_def)
qed

lemma fine_init:
  assumes "db_ok db" "\<And>db'. db_ok db' \<Longrightarrow> grows db db' \<Longrightarrow> fine P (f db')"
  shows "fine P (rcu_init db \<bind> f)"
  using init_spec [OF assms(1)] assms(2) by auto

text \<open>\<open>keeps\<close> is what calls that also link modules still guarantee.\<close>

definition keeps :: "dbase \<Rightarrow> dbase \<Rightarrow> bool" where
  "keeps db db' \<longleftrightarrow> init_done db' \<and> (\<forall>k q. valid k db q \<longrightarrow> valid k db' q)"

lemma grows_keeps: "grows db db' \<Longrightarrow> keeps db db'" by (simp add: grows_def keeps_def)

lemma keeps_trans: "keeps db db1 \<Longrightarrow> keeps db1 db2 \<Longrightarrow> keeps db db2" by (simp add: keeps_def)

lemma keeps_valid: "keeps db db' \<Longrightarrow> q = Null \<or> valid k db q \<Longrightarrow> q = Null \<or> valid k db' q" by (auto simp: keeps_def)

lemma init_again: "init_done db \<Longrightarrow> rcu_init db = Some db"
  by (simp add: rcu_init_def rcu_is_mach_initialized_def)

lemma srch_reg_Null:
  assumes "db_ok db" "rcu_srch_reg_by_name db (Some n) = Null"
  shows "n \<notin> (\<lambda>r. dr_name (db_reg db r)) ` set (db_regs db)"
proof -
  have "Null \<notin> set (db_regs db)" using assms(1) by (auto simp: db_ok_def core_ok_def regs_ok_def)
  then show ?thesis using assms(2)
    by (auto simp: rcu_srch_reg_by_name_def found_def find_None_iff find_Some_iff split: option.splits) (metis nth_mem)
qed

lemma add_test_reg_fine:
  assumes "db_ok db" "init_done db" "reg = Null \<or> valid Reg_Block db reg"
  shows "fine (\<lambda>_ db'. grows db db') (add_test_reg reg db)"
proof -
  define db' where "db' = upd_reg reg (\<lambda>x. x\<lparr>dr_stale := False\<rparr>) (db\<lparr>db_regs := db_regs db @ [reg], nr_reg := nr_reg db + 1\<rparr>)"
  have "grows db (set_ercd e db)" for e using assms(2) by (simp add: grows_def)
  moreover have "db_ok db' \<and> grows db db'"
    if "reg \<noteq> Null" "\<not> rcu_reg_exists db reg" "rcu_srch_reg_by_name db (Some (dr_name (db_reg db reg))) = Null"
  proof -
    have "core_ok db'" unfolding db'_def
      using assms that srch_reg_Null [OF assms(1) that(3)] by (intro core_add_reg) (auto simp: db_ok_def rcu_reg_exists_def)
    then show ?thesis using assms(1,2) by (auto simp: db_ok_def phase_ok_def db'_def grows_def)
  qed
  ultimately show ?thesis using assms by (auto simp: add_test_reg_def db'_def)
qed

lemma add_mod_fine:
  assumes "db_ok db" "init_done db" "reg = Null \<or> valid Reg_Block db reg"
    and "m = Null \<or> valid Mod_Block db m \<and> m \<noteq> Def_Mod \<and> dm_link (db_mod db m) = Self"
  shows "fine (\<lambda>rc db'. keeps db db' \<and> (m \<noteq> Null \<longrightarrow> rc = RCU_E_OK)) (add_mod_to_reg reg m db)"
proof (cases "m = Null")
  case True
  then show ?thesis using assms(1,2) by (simp add: add_mod_to_reg_def keeps_def)
next
  case False
  define r where "r = (if reg = Null then Def_Reg else reg)"
  define db' where "db' = upd_module m (\<lambda>x. x\<lparr>dm_link := In r\<rparr>)
     (upd_reg r (\<lambda>x. x\<lparr>dr_mods := dr_mods x @ [m], dr_nr_mod := dr_nr_mod x + 1\<rparr>) db)"
  have r: "valid Reg_Block db r" using assms(3) by (auto simp: r_def)
  have "core_ok db'" unfolding db'_def using assms False r by (intro core_add_mod) (auto simp: db_ok_def)
  moreover have "phase_ok db'" using assms False by (auto simp: db_ok_def phase_ok_def db'_def)
  moreover have "add_mod_to_reg reg m db = Some (RCU_E_OK, db')"
    using assms(4) False r by (simp add: add_mod_to_reg_def r_def [symmetric] db'_def Let_def)
  ultimately show ?thesis using assms(2) by (simp add: db_ok_def keeps_def db'_def)
qed

lemma core_upd_invalid:
  "\<not> valid Mod_Block db q \<Longrightarrow> core_ok (upd_module q f db) = core_ok db"
  "core_ok db \<Longrightarrow> \<not> valid Reg_Block db q \<Longrightarrow> core_ok (upd_reg q g db)"
proof -
  assume n: "\<not> valid Mod_Block db q"
  then have "valid Mod_Block db m \<Longrightarrow> db_mod (upd_module q f db) m = db_mod db m" for m by auto
  then have "mods_ok (upd_module q f db) = mods_ok db" "funcs_ok (upd_module q f db) = funcs_ok db" "heap_ok (upd_module q f db) = heap_ok db"
    unfolding mods_ok_def funcs_ok_def heap_ok_def by (auto simp del: valid.simps fun_upd_apply cong: conj_cong)
  then show "core_ok (upd_module q f db) = core_ok db" by (simp add: core_ok_def regs_ok_def)
next
  assume c: "core_ok db" and n: "\<not> valid Reg_Block db q"
  have r: "valid Reg_Block db r \<Longrightarrow> db_reg (upd_reg q g db) r = db_reg db r" for r using n by auto
  have "q \<notin> set (db_regs db)" using c n by (auto simp: core_ok_def regs_ok_def)
  then have "regs_ok (upd_reg q g db)" using c by (auto simp: core_ok_def regs_ok_def names_other simp del: fun_upd_apply)
  moreover have "mods_ok (upd_reg q g db)" "heap_ok (upd_reg q g db)"
    using c r unfolding core_ok_def mods_ok_def heap_ok_def by (auto simp del: valid.simps fun_upd_apply cong: conj_cong)
  ultimately show "core_ok (upd_reg q g db)" using c by (simp add: core_ok_def funcs_ok_def)
qed

lemma alloc_cases:
  obtains a where "alloc M k db = (Heap a, db\<lparr>db_calls := db_calls db + 1, db_block := (db_block db)(a \<mapsto> k)\<rparr>)" "db_block db a = None"
  | "alloc M k db = (Null, db\<lparr>db_calls := db_calls db + 1\<rparr>)"
proof (cases "M (db_calls db)")
  case None
  then show thesis by (intro that(2)) (simp add: alloc_def)
next
  case (Some a)
  then show thesis using that by (cases "db_block db a = None") (simp_all add: alloc_def)
qed

lemma undo_block: "db_block db a = None \<Longrightarrow> (db_block db)(a := None) = db_block db"
  by (rule fun_upd_idem)

lemma take_short: "take k n = d \<Longrightarrow> length d < k \<Longrightarrow> n = d"
  by (cases "length n \<le> k") auto

lemma reserved_names:
  "take RCU_TEST_REGISTRY_NAME_LENGTH n = RCU_DEFAULT_REGISTRY_NAME \<Longrightarrow> n = RCU_DEFAULT_REGISTRY_NAME"
  "take RCU_TEST_MODULE_NAME_LENGTH n = RCU_DEFAULT_MODULE_NAME \<Longrightarrow> n = RCU_DEFAULT_MODULE_NAME"
  by (erule take_short, simp add: RCU_TEST_REGISTRY_NAME_LENGTH_def RCU_DEFAULT_REGISTRY_NAME_def
        RCU_TEST_MODULE_NAME_LENGTH_def RCU_DEFAULT_MODULE_NAME_def)+

text \<open>A block that is allocated, cleared and given back leaves nothing behind.\<close>

lemma ok_discard:
  assumes "db_ok db" "db_block db a = None" "init_done db"
  shows "db_ok (upd_module (Heap a) f (db\<lparr>db_calls := c\<rparr>)) \<and> grows db (upd_module (Heap a) f (db\<lparr>db_calls := c\<rparr>))"
    "db_ok (upd_reg (Heap a) g (db\<lparr>db_calls := c\<rparr>)) \<and> grows db (upd_reg (Heap a) g (db\<lparr>db_calls := c\<rparr>))"
  using assms core_upd_invalid [of "db\<lparr>db_calls := c\<rparr>" "Heap a"] by (auto simp: db_ok_def phase_ok_def grows_def)

definition new_mod :: "nat \<Rightarrow> string \<Rightarrow> fptr \<Rightarrow> fptr \<Rightarrow> dbase \<Rightarrow> dbase" where
  "new_mod a s i d db = upd_module (Heap a) (\<lambda>_. zero_mod\<lparr>dm_init := i, dm_destroy := d, dm_name := take RCU_TEST_MODULE_NAME_LENGTH s\<rparr>)
     (db\<lparr>db_calls := db_calls db + 1, db_block := (db_block db)(a \<mapsto> Mod_Block)\<rparr>)"

definition new_reg :: "nat \<Rightarrow> string \<Rightarrow> dbase \<Rightarrow> dbase" where
  "new_reg a s db = upd_reg (Heap a) (\<lambda>_. zero_reg\<lparr>dr_name := take RCU_TEST_REGISTRY_NAME_LENGTH s\<rparr>)
     (db\<lparr>db_calls := db_calls db + 1, db_block := (db_block db)(a \<mapsto> Reg_Block)\<rparr>)"

lemma upd_twice: "upd_module q f (upd_module q g db) = upd_module q (f \<circ> g) db" "upd_reg q f' (upd_reg q g' db) = upd_reg q (f' \<circ> g') db"
  "upd_test q f'' (upd_test q g'' db) = upd_test q (f'' \<circ> g'') db"
  by (simp_all add: upd_module_def upd_reg_def upd_test_def)

lemma free_upd:
  "free_block q (upd_module p f db) = upd_module p f (free_block q db)" "free_block q (upd_reg p g db) = upd_reg p g (free_block q db)"
  "free_block q (set_ercd e db) = set_ercd e (free_block q db)"
  "db_block (upd_module p f db) = db_block db" "db_block (upd_reg p g db) = db_block db" "db_block (set_ercd e db) = db_block db"
  by (cases q; simp add: upd_module_def upd_reg_def set_ercd_def)+

lemma cre_mod_cases:
  assumes "db_ok db" "init_done db"
  obtains db' where "rcu_cre_test_mod M name i d db = Some (Null, db')" "db_ok db'" "grows db db'"
  | a s where "rcu_cre_test_mod M name i d db = Some (Heap a, new_mod a s i d db)" "db_block db a = None" "name = Some s"
      "s \<noteq> RCU_DEFAULT_MODULE_NAME"
proof (cases rule: alloc_cases [of M Mod_Block db])
  case 2
  have "rcu_cre_test_mod M name i d db = Some (Null, set_ercd RCU_E_NOMEM (db\<lparr>db_calls := db_calls db + 1\<rparr>))"
    using 2 init_again [OF assms(2)] by (simp add: rcu_cre_test_mod_def rcu_alloc_test_mod_def)
  then show thesis using that(1) assms by (simp add: grows_def)
next
  case (1 a)
  have u: "(db_block db)(a := None) = db_block db" by (rule undo_block [OF 1(2)])
  note simps = rcu_cre_test_mod_def rcu_alloc_test_mod_def rcu_free_test_mod_def rcu_init_mod_def free_upd
  note d = ok_discard(1) [OF assms(1) 1(2) assms(2), of "\<lambda>_. zero_mod" "Suc (db_calls db)"]
  consider "name = None" | "name = Some RCU_DEFAULT_MODULE_NAME" | s where "name = Some s" "s \<noteq> RCU_DEFAULT_MODULE_NAME" by (cases name) auto
  then show thesis
  proof cases
    case 1
    then have "rcu_cre_test_mod M name i d db = Some (Null, upd_module (Heap a) (\<lambda>_. zero_mod) (db\<lparr>db_calls := Suc (db_calls db)\<rparr>))"
      using \<open>alloc M Mod_Block db = _\<close> init_again [OF assms(2)] u by (simp add: simps)
    then show thesis using that(1) d by simp
  next
    case 2
    then have "rcu_cre_test_mod M name i d db =
        Some (Null, set_ercd RCU_E_INVMODNAME (upd_module (Heap a) (\<lambda>_. zero_mod) (db\<lparr>db_calls := Suc (db_calls db)\<rparr>)))"
      using \<open>alloc M Mod_Block db = _\<close> init_again [OF assms(2)] u by (simp add: simps)
    then show thesis using that(1) d by (simp add: grows_def)
  next
    case (3 s)
    then have "rcu_cre_test_mod M name i d db = Some (Heap a, new_mod a s i d db)"
      using \<open>alloc M Mod_Block db = _\<close> init_again [OF assms(2)] by (simp add: simps new_mod_def upd_twice comp_def)
    then show thesis using that(2) 3 \<open>db_block db a = None\<close> by simp
  qed
qed

lemma cre_reg_cases:
  assumes "db_ok db" "init_done db"
  obtains db' where "rcu_cre_test_reg M name db = Some (Null, db')" "db_ok db'" "grows db db'"
  | a s where "rcu_cre_test_reg M name db = Some (Heap a, new_reg a s db)" "db_block db a = None" "name = Some s"
      "s \<noteq> RCU_DEFAULT_REGISTRY_NAME"
proof (cases rule: alloc_cases [of M Reg_Block db])
  case 2
  have "rcu_cre_test_reg M name db = Some (Null, set_ercd RCU_E_NOMEM (db\<lparr>db_calls := db_calls db + 1\<rparr>))"
    using 2 init_again [OF assms(2)] by (simp add: rcu_cre_test_reg_def rcu_alloc_reg_def)
  then show thesis using that(1) assms by (simp add: grows_def)
next
  case (1 a)
  have u: "(db_block db)(a := None) = db_block db" by (rule undo_block [OF 1(2)])
  note simps = rcu_cre_test_reg_def rcu_alloc_reg_def rcu_free_reg_def rcu_init_reg_def free_upd
  note d = ok_discard(2) [OF assms(1) 1(2) assms(2), of "\<lambda>_. zero_reg" "Suc (db_calls db)"]
  consider "name = None" | "name = Some RCU_DEFAULT_REGISTRY_NAME" | s where "name = Some s" "s \<noteq> RCU_DEFAULT_REGISTRY_NAME" by (cases name) auto
  then show thesis
  proof cases
    case 1
    then have "rcu_cre_test_reg M name db = Some (Null, upd_reg (Heap a) (\<lambda>_. zero_reg) (db\<lparr>db_calls := Suc (db_calls db)\<rparr>))"
      using \<open>alloc M Reg_Block db = _\<close> init_again [OF assms(2)] u by (simp add: simps)
    then show thesis using that(1) d by simp
  next
    case 2
    then have "rcu_cre_test_reg M name db =
        Some (Null, set_ercd RCU_E_INVREGNAME (upd_reg (Heap a) (\<lambda>_. zero_reg) (db\<lparr>db_calls := Suc (db_calls db)\<rparr>)))"
      using \<open>alloc M Reg_Block db = _\<close> init_again [OF assms(2)] u by (simp add: simps)
    then show thesis using that(1) d by (simp add: grows_def)
  next
    case (3 s)
    then have "rcu_cre_test_reg M name db = Some (Heap a, new_reg a s db)"
      using \<open>alloc M Reg_Block db = _\<close> init_again [OF assms(2)] by (simp add: simps new_reg_def upd_twice comp_def)
    then show thesis using that(2) 3 \<open>db_block db a = None\<close> by simp
  qed
qed

lemma valid_new_mod: "db_block db a = None \<Longrightarrow> valid k (new_mod a s i d db) q = (if q = Heap a then k = Mod_Block else valid k db q)"
  by (cases q) (auto simp: new_mod_def)

lemma valid_new_reg: "db_block db a = None \<Longrightarrow> valid k (new_reg a s db) q = (if q = Heap a then k = Reg_Block else valid k db q)"
  by (cases q) (auto simp: new_reg_def)

lemma new_mod_ok:
  assumes "db_ok db" "init_done db" "db_block db a = None" "s \<noteq> RCU_DEFAULT_MODULE_NAME"
  shows "db_ok (new_mod a s i d db)" "grows db (new_mod a s i d db)" "valid Mod_Block (new_mod a s i d db) (Heap a)"
    "dm_link (db_mod (new_mod a s i d db) (Heap a)) = Self" "dm_funcs (db_mod (new_mod a s i d db) (Heap a)) = []"
proof -
  have "core_ok (new_mod a s i d db)" unfolding new_mod_def
    using assms reserved_names(2) core_new_mod [of "db\<lparr>db_calls := db_calls db + 1\<rparr>" a "take RCU_TEST_MODULE_NAME_LENGTH s" d i]
    by (auto simp: db_ok_def)
  moreover have "phase_ok (new_mod a s i d db)" using assms(1) by (auto simp: db_ok_def phase_ok_def new_mod_def)
  ultimately show "db_ok (new_mod a s i d db)" by (simp add: db_ok_def)
  show "valid Mod_Block (new_mod a s i d db) (Heap a)" using valid_new_mod [OF assms(3)] by (simp del: valid.simps)
  have "init_done (new_mod a s i d db)" using assms(2) by (simp add: new_mod_def)
  moreover have "valid k db q \<Longrightarrow> valid k (new_mod a s i d db) q" for k q using valid_new_mod [OF assms(3)] assms(3) by auto
  moreover have "valid Mod_Block db (Heap b) \<Longrightarrow> db_mod (new_mod a s i d db) (Heap b) = db_mod db (Heap b)" for b
    using assms(3) by (auto simp: new_mod_def)
  ultimately show "grows db (new_mod a s i d db)" unfolding grows_def by blast
  show "dm_link (db_mod (new_mod a s i d db) (Heap a)) = Self" "dm_funcs (db_mod (new_mod a s i d db) (Heap a)) = []"
    by (simp_all add: new_mod_def zero_mod_def)
qed

lemma new_reg_ok:
  assumes "db_ok db" "init_done db" "db_block db a = None" "s \<noteq> RCU_DEFAULT_REGISTRY_NAME"
  shows "db_ok (new_reg a s db)" "grows db (new_reg a s db)" "valid Reg_Block (new_reg a s db) (Heap a)"
proof -
  have "core_ok (new_reg a s db)" unfolding new_reg_def
    using assms reserved_names(1) core_new_reg [of "db\<lparr>db_calls := db_calls db + 1\<rparr>" a "take RCU_TEST_REGISTRY_NAME_LENGTH s"]
    by (auto simp: db_ok_def)
  moreover have "phase_ok (new_reg a s db)" using assms(1) by (auto simp: db_ok_def phase_ok_def new_reg_def)
  ultimately show "db_ok (new_reg a s db)" by (simp add: db_ok_def)
  show "valid Reg_Block (new_reg a s db) (Heap a)" using valid_new_reg [OF assms(3)] by (simp del: valid.simps)
  have "init_done (new_reg a s db)" using assms(2) by (simp add: new_reg_def)
  moreover have "valid k db q \<Longrightarrow> valid k (new_reg a s db) q" for k q using valid_new_reg [OF assms(3)] assms(3) by auto
  ultimately show "grows db (new_reg a s db)" by (simp add: grows_def new_reg_def)
qed

text \<open>The calls that start with \<open>rcu_init\<close> may be looked at after it.\<close>

lemma after_init:
  assumes "db_ok db" "\<And>db'. db_ok db' \<Longrightarrow> init_done db' \<Longrightarrow> grows db db' \<Longrightarrow> fine P (f db')"
    and "f db = (rcu_init db \<bind> f)"
  shows "fine P (f db)"
  using init_spec [OF assms(1)] assms(2,3) by (auto simp: grows_def)

lemma add_sets_init:
  "add_test_reg r db = Some (x, db') \<Longrightarrow> init_done db' = init_done db" "add_mod_to_reg r m db = Some (x, db') \<Longrightarrow> init_done db' = init_done db"
  by (auto simp: add_test_reg_def add_mod_to_reg_def Let_def split: if_splits link.splits)

lemma init_sets: "rcu_init db = Some db' \<Longrightarrow> init_done db'"
  by (auto simp: rcu_init_def rcu_is_mach_initialized_def rcu_init_test_mach_def rcu_init_reg_def rcu_init_mod_def Let_def
      dest!: add_sets_init split: if_splits bind_splits)

lemma init_idem: "rcu_init db \<bind> (\<lambda>x. rcu_init x \<bind> g) = rcu_init db \<bind> g"
  by (cases "rcu_init db") (simp_all add: init_again init_sets)

lemma cre_mod_fine:
  assumes "db_ok db"
  shows "fine (\<lambda>m db'. keeps db db' \<and> (m = Null \<or> m \<noteq> Def_Mod \<and> valid Mod_Block db' m \<and> dm_link (db_mod db' m) = Self))
     (rcu_cre_test_mod M name i d db)"
proof (rule after_init [OF assms])
  fix db1 assume 1: "db_ok db1" "init_done db1" "grows db db1"
  note k = grows_keeps [OF 1(3)]
  show "fine (\<lambda>m db'. keeps db db' \<and> (m = Null \<or> m \<noteq> Def_Mod \<and> valid Mod_Block db' m \<and> dm_link (db_mod db' m) = Self))
     (rcu_cre_test_mod M name i d db1)"
  proof (cases rule: cre_mod_cases [OF 1(1,2), of M name i d])
    case (1 db')
    then show ?thesis using keeps_trans [OF k grows_keeps] by simp
  next
    case (2 a s)
    note n = new_mod_ok [OF \<open>db_ok db1\<close> \<open>init_done db1\<close> 2(2,4), of i d]
    then show ?thesis using 2(1) keeps_trans [OF k grows_keeps [OF n(2)]] by simp
  qed
qed (simp only: rcu_cre_test_mod_def init_idem)

lemma cre_reg_fine:
  assumes "db_ok db"
  shows "fine (\<lambda>r db'. keeps db db' \<and> (r = Null \<or> valid Reg_Block db' r)) (rcu_cre_test_reg M name db)"
proof (rule after_init [OF assms])
  fix db1 assume 1: "db_ok db1" "init_done db1" "grows db db1"
  note k = grows_keeps [OF 1(3)]
  show "fine (\<lambda>r db'. keeps db db' \<and> (r = Null \<or> valid Reg_Block db' r)) (rcu_cre_test_reg M name db1)"
  proof (cases rule: cre_reg_cases [OF 1(1,2), of M name])
    case (1 db')
    then show ?thesis using keeps_trans [OF k grows_keeps] by simp
  next
    case (2 a s)
    note n = new_reg_ok [OF \<open>db_ok db1\<close> \<open>init_done db1\<close> 2(2,4)]
    then show ?thesis using 2(1) keeps_trans [OF k grows_keeps [OF n(2)]] by (simp del: valid.simps)
  qed
qed (simp only: rcu_cre_test_reg_def init_idem)

lemma add_reg_fine:
  assumes "db_ok db" "r = Null \<or> valid Reg_Block db r"
  shows "fine (\<lambda>_ db'. keeps db db') (rcu_add_test_reg r db)"
proof (rule after_init [OF assms(1)])
  fix db1 assume 1: "db_ok db1" "init_done db1" "grows db db1"
  have "r = Null \<or> valid Reg_Block db1 r" by (rule keeps_valid [OF grows_keeps [OF 1(3)] assms(2)])
  from add_test_reg_fine [OF 1(1,2) this] show "fine (\<lambda>_ db'. keeps db db') (rcu_add_test_reg r db1)"
    using keeps_trans [OF grows_keeps [OF 1(3)] grows_keeps] init_again [OF 1(2)]
    by (auto simp: rcu_add_test_reg_def elim: fine_mono)
qed (simp only: rcu_add_test_reg_def init_idem)

lemma add_mod_to_reg_fine:
  assumes "db_ok db" "r = Null \<or> valid Reg_Block db r"
    and "m = Null \<or> valid Mod_Block db m \<and> m \<noteq> Def_Mod \<and> dm_link (db_mod db m) = Self"
  shows "fine (\<lambda>rc db'. keeps db db' \<and> (m \<noteq> Null \<longrightarrow> rc = RCU_E_OK)) (rcu_add_mod_to_reg r m db)"
proof (rule after_init [OF assms(1)])
  fix db1 assume 1: "db_ok db1" "init_done db1" "grows db db1"
  note k = grows_keeps [OF 1(3)]
  have r: "r = Null \<or> valid Reg_Block db1 r" by (rule keeps_valid [OF k assms(2)])
  have m: "m = Null \<or> valid Mod_Block db1 m \<and> m \<noteq> Def_Mod \<and> dm_link (db_mod db1 m) = Self"
  proof (cases m)
    case (Heap a)
    then have "valid Mod_Block db (Heap a)" "dm_link (db_mod db (Heap a)) = Self" using assms(3) by auto
    then have "valid Mod_Block db1 (Heap a)" "db_mod db1 (Heap a) = db_mod db (Heap a)" using 1(3) unfolding grows_def by blast+
    then show ?thesis using \<open>dm_link (db_mod db (Heap a)) = Self\<close> Heap by simp
  qed (use assms(3) in auto)
  from add_mod_fine [OF 1(1,2) r m] show "fine (\<lambda>rc db'. keeps db db' \<and> (m \<noteq> Null \<longrightarrow> rc = RCU_E_OK)) (rcu_add_mod_to_reg r m db1)"
    using keeps_trans [OF k] init_again [OF 1(2)] by (auto simp: rcu_add_mod_to_reg_def elim: fine_mono)
qed (simp only: rcu_add_mod_to_reg_def init_idem)

lemma fine_then: "fine Q res \<Longrightarrow> (\<And>db. Q' db \<Longrightarrow> P x db) \<Longrightarrow> (\<And>y db. Q y db \<Longrightarrow> Q' db) \<Longrightarrow> fine P (res \<bind> (\<lambda>(_, db). Some (x, db)))"
  by (auto simp: fine_def)

lemma get_reg_fine:
  assumes "db_ok db"
  shows "fine (\<lambda>_ _. True) (rcu_get_reg M name db)"
proof -
  have cre: "fine (\<lambda>_ _. True)
      (rcu_cre_test_reg M name db1 \<bind> (\<lambda>(reg, db). rcu_add_test_reg reg db \<bind> (\<lambda>(_, db). Some (reg, db))))" if "db_ok db1" for db1
  proof (rule fine_bind [OF cre_reg_fine [OF that]])
    fix r db2 assume "db_ok db2" "keeps db1 db2 \<and> (r = Null \<or> valid Reg_Block db2 r)"
    then show "fine (\<lambda>_ _. True) (rcu_add_test_reg r db2 \<bind> (\<lambda>(_, db). Some (r, db)))"
      using add_reg_fine [of db2 r] by (blast intro: fine_then)
  qed
  show ?thesis
  proof (cases name)
    case (Some s)
    show ?thesis unfolding rcu_get_reg_def Some
      by (simp only: option.distinct(2) if_False) (rule fine_init [OF assms], simp add: Let_def cre [unfolded Some])
  qed (simp add: rcu_get_reg_def assms)
qed

lemma add_test_mod_fine:
  assumes "db_ok db" "init_done db" "m = Null \<or> m \<noteq> Def_Mod \<and> valid Mod_Block db m \<and> dm_link (db_mod db m) = Self"
  shows "fine (\<lambda>_ _. True) (rcu_add_test_mod m db)"
proof -
  have "rcu_add_test_mod m db = rcu_add_mod_to_reg Def_Reg m db"
    using init_again [OF assms(2)] by (simp add: rcu_add_test_mod_def rcu_get_default_reg_def)
  then show ?thesis using add_mod_to_reg_fine [OF assms(1), of Def_Reg m] assms(3) by (auto elim: fine_mono)
qed

lemma get_mod_fine:
  assumes "db_ok db"
  shows "fine (\<lambda>_ _. True) (rcu_get_mod M name db)"
proof -
  have cre: "fine (\<lambda>_ _. True) (rcu_cre_test_mod M (Some s) None None db1 \<bind> (\<lambda>(m, db). rcu_add_test_mod m db \<bind> (\<lambda>(_, db). Some (m, db))))"
    if "db_ok db1" for s db1
  proof (rule fine_bind [OF cre_mod_fine [OF that]])
    fix m db2 assume "db_ok db2" "keeps db1 db2 \<and> (m = Null \<or> m \<noteq> Def_Mod \<and> valid Mod_Block db2 m \<and> dm_link (db_mod db2 m) = Self)"
    then have "fine (\<lambda>_ _. True) (rcu_add_test_mod m db2)" by (intro add_test_mod_fine) (auto simp: keeps_def)
    then show "fine (\<lambda>_ _. True) (rcu_add_test_mod m db2 \<bind> (\<lambda>(_, db). Some (m, db)))" by (rule fine_then) simp_all
  qed
  show ?thesis unfolding rcu_get_mod_def
    by (rule fine_init [OF assms]) (simp add: cre split: option.split prod.split)
qed

subsection \<open>Tests and tables\<close>

lemma add_func_cases:
  assumes "db_ok db" "init_done db" "m = Null \<or> valid Mod_Block db m"
  defines "md \<equiv> (if m = Null then Def_Mod else m)"
  obtains rc db' where "rcu_add_test_func M sp m entry i d name db = Some (rc, db')" "db_ok db'" "keeps db db'"
    "dm_funcs (db_mod db' md) = dm_funcs (db_mod db md)" "rc = RCU_E_NG"
  | a t db' where "rcu_add_test_func M sp m entry i d name db = Some (RCU_E_OK, db')" "db_ok db'" "keeps db db'"
    "db_block db a = None" "dm_funcs (db_mod db' md) = dm_funcs (db_mod db md) @ [Heap a]"
    "db_func db' = (db_func db)(Heap a := t)" "t = \<lparr>df_name = (case name of None \<Rightarrow> sp (the entry) | Some s \<Rightarrow> take RCU_TEST_FUNCTION_NAME_LENGTH s),
       df_entry = entry, df_init = i, df_destroy = d, df_in = md\<rparr>"
    "\<And>m'. m' \<noteq> md \<Longrightarrow> db_mod db' m' = db_mod db m'"
    "(db_mod db' md)\<lparr>dm_funcs := [], dm_nr_test := 0\<rparr> = (db_mod db md)\<lparr>dm_funcs := [], dm_nr_test := 0\<rparr>"
proof (cases entry)
  case None
  then show thesis using that(1) [of RCU_E_NG "set_ercd RCU_E_INVFUNCENTRY db"] assms init_again [OF assms(2)]
    by (simp add: rcu_add_test_func_def keeps_def)
next
  case (Some code)
  have v: "valid Mod_Block db md" using assms(3) by (auto simp: md_def)
  show thesis
  proof (cases rule: alloc_cases [of M Func_Block db])
    case 2
    then show thesis using that(1) [of RCU_E_NG "set_ercd RCU_E_NOMEM (db\<lparr>db_calls := db_calls db + 1\<rparr>)"] assms(1,2) v Some init_again [OF assms(2)]
      by (simp add: rcu_add_test_func_def rcu_alloc_test_func_def md_def [symmetric] keeps_def)
  next
    case (1 a)
    define t where "t = \<lparr>df_name = (case name of None \<Rightarrow> sp code | Some s \<Rightarrow> take RCU_TEST_FUNCTION_NAME_LENGTH s),
        df_entry = entry, df_init = i, df_destroy = d, df_in = md\<rparr>"
    define db' where "db' = upd_module md (\<lambda>x. x\<lparr>dm_funcs := dm_funcs x @ [Heap a], dm_nr_test := dm_nr_test x + 1\<rparr>)
      (upd_test (Heap a) (\<lambda>_. t) (db\<lparr>db_calls := db_calls db + 1, db_block := (db_block db)(a \<mapsto> Func_Block)\<rparr>))"
    have "core_ok db'" unfolding db'_def
      using core_new_func [of "db\<lparr>db_calls := db_calls db + 1\<rparr>" a md t] assms(1) v 1(2) by (simp add: db_ok_def t_def)
    moreover have "phase_ok db'" using assms(1) by (auto simp: db_ok_def phase_ok_def db'_def)
    moreover have "keeps db db'"
    proof -
      have "valid k db' q = (if q = Heap a then k = Func_Block else valid k db q)" for k q
        using 1(2) by (cases q) (auto simp: db'_def)
      then show ?thesis using assms(2) 1(2) by (auto simp: keeps_def db'_def)
    qed
    moreover have "rcu_add_test_func M sp m entry i d name db = Some (RCU_E_OK, db')"
      using 1 v Some init_again [OF assms(2)]
      by (simp add: rcu_add_test_func_def rcu_alloc_test_func_def md_def [symmetric] db'_def upd_twice comp_def t_def zero_func_def Let_def)
    moreover have "dm_funcs (db_mod db' md) = dm_funcs (db_mod db md) @ [Heap a]" "db_func db' = (db_func db)(Heap a := t)"
        "m' \<noteq> md \<Longrightarrow> db_mod db' m' = db_mod db m'"
        "(db_mod db' md)\<lparr>dm_funcs := [], dm_nr_test := 0\<rparr> = (db_mod db md)\<lparr>dm_funcs := [], dm_nr_test := 0\<rparr>" for m'
      by (simp_all add: db'_def)
    ultimately show thesis using 1(2) by (intro that(2) [of db' a t]) (simp_all add: db_ok_def t_def Some split: option.split)
  qed
qed

lemma add_func_fine:
  assumes "db_ok db" "m = Null \<or> valid Mod_Block db m"
  shows "fine (\<lambda>_ db'. keeps db db') (rcu_add_test_func M sp m entry i d name db)"
proof (rule after_init [OF assms(1)])
  fix db1 assume 1: "db_ok db1" "init_done db1" "grows db db1"
  have m: "m = Null \<or> valid Mod_Block db1 m" by (rule keeps_valid [OF grows_keeps [OF 1(3)] assms(2)])
  show "fine (\<lambda>_ db'. keeps db db') (rcu_add_test_func M sp m entry i d name db1)"
    by (rule add_func_cases [OF 1(1,2) m, of M sp entry i d name])
      (use keeps_trans [OF grows_keeps [OF 1(3)]] in simp_all)
qed (simp only: rcu_add_test_func_def init_idem)

lemma add_entries_ok:
  assumes "db_ok db" "init_done db" "m = Null \<or> valid Mod_Block db m"
  shows "\<exists>db'. add_func_entries M sp m tbl db = Some db' \<and> db_ok db' \<and> keeps db db'"
  using assms
proof (induction tbl arbitrary: db)
  case Nil
  then show ?case by (simp add: keeps_def)
next
  case (Cons c tbl)
  show ?case
  proof (cases "fe_entry c = None")
    case True
    then show ?thesis using Cons by simp
  next
    case False
    obtain rc db1 where 1: "rcu_add_test_func M sp m (fe_entry c) (fe_init c) (fe_destroy c) (Some (fe_name c)) db = Some (rc, db1)"
        "db_ok db1" "keeps db db1"
      using add_func_fine [OF Cons.prems(1,3)] unfolding fine_def by blast
    then have "m = Null \<or> valid Mod_Block db1 m" "init_done db1" using keeps_valid [OF 1(3) Cons.prems(3)] by (simp_all add: keeps_def)
    then obtain db' where "add_func_entries M sp m tbl db1 = Some db'" "db_ok db'" "keeps db1 db'" using Cons.IH [OF 1(2)] by blast
    then show ?thesis using False 1(1) keeps_trans [OF 1(3)] by simp
  qed
qed

lemma func_tbl_fine:
  assumes "db_ok db" "m = Null \<or> valid Mod_Block db m"
  shows "fine (\<lambda>_ db'. keeps db db') (rcu_add_test_func_tbl M sp m tbl db)"
proof (rule after_init [OF assms(1)])
  fix db1 assume 1: "db_ok db1" "init_done db1" "grows db db1"
  note k = grows_keeps [OF 1(3)]
  have m: "(if m = Null then Def_Mod else m) = Null \<or> valid Mod_Block db1 (if m = Null then Def_Mod else m)"
    using keeps_valid [OF k assms(2)] by auto
  show "fine (\<lambda>_ db'. keeps db db') (rcu_add_test_func_tbl M sp m tbl db1)"
  proof (cases tbl)
    case None
    then show ?thesis using 1 k init_again [OF 1(2)] by (simp add: rcu_add_test_func_tbl_def rcu_is_mach_initialized_def keeps_def)
  next
    case (Some t)
    then show ?thesis using add_entries_ok [OF 1(1,2) m, of M sp t] init_again [OF 1(2)] 1(2) keeps_trans [OF k]
      by (auto simp: rcu_add_test_func_tbl_def rcu_is_mach_initialized_def)
  qed
qed (simp only: rcu_add_test_func_tbl_def init_idem)

lemma mod_entries_ok:
  assumes "db_ok db" "init_done db" "r = Null \<or> valid Reg_Block db r"
  shows "\<exists>db'. add_mod_entries M sp r tbl db = Some db' \<and> db_ok db' \<and> keeps db db'"
  using assms
proof (induction tbl arbitrary: db)
  case Nil
  then show ?case by (simp add: keeps_def)
next
  case (Cons c tbl)
  have step: "\<exists>db'. add_mod_entries M sp r tbl db1 = Some db' \<and> db_ok db' \<and> keeps db db'" if "db_ok db1" "keeps db db1" for db1
  proof -
    have "init_done db1" "r = Null \<or> valid Reg_Block db1 r" using that(2) keeps_valid [OF that(2) Cons.prems(3)] by (simp_all add: keeps_def)
    then show ?thesis using Cons.IH [OF that(1)] keeps_trans [OF that(2)] by blast
  qed
  obtain m db1 where 1: "rcu_cre_test_mod M (Some (me_name c)) (me_init c) (me_destroy c) db = Some (m, db1)" "db_ok db1" "keeps db db1"
      "m = Null \<or> m \<noteq> Def_Mod \<and> valid Mod_Block db1 m \<and> dm_link (db_mod db1 m) = Self"
    using cre_mod_fine [OF Cons.prems(1)] unfolding fine_def by blast
  show ?case
  proof (cases "me_func_tbl c = None \<or> m = Null")
    case True
    then show ?thesis using step [OF Cons.prems(1)] step [OF 1(2,3)] Cons.prems(2) 1(1) by (auto simp: keeps_def)
  next
    case False
    have "r = Null \<or> valid Reg_Block db1 r" by (rule keeps_valid [OF 1(3) Cons.prems(3)])
    then obtain db2 where 2: "rcu_add_mod_to_reg r m db1 = Some (RCU_E_OK, db2)" "db_ok db2" "keeps db1 db2"
      using add_mod_to_reg_fine [OF 1(2), of r m] 1(4) False unfolding fine_def by blast
    have "m = Null \<or> valid Mod_Block db2 m" using keeps_valid [OF 2(3), of m Mod_Block] 1(4) by blast
    then obtain rc db3 where 3: "rcu_add_test_func_tbl M sp m (me_func_tbl c) db2 = Some (rc, db3)" "db_ok db3" "keeps db2 db3"
      using func_tbl_fine [OF 2(2)] unfolding fine_def by blast
    show ?thesis using step [OF 3(2) keeps_trans [OF 1(3) keeps_trans [OF 2(3) 3(3)]]] 1(1) 2(1) 3(1) False by auto
  qed
qed

lemma mod_tbl_fine:
  assumes "db_ok db" "r = Null \<or> valid Reg_Block db r"
  shows "fine (\<lambda>_ db'. keeps db db') (rcu_add_test_mod_tbl M sp r tbl db)"
proof (rule after_init [OF assms(1)])
  fix db1 assume 1: "db_ok db1" "init_done db1" "grows db db1"
  note k = grows_keeps [OF 1(3)]
  have r: "r = Null \<or> valid Reg_Block db1 r" by (rule keeps_valid [OF k assms(2)])
  show "fine (\<lambda>_ db'. keeps db db') (rcu_add_test_mod_tbl M sp r tbl db1)"
  proof (cases tbl)
    case None
    then show ?thesis using 1 k init_again [OF 1(2)] by (simp add: rcu_add_test_mod_tbl_def keeps_def)
  next
    case (Some t)
    then show ?thesis using mod_entries_ok [OF 1(1,2) r, of M sp t] init_again [OF 1(2)] keeps_trans [OF k]
      by (auto simp: rcu_add_test_mod_tbl_def)
  qed
qed (simp only: rcu_add_test_mod_tbl_def init_idem)

subsection \<open>Destroying\<close>

lemma destroy_mod_fine:
  assumes "db_ok db" "m = Null \<or> valid Mod_Block db m \<and> m \<noteq> Def_Mod"
  shows "fine (\<lambda>_ _. True) (rcu_destroy_test_mod m db)"
proof (rule after_init [OF assms(1)])
  fix db1 assume 1: "db_ok db1" "init_done db1" "grows db db1"
  show "fine (\<lambda>_ _. True) (rcu_destroy_test_mod m db1)"
  proof (cases "m = Null")
    case True
    then show ?thesis using 1(1) init_again [OF 1(2)] by (simp add: rcu_destroy_test_mod_def)
  next
    case False
    then have v: "valid Mod_Block db1 m" "m \<noteq> Def_Mod" using assms(2) keeps_valid [OF grows_keeps [OF 1(3)], of m Mod_Block] by auto
    have c: "core_ok db1" and ph: "phase_ok db1" using 1(1) by (simp_all add: db_ok_def)
    have "dm_link (db_mod db1 m) \<noteq> Stale" using c v by (cases m) (auto simp: core_ok_def heap_ok_def)
    then have e: "rcu_destroy_test_mod m db1 = Some (RCU_E_OK, dropped m db1)" using destroy_mod_eq [OF c 1(2) v(1)] v(2) by simp
    note d = dropped_fields [OF c v(1)]
    have "phase_ok (dropped m db1)" using ph 1(2) d(4) [of Def_Mod] v(2) by (simp add: phase_ok_def d(1,2,6,7))
    then show ?thesis using e core_dropped [OF c v(1)] by (simp add: db_ok_def)
  qed
qed (simp only: rcu_destroy_test_mod_def init_idem)

lemma destroy_reg_fine:
  assumes "db_ok db" "r = Null \<or> valid Reg_Block db r \<and> r \<noteq> Def_Reg"
  shows "fine (\<lambda>_ _. True) (rcu_destroy_test_reg r db)"
proof (rule after_init [OF assms(1)])
  fix db1 assume 1: "db_ok db1" "init_done db1" "grows db db1"
  show "fine (\<lambda>_ _. True) (rcu_destroy_test_reg r db1)"
  proof (cases "r = Null")
    case True
    then show ?thesis using 1(1) init_again [OF 1(2)] by (simp add: rcu_destroy_test_reg_def)
  next
    case False
    then have v: "valid Reg_Block db1 r" "r \<noteq> Def_Reg" using assms(2) keeps_valid [OF grows_keeps [OF 1(3)], of r Reg_Block] by auto
    have c: "core_ok db1" using 1(1) by (simp add: db_ok_def)
    have ph: "Def_Reg \<in> set (db_regs db1)" "dm_link (db_mod db1 Def_Mod) = In Def_Reg"
        "dr_name (db_reg db1 Def_Reg) = RCU_DEFAULT_REGISTRY_NAME" "dm_name (db_mod db1 Def_Mod) = RCU_DEFAULT_MODULE_NAME"
      using 1(1,2) by (simp_all add: db_ok_def phase_ok_def)
    have "\<not> dr_stale (db_reg db1 r)" using c v by (cases r) (auto simp: core_ok_def heap_ok_def)
    then obtain db2 where 2: "after_mods (dr_mods (db_reg db1 r)) db1 db2"
        "rcu_destroy_test_reg r db1 = Some (RCU_E_OK, dropped_reg r db2)" "core_ok (dropped_reg r db2)"
      using destroy_reg_spec [OF c 1(2) ph(4,3) v(1)] by blast
    have "Def_Mod \<notin> set (dr_mods (db_reg db1 r))" using mods_okD(1) [OF c v(1)] ph(2) v(2) by auto
    then have "db_mod db2 Def_Mod = db_mod db1 Def_Mod" using 2(1) unfolding after_mods_def by blast
    then have "phase_ok (dropped_reg r db2)"
      using ph v(2) 1(2) after_modsD(2,3) [OF 2(1)] after_modsD(6) [OF 2(1), of Def_Reg] by (simp add: phase_ok_def dropped_reg_fields)
    then show ?thesis using 2(2,3) by (simp add: db_ok_def)
  qed
qed (simp only: rcu_destroy_test_reg_def init_idem)

text \<open>The loop that destroys all registries. What it frees: the registries, their modules and the tests of these.\<close>

definition linked :: "dbase \<Rightarrow> ptr list \<Rightarrow> ptr set" where
  "linked db rs = set rs \<union> (\<Union>r \<in> set rs. set (dr_mods (db_reg db r)) \<union> (\<Union>m \<in> set (dr_mods (db_reg db r)). set (dm_funcs (db_mod db m))))"

lemma linked_after:
  assumes "after_mods (dr_mods (db_reg db r)) db db1" "\<forall>r' \<in> set rs. valid Reg_Block db r'"
  shows "Heap a \<in> linked db (r # rs) \<longleftrightarrow> Heap a = r \<or> Heap a \<in> set (dr_mods (db_reg db r)) \<or>
     (\<exists>m \<in> set (dr_mods (db_reg db r)). Heap a \<in> set (dm_funcs (db_mod db m))) \<or> Heap a \<in> linked (dropped_reg r db1) rs"
proof -
  let ?ms = "dr_mods (db_reg db r)"
  have m: "set (dr_mods (db_reg (dropped_reg r db1) r')) = set (dr_mods (db_reg db r')) - set ?ms" if "r' \<in> set rs" for r'
    using after_modsD(8) [OF assms(1)] assms(2) that by (auto simp: dropped_reg_fields(7))
  have f: "db_mod (dropped_reg r db1) m = db_mod db m" if "m \<notin> set ?ms" for m
    using after_modsD(10) [OF assms(1) that] by (simp add: dropped_reg_fields(3))
  have "Heap a \<in> set (dm_funcs (db_mod db m'))"
    if "m' \<in> set (dr_mods (db_reg (dropped_reg r db1) r'))" "r' \<in> set rs" "Heap a \<in> set (dm_funcs (db_mod (dropped_reg r db1) m'))" for r' m'
    using that m f by auto
  then show ?thesis unfolding linked_def using m f by (auto 0 4)
qed

lemma destroy_regs_spec:
  assumes "core_ok db" "init_done db" "dm_name (db_mod db Def_Mod) = RCU_DEFAULT_MODULE_NAME" "dr_name (db_reg db Def_Reg) = RCU_DEFAULT_REGISTRY_NAME"
    and "distinct rs" "set rs \<subseteq> set (db_regs db)"
  shows "\<exists>db'. destroy_regs rs db = Some db' \<and> core_ok db' \<and> db_regs db' = filter (\<lambda>r. r \<notin> set rs) (db_regs db) \<and>
     (dr_mods (db_reg db Def_Reg) = [] \<or> Def_Reg \<in> set rs \<longrightarrow> dr_mods (db_reg db' Def_Reg) = []) \<and>
     (\<forall>r. dm_link (db_mod db' Def_Mod) = In r \<longrightarrow> dm_link (db_mod db Def_Mod) = In r) \<and>
     (\<forall>a. db_block db' a = (if Heap a \<in> linked db rs then None else db_block db a))"
  using assms
proof (induction rs arbitrary: db)
  case (Cons r rs)
  have r: "valid Reg_Block db r" "r \<in> set (db_regs db)" using Cons.prems(1,6) by (auto simp: core_ok_def regs_ok_def)
  obtain db1 where 1: "after_mods (dr_mods (db_reg db r)) db db1" "dr_mods (db_reg db1 r) = []"
      "rcu_destroy_test_reg r db = Some (RCU_E_OK, dropped_reg r db1)" "core_ok (dropped_reg r db1)"
    using destroy_reg_spec [OF Cons.prems(1-4) r(1) disjI1 [OF r(2)]] by blast
  note a = after_modsD [OF 1(1)] and d = dropped_reg_fields
  have f: "removeAll r xs = filter (\<lambda>x. x \<noteq> r) xs" for xs by (induction xs) auto
  have "set rs \<subseteq> set (db_regs (dropped_reg r db1))" using Cons.prems(5,6) by (auto simp: d(1) a(3))
  then obtain db' where 2: "destroy_regs rs (dropped_reg r db1) = Some db'" "core_ok db'"
      "db_regs db' = filter (\<lambda>x. x \<notin> set rs) (removeAll r (db_regs db))"
      "dr_mods (db_reg (dropped_reg r db1) Def_Reg) = [] \<or> Def_Reg \<in> set rs \<longrightarrow> dr_mods (db_reg db' Def_Reg) = []"
      "\<forall>q. dm_link (db_mod db' Def_Mod) = In q \<longrightarrow> dm_link (db_mod db1 Def_Mod) = In q"
      "\<forall>a. db_block db' a = (if Heap a \<in> linked (dropped_reg r db1) rs then None else db_block (dropped_reg r db1) a)"
    using Cons.IH [OF 1(4)] Cons.prems(2-5) by (auto simp: d(1,2,3) d(6) a(2,3) a(5,6))
  have "dr_mods (db_reg (dropped_reg r db1) Def_Reg) = []" if "dr_mods (db_reg db Def_Reg) = [] \<or> Def_Reg = r"
    using that a(8) [of Def_Reg] 1(2) by (auto simp: d(7))
  moreover have "filter (\<lambda>x. x \<notin> set rs) (removeAll r xs) = filter (\<lambda>x. x \<notin> set (r # rs)) xs" for xs
    by (simp add: f conj_commute)
  moreover have "\<forall>r' \<in> set rs. valid Reg_Block db r'" using Cons.prems(1,6) by (auto simp: core_ok_def regs_ok_def)
  then have "\<forall>b. db_block db' b = (if Heap b \<in> linked db (r # rs) then None else db_block db b)"
    using 2(6) by (simp add: linked_after [OF 1(1)] dropped_reg_block a(11))
  ultimately show ?case using 1(3) 2(1-5) a(9) by auto
qed (simp add: linked_def)

lemma destroy_releases:
  assumes "db_ok db"
  shows "\<exists>db'. rcu_destroy db = Some db' \<and> db_ok db' \<and> \<not> init_done db' \<and> db_regs db' = [] \<and>
     (\<forall>a. db_block db' a = (if Heap a \<in> linked db (db_regs db) then None else db_block db a))"
proof (cases "init_done db")
  case False
  then show ?thesis using assms by (simp add: rcu_destroy_def rcu_is_mach_initialized_def db_ok_def phase_ok_def linked_def)
next
  case True
  have c: "core_ok db" using assms by (simp add: db_ok_def)
  have ph: "Def_Reg \<in> set (db_regs db)" "dm_link (db_mod db Def_Mod) = In Def_Reg"
      "dr_name (db_reg db Def_Reg) = RCU_DEFAULT_REGISTRY_NAME" "dm_name (db_mod db Def_Mod) = RCU_DEFAULT_MODULE_NAME"
    using assms True by (simp_all add: db_ok_def phase_ok_def)
  have "distinct (db_regs db)" using c by (simp add: core_ok_def regs_ok_def)
  then obtain db' where d: "destroy_regs (db_regs db) db = Some db'" "core_ok db'" "db_regs db' = []" "dr_mods (db_reg db' Def_Reg) = []"
      "\<forall>r. dm_link (db_mod db' Def_Mod) = In r \<longrightarrow> r = Def_Reg"
      "\<forall>a. db_block db' a = (if Heap a \<in> linked db (db_regs db) then None else db_block db a)"
    using destroy_regs_spec [OF c True ph(4,3)] ph(1,2) by fastforce
  have "dm_link (db_mod db' Def_Mod) \<noteq> In Def_Reg" using mods_okD(2) [OF d(2), of Def_Mod Def_Reg] d(4) by auto
  then have "db_ok (db'\<lparr>init_done := False\<rparr>)" using d(2-5) by (auto simp: db_ok_def phase_ok_def core_defs)
  then show ?thesis using True d(1,3,6)
    by (simp add: rcu_destroy_def rcu_is_mach_initialized_def rcu_destroy_test_mach_def rcu_destroy_test_dbase_def)
qed

lemma destroy_ok: "db_ok db \<Longrightarrow> \<exists>db'. rcu_destroy db = Some db' \<and> db_ok db'"
  using destroy_releases by blast

end
