(* ===== verification/Rcu_Dbase_Props.thy ===== *)
theory Rcu_Dbase_Props
  imports Rcu_Dbase_Inv
begin

text \<open>
  What the test database guarantees to a test program, and how it hands its contents to the runner: the
  machine that \<open>Rcu_Run\<close> runs is the view of the database in which every pointer is replaced by what it points to.
\<close>

section \<open>The view of the runner\<close>

text \<open>\<open>code\<close> says what the functions of the program do.\<close>

definition test_view :: "(nat \<Rightarrow> body) \<Rightarrow> db_test \<Rightarrow> rcu_test" where
  "test_view code t = \<lparr>t_name = df_name t, t_entry = code (the (df_entry t)), t_init = map_option code (df_init t),
     t_destroy = map_option code (df_destroy t), t_run_stat = RCU_RUN_STAT_NOTTESTED, t_init_failed = False,
     t_destroy_failed = False, nr_fail_assert = 0, nr_succ_assert = 0, t_fail_recs = []\<rparr>"

definition mod_view :: "(nat \<Rightarrow> body) \<Rightarrow> dbase \<Rightarrow> ptr \<Rightarrow> rcu_module" where
  "mod_view code db m = \<lparr>m_name = dm_name (db_mod db m), m_init = map_option code (dm_init (db_mod db m)),
     m_destroy = map_option code (dm_destroy (db_mod db m)),
     func_list = map (\<lambda>p. test_view code (db_func db p)) (dm_funcs (db_mod db m)), m_nr_test = dm_nr_test (db_mod db m),
     m_nr_failed_test = 0, m_nr_succ_test = 0, m_run_stat = RCU_RUN_STAT_NOTTESTED, m_init_failed = False, m_destroy_failed = False, m_fail_recs = []\<rparr>"

definition reg_view :: "(nat \<Rightarrow> body) \<Rightarrow> dbase \<Rightarrow> ptr \<Rightarrow> rcu_registry" where
  "reg_view code db r = \<lparr>r_name = dr_name (db_reg db r), mod_list = map (mod_view code db) (dr_mods (db_reg db r)), nr_mod = dr_nr_mod (db_reg db r),
     nr_failed_mod = 0, nr_succ_mod = 0\<rparr>"

text \<open>
  The counters are those of a machine on which nothing has run since it was initialised. (They are not reset at the start of
  \<open>rcu_run_tests\<close>, so what \<open>rcu_run_test_mod\<close> counted before it would be counted again.)
\<close>

definition machine_view :: "(nat \<Rightarrow> body) \<Rightarrow> bool \<Rightarrow> dbase \<Rightarrow> rcu_test_machine" where
  "machine_view code hook db = \<lparr>reg_list = map (reg_view code db) (db_regs db), ctx = RCU_RUN_CTX_UNKNOWN,
     level = RCU_RUN_LEVEL_MACH, has_run_hook = hook, hook_log = [], assert_list = [], has_assert_hook = False, assert_log = [],
     nr_failed_reg = 0, nr_succ_reg = 0, nr_failed_test = 0, nr_succ_test = 0\<rparr>"

section \<open>Reachable states\<close>

lemma exec_ok:
  assumes "db_ok db" "args_ok db cmd"
  shows "\<exists>db'. db_exec M sp cmd db = Some db' \<and> db_ok db'"
proof (cases cmd)
  case (Set_Fxt m i d)
  have "core_ok (upd_module m (\<lambda>x. x\<lparr>dm_init := i, dm_destroy := d\<rparr>) db)" "phase_ok (upd_module m (\<lambda>x. x\<lparr>dm_init := i, dm_destroy := d\<rparr>) db)"
    using assms(1) by (auto simp: db_ok_def core_ok_def regs_ok_def mods_ok_def funcs_ok_def heap_ok_def phase_ok_def)
  then show ?thesis using assms(2) Set_Fxt by (simp add: rcu_set_mod_fxt_def db_ok_def)
next
  case (Add_Test_Fxt_To_Mod m t i d)
  obtain db1 where "rcu_init db = Some db1" "db_ok db1" using init_spec [OF assms(1)] by blast
  then show ?thesis using fine_snd [OF add_func_fine [of db1 Def_Mod]] Add_Test_Fxt_To_Mod
    by (simp add: rcu_add_test_fxt_to_mod_def rcu_get_default_mod_def)
next
  case Init
  then show ?thesis using init_spec [OF assms(1)] by auto
next
  case Destroy
  then show ?thesis using destroy_ok [OF assms(1)] by simp
next
  case (Get_Reg n)
  show ?thesis unfolding Get_Reg db_exec.simps by (rule fine_snd [OF get_reg_fine [OF assms(1)]])
next
  case (Get_Mod n)
  show ?thesis unfolding Get_Mod db_exec.simps by (rule fine_snd [OF get_mod_fine [OF assms(1)]])
next
  case (Cre_Reg n)
  show ?thesis unfolding Cre_Reg db_exec.simps by (rule fine_snd [OF cre_reg_fine [OF assms(1)]])
next
  case (Cre_Mod n i d)
  show ?thesis unfolding Cre_Mod db_exec.simps by (rule fine_snd [OF cre_mod_fine [OF assms(1)]])
next
  case (Add_Reg r)
  show ?thesis using assms(2) unfolding Add_Reg db_exec.simps args_ok.simps by (intro fine_snd [OF add_reg_fine [OF assms(1)]]) auto
next
  case (Add_Mod r m)
  show ?thesis using assms(2) unfolding Add_Mod db_exec.simps args_ok.simps by (intro fine_snd [OF add_mod_to_reg_fine [OF assms(1)]]) auto
next
  case (Add_Test m t i d n)
  show ?thesis using assms(2) unfolding Add_Test db_exec.simps args_ok.simps by (intro fine_snd [OF add_func_fine [OF assms(1)]]) auto
next
  case (Add_Func_Tbl m t)
  show ?thesis using assms(2) unfolding Add_Func_Tbl db_exec.simps args_ok.simps by (intro fine_snd [OF func_tbl_fine [OF assms(1)]]) auto
next
  case (Add_Mod_Tbl r t)
  show ?thesis using assms(2) unfolding Add_Mod_Tbl db_exec.simps args_ok.simps by (intro fine_snd [OF mod_tbl_fine [OF assms(1)]]) auto
next
  case (Destroy_Mod m)
  show ?thesis using assms(2) unfolding Destroy_Mod db_exec.simps args_ok.simps by (intro fine_snd [OF destroy_mod_fine [OF assms(1)]]) auto
next
  case (Destroy_Reg r)
  show ?thesis using assms(2) unfolding Destroy_Reg db_exec.simps args_ok.simps by (intro fine_snd [OF destroy_reg_fine [OF assms(1)]]) auto
qed

lemma start_ok: "db_ok db_start"
  by (auto simp: db_ok_def phase_ok_def core_ok_def regs_ok_def mods_ok_def funcs_ok_def heap_ok_def db_start_def zero_reg_def zero_mod_def
      elim: valid.elims)

lemma reach_ok: "db_reach M sp db \<Longrightarrow> db_ok db"
proof (induction rule: db_reach.induct)
  case (step db cmd db')
  then show ?case using exec_ok [OF step.IH step.hyps(2), of M sp] by simp
qed (rule start_ok)

section \<open>Look-up\<close>

lemma srch_reg_unique:
  assumes "db_ok db" "r \<in> set (db_regs db)" "dr_name (db_reg db r) = n"
  shows "rcu_srch_reg_by_name db (Some n) = r"
proof -
  obtain q where q: "find (\<lambda>r. n = dr_name (db_reg db r)) (db_regs db) = Some q"
    using assms(2,3) by (cases "find (\<lambda>r. n = dr_name (db_reg db r)) (db_regs db)") (auto simp: find_None_iff)
  then have "q \<in> set (db_regs db)" "dr_name (db_reg db q) = n" by (auto simp: find_Some_iff)
  then have "q = r" using assms by (auto simp: db_ok_def core_ok_def regs_ok_def distinct_map dest: inj_onD)
  then show ?thesis using q by (simp add: rcu_srch_reg_by_name_def found_def)
qed

lemma srch_reg_found:
  assumes "rcu_srch_reg_by_name db (Some n) = r" "r \<noteq> Null"
  shows "r \<in> set (db_regs db)" "dr_name (db_reg db r) = n"
  using assms by (auto simp: rcu_srch_reg_by_name_def found_def find_Some_iff split: option.splits)

lemma get_reg_new:
  assumes "db_ok db" "init_done db" "rcu_srch_reg_by_name db (Some n) = Null" "rcu_get_reg M (Some n) db = Some (r, db')" "r \<noteq> Null"
  obtains a where "r = Heap a" "db_block db a = None" "n \<noteq> RCU_DEFAULT_REGISTRY_NAME"
    "map_option snd (add_test_reg (Heap a) (new_reg a n db)) = Some db'"
proof (cases rule: cre_reg_cases [OF assms(1,2), of M "Some n"])
  case (1 db1)
  then show thesis using assms(3-5) init_again [OF assms(2)] by (auto simp: rcu_get_reg_def split: bind_splits)
next
  case (2 a s)
  have "init_done (new_reg a n db)" using assms(2) by (simp add: new_reg_def)
  then show thesis using that [of a] 2 assms(3,4) init_again [OF assms(2)] init_again [of "new_reg a n db"]
    by (auto simp: rcu_get_reg_def rcu_add_test_reg_def split: bind_splits)
qed

lemma new_reg_fields:
  "db_regs (new_reg a n db) = db_regs db" "dr_name (db_reg (new_reg a n db) (Heap a)) = take RCU_TEST_REGISTRY_NAME_LENGTH n"
  "r \<noteq> Heap a \<Longrightarrow> db_reg (new_reg a n db) r = db_reg db r" "init_done (new_reg a n db) = init_done db"
  by (simp_all add: new_reg_def)

lemma srch_new_reg:
  assumes "db_ok db" "db_block db a = None"
  shows "rcu_srch_reg_by_name (new_reg a n db) x = rcu_srch_reg_by_name db x"
proof -
  have "r \<in> set (db_regs db) \<Longrightarrow> db_reg (new_reg a n db) r = db_reg db r" for r
    using fresh_block(2) [of db a] assms new_reg_fields(3) by (metis db_ok_def)
  then show ?thesis by (auto simp: rcu_srch_reg_by_name_def new_reg_fields(1) cong: find_cong split: option.split)
qed

lemma get_reg_fresh:
  assumes "db_ok db" "init_done db" "length n \<le> RCU_TEST_REGISTRY_NAME_LENGTH" "rcu_srch_reg_by_name db (Some n) = Null"
    and "rcu_get_reg M (Some n) db = Some (r, db')" "r \<noteq> Null"
  shows "r \<in> set (db_regs db') \<and> dr_name (db_reg db' r) = n \<and> db_ok db' \<and> init_done db'"
proof -
  obtain a where a: "r = Heap a" "db_block db a = None" "n \<noteq> RCU_DEFAULT_REGISTRY_NAME"
      "map_option snd (add_test_reg (Heap a) (new_reg a n db)) = Some db'"
    using get_reg_new [OF assms(1,2,4,5,6)] by metis
  note n = new_reg_ok [OF assms(1,2) a(2,3)]
  have u: "Heap a \<notin> set (db_regs db)" using fresh_block(2) assms(1) a(2) by (simp add: db_ok_def)
  have t: "take RCU_TEST_REGISTRY_NAME_LENGTH n = n" using assms(3) by simp
  have "add_test_reg (Heap a) (new_reg a n db) = Some (RCU_E_OK, upd_reg (Heap a) (\<lambda>x. x\<lparr>dr_stale := False\<rparr>)
      ((new_reg a n db)\<lparr>db_regs := db_regs db @ [Heap a], nr_reg := nr_reg (new_reg a n db) + 1\<rparr>))"
    using u n(3) assms(2,4) srch_new_reg [OF assms(1) a(2)]
    by (simp add: add_test_reg_def rcu_reg_exists_def new_reg_fields t del: valid.simps)
  then have d: "db' = upd_reg (Heap a) (\<lambda>x. x\<lparr>dr_stale := False\<rparr>)
      ((new_reg a n db)\<lparr>db_regs := db_regs db @ [Heap a], nr_reg := nr_reg (new_reg a n db) + 1\<rparr>)" using a(4) by simp
  have "db_ok db'" using add_test_reg_fine [OF n(1), of "Heap a"] n(3) a(4) assms(2) by (auto simp: fine_def new_reg_fields simp del: valid.simps)
  then show ?thesis using a(1) assms(2) by (simp add: d new_reg_fields t)
qed

section \<open>Tables\<close>

text \<open>The tests an entry of a table stands for.\<close>

definition entry_test :: "ptr \<Rightarrow> rcu_test_function_entry \<Rightarrow> db_test" where
  "entry_test m c = \<lparr>df_name = take RCU_TEST_FUNCTION_NAME_LENGTH (fe_name c), df_entry = fe_entry c, df_init = fe_init c,
     df_destroy = fe_destroy c, df_in = m\<rparr>"

definition db_tests :: "dbase \<Rightarrow> ptr \<Rightarrow> db_test list" where
  "db_tests db m = map (db_func db) (dm_funcs (db_mod db m))"

text \<open>\<open>plenty M db\<close>: no allocation from here on fails.\<close>

definition plenty :: "(nat \<Rightarrow> nat option) \<Rightarrow> dbase \<Rightarrow> bool" where
  "plenty M db \<longleftrightarrow> (\<forall>n\<ge>db_calls db. \<exists>a. M n = Some a \<and> db_block db a = None) \<and> inj_on M {db_calls db..}"

lemma plenty_add:
  assumes "plenty M db" "init_done db" "valid Mod_Block db m"
  shows "\<exists>db'. rcu_add_test_func M sp m (Some c) i d name db = Some (RCU_E_OK, db') \<and> plenty M db'"
proof -
  obtain a where a: "M (db_calls db) = Some a" "db_block db a = None" using assms(1) by (auto simp: plenty_def)
  have al: "alloc M Func_Block db = (Heap a, db\<lparr>db_calls := db_calls db + 1, db_block := (db_block db)(a \<mapsto> Func_Block)\<rparr>)"
    using a by (simp add: alloc_def)
  have m: "m \<noteq> Null" using assms(3) by auto
  have n: "M n \<noteq> Some a" if "n > db_calls db" for n
    using inj_onD [of M "{db_calls db..}" n "db_calls db"] assms(1) a(1) that by (auto simp: plenty_def)
  have "plenty M db'" if "db_calls db' = db_calls db + 1" "db_block db' = (db_block db)(a \<mapsto> Func_Block)" for db'
  proof -
    have "\<exists>b. M k = Some b \<and> db_block db' b = None" if "k \<ge> db_calls db + 1" for k
      using assms(1) n [of k] that \<open>db_block db' = _\<close> unfolding plenty_def by (metis Suc_eq_plus1 Suc_leD Suc_le_lessD fun_upd_apply)
    moreover have "inj_on M {db_calls db + 1..}" using assms(1) unfolding plenty_def by (auto intro: inj_on_subset)
    ultimately show ?thesis using that by (simp add: plenty_def)
  qed
  then show ?thesis using assms(2,3) m init_again [OF assms(2)]
    by (simp add: rcu_add_test_func_def rcu_alloc_test_func_def al Let_def upd_module_def upd_test_def)
qed

lemma entries_added:
  assumes "db_ok db" "init_done db" "valid Mod_Block db m" "plenty M db"
  shows "\<exists>db'. add_func_entries M sp m tbl db = Some db' \<and>
     db_tests db' m = db_tests db m @ map (entry_test m) (filter (\<lambda>c. fe_entry c \<noteq> None) tbl) \<and>
     (db_mod db' m)\<lparr>dm_funcs := [], dm_nr_test := 0\<rparr> = (db_mod db m)\<lparr>dm_funcs := [], dm_nr_test := 0\<rparr>"
  using assms
proof (induction tbl arbitrary: db)
  case (Cons c tbl)
  show ?case
  proof (cases "fe_entry c")
    case None
    then show ?thesis using Cons by simp
  next
    case (Some f)
    have m: "m \<noteq> Null" using Cons.prems(3) by auto
    obtain db1 where 1: "rcu_add_test_func M sp m (fe_entry c) (fe_init c) (fe_destroy c) (Some (fe_name c)) db = Some (RCU_E_OK, db1)" "plenty M db1"
      using plenty_add [OF Cons.prems(4,2,3)] Some by metis
    have "db_ok db1 \<and> keeps db db1 \<and> db_tests db1 m = db_tests db m @ [entry_test m c] \<and>
        (db_mod db1 m)\<lparr>dm_funcs := [], dm_nr_test := 0\<rparr> = (db_mod db m)\<lparr>dm_funcs := [], dm_nr_test := 0\<rparr>"
    proof (cases rule: add_func_cases [OF Cons.prems(1,2) disjI2 [OF Cons.prems(3)], of M sp "fe_entry c" "fe_init c" "fe_destroy c" "Some (fe_name c)"])
      case (2 a t db')
      have "Heap a \<notin> set (dm_funcs (db_mod db m))" using fresh_block(4) Cons.prems(1,3) 2(4) by (simp add: db_ok_def)
      then show ?thesis using 2 1 m by (auto simp: db_tests_def entry_test_def)
    qed (use 1 in simp)
    moreover from this have "valid Mod_Block db1 m" "init_done db1" using Cons.prems(3) by (simp_all add: keeps_def)
    ultimately show ?thesis using Cons.IH [of db1] 1 Some by auto
  qed
qed simp

lemma view_tests:
  "func_list (mod_view code db m) = map (test_view code) (db_tests db m)"
  by (simp add: mod_view_def db_tests_def)

lemma view_fixtures:
  assumes "(db_mod db' m)\<lparr>dm_funcs := [], dm_nr_test := 0\<rparr> = (db_mod db m)\<lparr>dm_funcs := [], dm_nr_test := 0\<rparr>"
  shows "m_init (mod_view code db' m) = m_init (mod_view code db m)" "m_destroy (mod_view code db' m) = m_destroy (mod_view code db m)"
  using assms by (cases "db_mod db m", cases "db_mod db' m", simp add: mod_view_def)+

section \<open>Properties\<close>

text \<open>A small program to look at: it asks for a registry, and the default module gets a table of three entries.\<close>

lemmas db_run = rcu_get_reg_def rcu_init_def rcu_is_mach_initialized_def rcu_init_test_mach_def db_start_def rcu_init_reg_def
  rcu_init_mod_def add_test_reg_def add_mod_to_reg_def rcu_add_test_reg_def rcu_cre_test_reg_def rcu_alloc_reg_def alloc_def
  rcu_srch_reg_by_name_def rcu_reg_exists_def rcu_srch_mod_by_name_def rcu_mod_exists_def found_def Let_def
  upd_reg_def upd_module_def zero_reg_def zero_mod_def set_ercd_def RCU_DEFAULT_REGISTRY_NAME_def RCU_DEFAULT_MODULE_NAME_def
  RCU_TEST_REGISTRY_NAME_LENGTH_def RCU_TEST_MODULE_NAME_LENGTH_def

lemma sample_get_reg:
  "\<exists>db. rcu_get_reg Some (Some ''r'') db_start = Some (Heap 0, db) \<and> valid Reg_Block db (Heap 0)"
  by (simp add: db_run)

definition sample_code :: "nat \<Rightarrow> body" where
  "sample_code n = [Assert (n = 1) ''t'' ''a'']"

definition sample_tbl :: "rcu_test_function_entry list" where
  "sample_tbl = map (\<lambda>f. \<lparr>fe_name = ''t'', fe_entry = f, fe_init = None, fe_destroy = None\<rparr>) [Some 1, None, Some 2]"

lemma sample_init:
  "\<exists>db. rcu_init db_start = Some db \<and> init_done db \<and> db_tests db Def_Mod = [] \<and> plenty Some db \<and>
     m_init (mod_view code db Def_Mod) = None \<and> m_destroy (mod_view code db Def_Mod) = None"
  by (simp add: db_run db_tests_def plenty_def mod_view_def)

text \<open>C14. The test database never breaks: whatever a test program calls, in any order and whichever allocations
  fail, as long as it passes pointers to live modules and registries and links no module twice, every call is free of
  undefined behaviour (no freed or null pointer is used, nothing is freed twice, no list is corrupted), and the
  lists of registries, modules and tests stay consistent with the back links, the names and the heap.\<close>

theorem dbase_invariant:
  assumes "db_reach M sp db"
  shows "db_ok db \<and> (args_ok db cmd \<longrightarrow> (\<exists>db'. db_exec M sp cmd db = Some db' \<and> db_ok db'))"
  using reach_ok [OF assms] exec_ok by blast

theorem dbase_invariant_witness:
  "\<exists>db db'. db_exec Some (\<lambda>_. ''0x1'') (Get_Reg (Some ''r'')) db_start = Some db \<and>
     db_exec Some (\<lambda>_. ''0x1'') (Destroy_Reg (Heap 0)) db = Some db' \<and> db_ok db'"
proof -
  obtain db where db: "db_exec Some (\<lambda>_. ''0x1'') (Get_Reg (Some ''r'')) db_start = Some db" "args_ok db (Destroy_Reg (Heap 0))"
    using sample_get_reg by auto
  have "db_reach Some (\<lambda>_. ''0x1'') db" by (rule db_reach.step [OF db_reach.start _ db(1)]) simp
  from dbase_invariant [OF this, of "Destroy_Reg (Heap 0)"] db show ?thesis by blast
qed

text \<open>Asking twice for a registry gives the same registry: when \<open>rcu_get_reg\<close> returns a registry for a name of
  at most 255 characters, that registry is in the machine under exactly this name, and every later call with
  the same name returns it and leaves the database as it is.\<close>

theorem get_reg_stable:
  assumes "db_ok db" "length n \<le> RCU_TEST_REGISTRY_NAME_LENGTH" "rcu_get_reg M (Some n) db = Some (r, db')" "r \<noteq> Null"
  shows "r \<in> set (db_regs db') \<and> dr_name (db_reg db' r) = n \<and> rcu_get_reg M' (Some n) db' = Some (r, db')"
proof -
  obtain db1 where 1: "rcu_init db = Some db1" "db_ok db1" "init_done db1" using init_spec [OF assms(1)] by (auto simp: grows_def)
  have g: "rcu_get_reg M (Some n) db1 = Some (r, db')"
    using assms(3) 1(1) init_again [OF 1(3)] by (simp add: rcu_get_reg_def)
  have *: "r \<in> set (db_regs db') \<and> dr_name (db_reg db' r) = n \<and> db_ok db' \<and> init_done db'"
  proof (cases "rcu_srch_reg_by_name db1 (Some n) = Null")
    case True
    then show ?thesis using get_reg_fresh [OF 1(2,3) assms(2) _ g assms(4)] by blast
  next
    case False
    then have "r = rcu_srch_reg_by_name db1 (Some n)" "db' = db1" using g init_again [OF 1(3)] by (auto simp: rcu_get_reg_def Let_def)
    then show ?thesis using srch_reg_found [of db1 n r] False 1 by auto
  qed
  then have "rcu_srch_reg_by_name db' (Some n) = r" using srch_reg_unique by blast
  then show ?thesis using * assms(4) init_again [of db'] by (simp add: rcu_get_reg_def)
qed

theorem get_reg_stable_witness:
  "\<exists>db. rcu_get_reg Some (Some ''r'') db_start = Some (Heap 0, db) \<and> rcu_get_reg (\<lambda>_. None) (Some ''r'') db = Some (Heap 0, db)"
proof -
  obtain db where db: "rcu_get_reg Some (Some ''r'') db_start = Some (Heap 0, db)" using sample_get_reg by blast
  then show ?thesis using get_reg_stable [OF start_ok _ db, of "\<lambda>_. None"] by (simp add: RCU_TEST_REGISTRY_NAME_LENGTH_def)
qed

text \<open>C20. A table is what runs: after \<open>rcu_add_test_func_tbl\<close> with a module whose setup and teardown, if any, run clean,
  and enough memory, running that module executes the tests it had before and then the entries of the table that have a function, in the order
  of the table; the verdict of each is that of its own functions and the counts are those of the verdicts.\<close>

theorem table_tests_run:
  assumes "db_ok db" "init_done db" "valid Mod_Block db m" "plenty M db"
    and "rcu_add_test_func_tbl M sp m (Some tbl) db = Some (rc, db')"
    and "level (mach e) = RCU_RUN_LEVEL_MOD" "curr_mod e = mod_view code db' m"
    and "list_all (\<lambda>h. case h of None \<Rightarrow> True | Some b \<Rightarrow> clean b) [m_init (mod_view code db m), m_destroy (mod_view code db m)]"
    and "rcu_run_test_mod_impl mem e = (r, e')"
  defines "ts \<equiv> map (test_view code) (db_tests db m @ map (entry_test m) (filter (\<lambda>c. fe_entry c \<noteq> None) tbl))"
  shows "rc = RCU_E_OK \<and> r = RCU_E_OK \<and> m_nr_succ_test (curr_mod e') = int (length (filter passes ts)) \<and>
     map t_run_stat (func_list (curr_mod e')) = map (\<lambda>t. if passes t then RCU_RUN_STAT_TEST_SUCC else RCU_RUN_STAT_TEST_FAILED) ts"
proof -
  obtain db2 where 2: "add_func_entries M sp m tbl db = Some db2"
      "db_tests db2 m = db_tests db m @ map (entry_test m) (filter (\<lambda>c. fe_entry c \<noteq> None) tbl)"
      "(db_mod db2 m)\<lparr>dm_funcs := [], dm_nr_test := 0\<rparr> = (db_mod db m)\<lparr>dm_funcs := [], dm_nr_test := 0\<rparr>"
    using entries_added [OF assms(1-4)] by blast
  have m: "m \<noteq> Null" using assms(3) by auto
  have d: "db' = db2" "rc = RCU_E_OK"
    using assms(2,5) 2(1) m init_again [OF assms(2)] by (simp_all add: rcu_add_test_func_tbl_def rcu_is_mach_initialized_def)
  have fs: "func_list (curr_mod e) = ts" using assms(7) 2(2) by (simp add: d view_tests ts_def)
  have f: "case m_init (curr_mod e) of None \<Rightarrow> True | Some b \<Rightarrow> clean b" "case m_destroy (curr_mod e) of None \<Rightarrow> True | Some b \<Rightarrow> clean b"
    using assms(7,8) view_fixtures [OF 2(3)] by (simp_all add: d)
  have "list_all (\<lambda>f. \<not> t_init_failed f \<and> \<not> t_destroy_failed f) (func_list (curr_mod e))"
    unfolding fs by (auto simp: ts_def list_all_iff test_view_def)
  then show ?thesis using mod_impl_tally [OF assms(6) f _ assms(9)] d(2) fs by simp
qed

theorem table_tests_run_witness:
  "\<exists>db db'. rcu_init db_start = Some db \<and> rcu_add_test_func_tbl Some (\<lambda>_. ''0x1'') Def_Mod (Some sample_tbl) db = Some (RCU_E_OK, db') \<and>
     map t_run_stat (func_list (curr_mod (snd (rcu_run_test_mod_impl True
       ((sample_engine RCU_RUN_LEVEL_MOD None)\<lparr>curr_mod := mod_view sample_code db' Def_Mod\<rparr>))))) =
     [RCU_RUN_STAT_TEST_SUCC, RCU_RUN_STAT_TEST_FAILED]"
proof -
  obtain db where db: "rcu_init db_start = Some db" "init_done db" "db_tests db Def_Mod = []" "plenty Some db"
      "m_init (mod_view sample_code db Def_Mod) = None" "m_destroy (mod_view sample_code db Def_Mod) = None"
    using sample_init by blast
  have ok: "db_ok db" using init_spec [OF start_ok] db(1) by auto
  have v: "valid Mod_Block db Def_Mod" by simp
  obtain rc db' where a: "rcu_add_test_func_tbl Some (\<lambda>_. ''0x1'') Def_Mod (Some sample_tbl) db = Some (rc, db')"
    using func_tbl_fine [OF ok disjI2 [OF v]] unfolding fine_def by blast
  show ?thesis
    using table_tests_run [OF ok db(2) v db(4) a _ _ _ prod.collapse [symmetric],
        of "(sample_engine RCU_RUN_LEVEL_MOD None)\<lparr>curr_mod := mod_view sample_code db' Def_Mod\<rparr>" sample_code True] a db
    by (simp add: sample_engine_def sample_tbl_def entry_test_def test_view_def sample_code_def passes_def)
qed

text \<open>A registry whose name is longer than 255 characters is created anew by every \<open>rcu_get_reg\<close>: once the shortened
  name is taken, the caller gets a registry that is not in the machine, and its tests are never run.\<close>

theorem long_reg_name_lost:
  assumes "db_ok db" "init_done db" "rcu_srch_reg_by_name db (Some n) = Null"
    and "rcu_srch_reg_by_name db (Some (take RCU_TEST_REGISTRY_NAME_LENGTH n)) \<noteq> Null"
    and "rcu_get_reg M (Some n) db = Some (r, db')" "r \<noteq> Null"
  shows "r \<notin> set (db_regs db') \<and> db_regs db' = db_regs db"
proof -
  obtain a where a: "r = Heap a" "db_block db a = None" "map_option snd (add_test_reg (Heap a) (new_reg a n db)) = Some db'"
    using get_reg_new [OF assms(1,2,3,5,6)] by metis
  have "Heap a \<notin> set (db_regs db)" using fresh_block(2) assms(1) a(2) by (simp add: db_ok_def)
  moreover have "valid Reg_Block (new_reg a n db) (Heap a)" by (simp add: new_reg_def)
  ultimately show ?thesis using a(1,3) assms(2,4) srch_new_reg [OF assms(1) a(2)]
    by (auto simp: add_test_reg_def rcu_reg_exists_def new_reg_fields set_ercd_def Let_def simp del: valid.simps split: if_splits)
qed

end
