(* ===== verification/Rcu_Exception.thy ===== *)
theory Rcu_Exception
  imports Rcu_Run
begin

text \<open>
  The exception mechanism of the test framework: the macros \<open>RCU_TRY\<close>, \<open>RCU_CATCH\<close>, \<open>RCU_END_CATCH\<close> and \<open>RCU_THROW\<close>
  (\<^verbatim>\<open>src/rcunit/src/rcunit_exception.h\<close>) and the signal handling around them (\<^verbatim>\<open>rcunit_exception.c\<close>). The frames
  live on the C stack and are chained through \<open>outer\<close>, so \<open>g_curr_excp_frame\<close> is a list, the current frame
  first and \<open>[]\<close> for \<open>NULL\<close>. Code that uses the macros is a small program; what \<open>siglongjmp\<close> does is an
  outcome that unwinds the program to the \<open>RCU_TRY\<close> whose frame is current.
\<close>

section \<open>State\<close>

datatype sig = Core core_signal | SIGINT | SIGALRM | SIGTERM

text \<open>What a signal does: kill the process, run the handler of the framework, or run another handler of the program.\<close>

datatype action = SIG_DFL | Rcu_Handler | Foreign nat

record rcu_exception_frame =
  excp :: "(rcu_exception_id \<times> string) option"
  segv_act_old :: action
  ill_act_old :: action
  fpe_act_old :: action
  bus_act_old :: action
  env_mask :: "sig set"

text \<open>\<open>env_mask\<close> is the part of \<open>sigjmp_buf\<close> that \<open>sigsetjmp(env, 1)\<close> keeps: the set of blocked signals.\<close>

record excp_state =
  frames :: "rcu_exception_frame list"
  actions :: "core_signal \<Rightarrow> action"
  blocked :: "sig set"
  out :: "string list"

datatype jump_type = RCU_EXCEPTION_TYPE_THROW | RCU_EXCEPTION_TYPE_CORE

section \<open>Signals\<close>

definition rcu_sig_save :: "excp_state \<Rightarrow> rcu_exception_frame \<Rightarrow> rcu_exception_frame" where
  "rcu_sig_save st f =
     f\<lparr>segv_act_old := actions st SIGSEGV, ill_act_old := actions st SIGILL,
       fpe_act_old := actions st SIGFPE, bus_act_old := actions st SIGBUS\<rparr>"

definition rcu_sig_restore :: "rcu_exception_frame \<Rightarrow> excp_state \<Rightarrow> excp_state" where
  "rcu_sig_restore f st =
     st\<lparr>actions := (actions st)(SIGSEGV := segv_act_old f, SIGILL := ill_act_old f,
          SIGFPE := fpe_act_old f, SIGBUS := bus_act_old f)\<rparr>"

definition rcu_sig_catch :: "excp_state \<Rightarrow> excp_state" where
  "rcu_sig_catch st =
     st\<lparr>actions := (actions st)(SIGSEGV := Rcu_Handler, SIGILL := Rcu_Handler, SIGFPE := Rcu_Handler, SIGBUS := Rcu_Handler)\<rparr>"

text \<open>The mask of the handler; the signal itself is blocked too, because \<open>sa_flags\<close> is 0.\<close>

definition handler_mask :: "core_signal \<Rightarrow> sig set" where
  "handler_mask s = {Core s, SIGINT, SIGALRM, SIGTERM}"

section \<open>Code that uses the macros\<close>

datatype prog =
    Skip
  | Print string
  | Seq prog prog
  | Raise_Excp rcu_exception_id
  | Raise_Sig core_signal
  | Return
  | Call prog
  | Try prog "rcu_exception_id \<times> string \<Rightarrow> prog"

text \<open>
  \<open>Jump\<close> is \<open>siglongjmp\<close> on its way to the current frame. \<open>Killed\<close> is the end of the process: a signal with
  its default action, one that is blocked when it is raised by the processor, or an access through
  \<open>g_curr_excp_frame\<close> when it is \<open>NULL\<close>. \<open>Handled_By n\<close> passes control to a handler of the program.
\<close>

datatype outcome = Normal | Returned | Jump jump_type | Killed | Handled_By nat

definition rcu_throw :: "rcu_exception_id \<Rightarrow> excp_state \<Rightarrow> outcome \<times> excp_state" where
  "rcu_throw x st =
     (case frames st of
        [] \<Rightarrow> (Killed, st)
      | f # fs \<Rightarrow> (Jump RCU_EXCEPTION_TYPE_THROW, st\<lparr>frames := f\<lparr>excp := Some (rcu_lookup_excp_by_id x)\<rparr> # fs\<rparr>))"

definition raise_signal :: "core_signal \<Rightarrow> excp_state \<Rightarrow> outcome \<times> excp_state" where
  "raise_signal s st =
     (if Core s \<in> blocked st then (Killed, st)
      else case actions st s of
             SIG_DFL \<Rightarrow> (Killed, st)
           | Foreign n \<Rightarrow> (Handled_By n, st)
           | Rcu_Handler \<Rightarrow>
               (case frames st of
                  [] \<Rightarrow> (Killed, st)
                | f # fs \<Rightarrow> (Jump RCU_EXCEPTION_TYPE_CORE,
                    st\<lparr>frames := f\<lparr>excp := Some (rcu_sig_handler s)\<rparr> # fs, blocked := blocked st \<union> handler_mask s\<rparr>)))"

text \<open>\<open>RCU_TRY\<close>: a new frame becomes the current one and the four signals get the handler of the framework.\<close>

definition rcu_try :: "excp_state \<Rightarrow> excp_state" where
  "rcu_try st =
     (let f = rcu_sig_save st \<lparr>excp = None, segv_act_old = SIG_DFL, ill_act_old = SIG_DFL, fpe_act_old = SIG_DFL,
                 bus_act_old = SIG_DFL, env_mask = blocked st\<rparr>
      in rcu_sig_catch (st\<lparr>frames := f # frames st\<rparr>))"

text \<open>The start of \<open>RCU_CATCH\<close>, where both the normal end of the body and a jump arrive; \<open>outer\<close> is \<open>__frame.outer\<close>.\<close>

definition rcu_catch :: "rcu_exception_frame list \<Rightarrow> rcu_exception_frame \<Rightarrow> excp_state \<Rightarrow> excp_state" where
  "rcu_catch outer f st = rcu_sig_restore f (st\<lparr>frames := outer\<rparr>)"

primrec exec :: "prog \<Rightarrow> excp_state \<Rightarrow> outcome \<times> excp_state" where
  "exec Skip st = (Normal, st)"
| "exec (Print s) st = (Normal, st\<lparr>out := out st @ [s]\<rparr>)"
| "exec (Seq p q) st = (case exec p st of (Normal, st1) \<Rightarrow> exec q st1 | r \<Rightarrow> r)"
| "exec (Raise_Excp x) st = rcu_throw x st"
| "exec (Raise_Sig s) st = raise_signal s st"
| "exec Return st = (Returned, st)"
| "exec (Call p) st = (case exec p st of (Returned, st1) \<Rightarrow> (Normal, st1) | r \<Rightarrow> r)"
| "exec (Try p c) st =
     (case exec p (rcu_try st) of
        (Normal, st1) \<Rightarrow>
          (Normal, rcu_catch (frames st) (hd (frames (rcu_try st))) st1)
      | (Jump j, st1) \<Rightarrow>
          if length (frames st1) = Suc (length (frames st))
          then let f = hd (frames st1)
               in exec (c (the (excp f))) (rcu_catch (frames st) f (st1\<lparr>blocked := env_mask f\<rparr>))
          else (Jump j, st1)
      | r \<Rightarrow> r)"

section \<open>The discipline of the macros\<close>

text \<open>
  \<open>tidy t p\<close>: no \<open>return\<close> leaves the body of an \<open>RCU_TRY\<close> (\<open>t\<close>: inside such a body of the same function), and
  only the four core signals are raised.
\<close>

primrec tidy :: "bool \<Rightarrow> prog \<Rightarrow> bool" where
  "tidy t Skip \<longleftrightarrow> True"
| "tidy t (Print s) \<longleftrightarrow> True"
| "tidy t (Seq p q) \<longleftrightarrow> tidy t p \<and> tidy t q"
| "tidy t (Raise_Excp x) \<longleftrightarrow> True"
| "tidy t (Raise_Sig s) \<longleftrightarrow> s \<noteq> Other_Signal"
| "tidy t Return \<longleftrightarrow> \<not> t"
| "tidy t (Call p) \<longleftrightarrow> tidy False p"
| "tidy t (Try p c) \<longleftrightarrow> tidy True p \<and> (\<forall>e. tidy t (c e))"

text \<open>\<open>same st st'\<close>: the chain of frames, the actions of signals and the blocked signals are the same.\<close>

definition same :: "excp_state \<Rightarrow> excp_state \<Rightarrow> bool" where
  "same st st' \<longleftrightarrow> frames st' = frames st \<and> actions st' = actions st \<and> blocked st' = blocked st"

text \<open>
  What a jump may change: the exception in the current frame and the blocked signals, which the frame
  has saved; and the state is one in which the jump has somewhere to go.
\<close>

definition jumped :: "excp_state \<Rightarrow> excp_state \<Rightarrow> bool" where
  "jumped st st' \<longleftrightarrow> frames st \<noteq> [] \<and> actions st' = actions st \<and>
     (\<exists>x. x \<noteq> None \<and> frames st' = (hd (frames st))\<lparr>excp := x\<rparr> # tl (frames st))"

lemma same_trans: "same st st1 \<Longrightarrow> same st1 st' \<Longrightarrow> same st st'"
  by (simp add: same_def)

lemma same_jumped: "same st st1 \<Longrightarrow> jumped st1 st' \<Longrightarrow> jumped st st'"
  unfolding same_def jumped_def by simp

lemma jumpedI: "frames st = f # fs \<Longrightarrow> actions st' = actions st \<Longrightarrow> frames st' = f\<lparr>excp := Some x\<rparr> # fs \<Longrightarrow> jumped st st'"
  unfolding jumped_def by (intro conjI exI [of _ "Some x"]) simp_all

lemma throw_jumped: "rcu_throw x st = (r, st') \<Longrightarrow> r = Killed \<or> (\<exists>j. r = Jump j) \<and> jumped st st'"
  by (cases "frames st") (auto simp: rcu_throw_def intro: jumpedI)

lemma signal_jumped: "raise_signal s st = (r, st') \<Longrightarrow> r = Killed \<or> (\<exists>n. r = Handled_By n) \<or> (\<exists>j. r = Jump j) \<and> jumped st st'"
  by (cases "frames st") (auto simp: raise_signal_def intro: jumpedI split: if_splits action.splits)

lemma restore_frame:
  assumes "actions st1 = actions (rcu_try st)"
  shows "rcu_catch (frames st) (hd (frames (rcu_try st))) st1 = st1\<lparr>frames := frames st, actions := actions st\<rparr>"
    "rcu_catch (frames st) ((hd (frames (rcu_try st)))\<lparr>excp := x\<rparr>) st1 = st1\<lparr>frames := frames st, actions := actions st\<rparr>"
  using assms
  by (auto simp: rcu_catch_def rcu_try_def rcu_sig_restore_def rcu_sig_save_def rcu_sig_catch_def Let_def fun_eq_iff)

lemma try_frames: "frames (rcu_try st) = hd (frames (rcu_try st)) # frames st" "blocked (rcu_try st) = blocked st"
    "env_mask (hd (frames (rcu_try st))) = blocked st" "out (rcu_try st) = out st"
  by (simp_all add: rcu_try_def rcu_sig_catch_def rcu_sig_save_def Let_def)

text \<open>The two ways a \<open>RCU_TRY\<close> goes on: after it, or in its \<open>RCU_CATCH\<close>.\<close>

lemma try_ended:
  assumes "exec p (rcu_try st) = (Normal, st1)" "same (rcu_try st) st1"
  shows "exec (Try p c) st = (Normal, st1\<lparr>frames := frames st, actions := actions st\<rparr>)"
  using assms by (simp add: restore_frame same_def)

lemma try_caught:
  assumes "exec p (rcu_try st) = (Jump j, st1)" "jumped (rcu_try st) st1"
  obtains x where "excp (hd (frames st1)) = Some x"
    "exec (Try p c) st = exec (c x) (st1\<lparr>blocked := blocked st, frames := frames st, actions := actions st\<rparr>)"
proof -
  obtain x where x: "frames st1 = (hd (frames (rcu_try st)))\<lparr>excp := Some x\<rparr> # frames st" "actions st1 = actions (rcu_try st)"
    using assms(2) try_frames(1) [of st] unfolding jumped_def by (metis list.sel(3) option.exhaust)
  then have "exec (Try p c) st = exec (c x) (st1\<lparr>blocked := blocked st, frames := frames st, actions := actions st\<rparr>)"
    using assms(1) restore_frame(2) [of "st1\<lparr>blocked := blocked st\<rparr>" st "Some x"] by (simp add: try_frames(3))
  then show thesis using that x by simp
qed

lemma same_back:
  assumes "same (rcu_try st) st1"
  shows "same st (st1\<lparr>frames := frames st, actions := actions st\<rparr>)"
  using assms by (simp add: same_def try_frames(2))

lemma exec_disciplined:
  assumes "tidy t p" "exec p st = (r, st')"
  shows "(r = Normal \<or> r = Returned \<longrightarrow> same st st') \<and> (\<forall>j. r = Jump j \<longrightarrow> jumped st st') \<and> (r = Returned \<longrightarrow> \<not> t)"
  using assms
proof (induction p arbitrary: t st r st')
  case (Seq p q)
  obtain r1 st1 where p: "exec p st = (r1, st1)" by (metis surj_pair)
  then show ?case using Seq.IH(1) [OF _ p] Seq.IH(2) [of t st1 r st'] Seq.prems
    by (cases r1) (auto dest: same_trans same_jumped)
next
  case (Call p)
  obtain r1 st1 where p: "exec p st = (r1, st1)" by (metis surj_pair)
  then show ?case using Call.IH [OF _ p, of False] Call.prems by (cases r1) auto
next
  case (Try p c)
  obtain r1 st1 where p: "exec p (rcu_try st) = (r1, st1)" by (metis surj_pair)
  note ih = Try.IH(1) [OF _ p, of True]
  show ?case
  proof (cases r1)
    case Normal
    then show ?thesis using ih Try.prems p try_ended [of p st st1 c] same_back [of st st1] by auto
  next
    case (Jump j)
    then have j: "jumped (rcu_try st) st1" using ih Try.prems by auto
    obtain x where x: "exec (c x) (st1\<lparr>blocked := blocked st, frames := frames st, actions := actions st\<rparr>) = (r, st')"
      using try_caught [OF p [unfolded Jump] j, of c] Try.prems(2) by metis
    have "tidy t (c x)" using Try.prems(1) by (cases x) simp
    moreover have "same st (st1\<lparr>blocked := blocked st, frames := frames st, actions := actions st\<rparr>)" by (simp add: same_def)
    ultimately show ?thesis using Try.IH(2) [OF _ _ x, of t] by (auto dest: same_trans same_jumped)
  qed (use ih Try.prems p in auto)
qed (auto simp: same_def dest!: throw_jumped signal_jumped)

text \<open>\<open>armed st\<close>: inside an \<open>RCU_TRY\<close>, with the four signals caught and not blocked.\<close>

definition unblocked :: "excp_state \<Rightarrow> bool" where
  "unblocked st \<longleftrightarrow> (\<forall>s. s \<noteq> Other_Signal \<longrightarrow> Core s \<notin> blocked st)"

definition armed :: "excp_state \<Rightarrow> bool" where
  "armed st \<longleftrightarrow> frames st \<noteq> [] \<and> unblocked st \<and> (\<forall>s. s \<noteq> Other_Signal \<longrightarrow> actions st s = Rcu_Handler)"

lemma armed_same: "armed st \<Longrightarrow> same st st' \<Longrightarrow> armed st'"
  by (simp add: armed_def unblocked_def same_def)

lemma try_armed: "unblocked st \<Longrightarrow> armed (rcu_try st)"
  unfolding armed_def unblocked_def
  by (auto simp: rcu_try_def rcu_sig_catch_def Let_def) (metis core_signal.exhaust)

lemma armed_not_killed:
  assumes "tidy t p" "armed st" "exec p st = (r, st')"
  shows "r \<noteq> Killed \<and> (\<forall>n. r \<noteq> Handled_By n)"
  using assms
proof (induction p arbitrary: t st r st')
  case (Seq p q)
  obtain r1 st1 where p: "exec p st = (r1, st1)" by (metis surj_pair)
  have d: "r1 = Normal \<longrightarrow> armed st1" using exec_disciplined [of t p, OF _ p] Seq.prems(1,2) armed_same by auto
  show ?case using Seq.IH(1) [OF _ Seq.prems(2) p, of t] Seq.IH(2) [of t st1 r st'] Seq.prems p d by (cases r1) auto
next
  case (Raise_Excp x)
  then show ?case by (auto simp: rcu_throw_def armed_def split: list.splits)
next
  case (Raise_Sig s)
  then show ?case by (auto simp: raise_signal_def armed_def unblocked_def split: list.splits if_splits)
next
  case (Call p)
  obtain r1 st1 where p: "exec p st = (r1, st1)" by (metis surj_pair)
  then show ?case using Call.IH [OF _ Call.prems(2) p, of False] Call.prems by (cases r1) auto
next
  case (Try p c)
  obtain r1 st1 where p: "exec p (rcu_try st) = (r1, st1)" by (metis surj_pair)
  have a: "armed (rcu_try st)" using Try.prems(2) try_armed by (simp add: armed_def)
  note ih = Try.IH(1) [OF _ a p, of True] and d = exec_disciplined [of True p, OF _ p]
  show ?case
  proof (cases r1)
    case (Jump j)
    then have j: "jumped (rcu_try st) st1" using d Try.prems by auto
    obtain x where x: "exec (c x) (st1\<lparr>blocked := blocked st, frames := frames st, actions := actions st\<rparr>) = (r, st')"
      using try_caught [OF p [unfolded Jump] j, of c] Try.prems(3) by metis
    have "tidy t (c x)" using Try.prems(1) by (cases x) simp
    moreover have "armed (st1\<lparr>blocked := blocked st, frames := frames st, actions := actions st\<rparr>)"
      by (rule armed_same [OF Try.prems(2)]) (simp add: same_def)
    ultimately show ?thesis using Try.IH(2) [OF _ _ _ x, of t] by auto
  qed (use ih d Try.prems p in auto)
qed auto

section \<open>The view of the test runner\<close>

text \<open>
  \<open>Rcu_Run\<close> describes the call of user code inside an \<open>RCU_TRY\<close> by an optional exception. The body of a test
  function as a program in the context \<open>c\<close>, where a failed assertion throws:
\<close>

fun prog_of :: "run_ctx \<Rightarrow> step \<Rightarrow> prog" where
  "prog_of c (Assert cond fn info) =
     (if cond then Skip
      else Raise_Excp (if c = RCU_RUN_CTX_MOD_INIT \<or> c = RCU_RUN_CTX_MOD_DESTROY then RCU_EXCP_ABORTMODRUN
                       else RCU_EXCP_ASSERTIONFAILURE))"
| "prog_of c (Throw x) = Raise_Excp x"
| "prog_of c (Crash s) = Raise_Sig s"

fun body_prog :: "run_ctx \<Rightarrow> body \<Rightarrow> prog" where
  "body_prog c [] = Skip"
| "body_prog c (s # b) = Seq (prog_of c s) (body_prog c b)"

lemma lookup_twice: "rcu_lookup_excp_by_id (fst (rcu_lookup_excp_by_id x)) = rcu_lookup_excp_by_id x"
  by (cases x) (simp_all add: rcu_lookup_excp_by_id_def excp_num_def g_rcu_excp_tbl_def)

lemma lookup_signal: "rcu_lookup_excp_by_id (fst (rcu_sig_handler s)) = rcu_sig_handler s"
  by (cases s) (simp_all add: lookup_twice)

text \<open>\<open>sent st x st'\<close>: on its way to the current frame of \<open>st\<close> with the exception \<open>x\<close>.\<close>

definition sent :: "excp_state \<Rightarrow> rcu_exception_id \<Rightarrow> excp_state \<Rightarrow> bool" where
  "sent st x st' \<longleftrightarrow> out st' = out st \<and> actions st' = actions st \<and>
     frames st' = (hd (frames st))\<lparr>excp := Some (rcu_lookup_excp_by_id x)\<rparr> # tl (frames st)"

lemma assert_throws:
  assumes "ctx (mach e) = c" "c \<noteq> RCU_RUN_CTX_UNKNOWN" "rcu_assert_impl mem cond fn info e = (e1, x)"
  shows "x = (if cond then None else Some (fst (rcu_lookup_excp_by_id
       (if c = RCU_RUN_CTX_MOD_INIT \<or> c = RCU_RUN_CTX_MOD_DESTROY then RCU_EXCP_ABORTMODRUN else RCU_EXCP_ASSERTIONFAILURE)))) \<and>
     (cond \<longrightarrow> ctx (mach e1) = c)"
  using assms by (cases c) (auto simp: rcu_assert_impl_def Let_def split: if_splits)

lemma body_outcome:
  assumes "ctx (mach e) = c" "c \<noteq> RCU_RUN_CTX_UNKNOWN" "Crash Other_Signal \<notin> set b" "armed st"
  shows "case snd (call mem b e) of
      None \<Rightarrow> exec (body_prog c b) st = (Normal, st)
    | Some x \<Rightarrow> \<exists>j st'. exec (body_prog c b) st = (Jump j, st') \<and> sent st x st'"
  using assms
proof (induction mem b e rule: call.induct)
  case (2 mem cond fn info b e)
  obtain e1 x where a: "rcu_assert_impl mem cond fn info e = (e1, x)" by (metis surj_pair)
  obtain f fs where f: "frames st = f # fs" using "2.prems"(4) by (cases "frames st") (auto simp: armed_def)
  show ?case
  proof (cases cond)
    case True
    then show ?thesis using assert_throws [OF "2.prems"(1,2) a] "2.IH" [OF a [symmetric]] "2.prems" a
      by (auto split: option.splits)
  next
    case False
    then show ?thesis using assert_throws [OF "2.prems"(1,2) a] a f by (auto simp: rcu_throw_def sent_def lookup_twice)
  qed
next
  case (3 mem x b e)
  obtain f fs where "frames st = f # fs" using "3.prems"(4) by (cases "frames st") (auto simp: armed_def)
  then show ?case by (simp add: rcu_throw_def sent_def lookup_twice)
next
  case (4 mem s b e)
  obtain f fs where "frames st = f # fs" using "4.prems"(4) by (cases "frames st") (auto simp: armed_def)
  then show ?case using "4.prems" by (auto simp: raise_signal_def sent_def lookup_signal armed_def unblocked_def)
qed simp

section \<open>Properties\<close>

text \<open>C18. Exceptions and signals are contained: whatever the body of an \<open>RCU_TRY\<close> does (throw, raise one of the four
  core signals, call functions with their own \<open>RCU_TRY\<close>), as long as it does not return out of the body and
  the signals were not blocked, the process is not killed and no exception gets past the block: the program
  goes on after it, or in its \<open>RCU_CATCH\<close>, with the chain of frames, the signal actions and the blocked signals
  as they were before.\<close>

theorem try_contains:
  assumes "tidy True p" "unblocked st"
  shows "\<exists>st1. same st st1 \<and> (exec (Try p c) st = (Normal, st1) \<or> (\<exists>e. exec (Try p c) st = exec (c e) st1))"
proof -
  obtain r st1 where p: "exec p (rcu_try st) = (r, st1)" by (metis surj_pair)
  note d = exec_disciplined [OF assms(1) p] and k = armed_not_killed [OF assms(1) try_armed [OF assms(2)] p]
  show ?thesis
  proof (cases r)
    case Normal
    then show ?thesis using d p try_ended [of p st st1 c] same_back [of st st1] by blast
  next
    case (Jump j)
    obtain x where "exec (Try p c) st = exec (c x) (st1\<lparr>blocked := blocked st, frames := frames st, actions := actions st\<rparr>)"
      using try_caught [OF p [unfolded Jump], of c] d Jump by metis
    moreover have "same st (st1\<lparr>blocked := blocked st, frames := frames st, actions := actions st\<rparr>)" by (simp add: same_def)
    ultimately show ?thesis by blast
  qed (use d k in auto)
qed

definition sample_excp_state :: excp_state where
  "sample_excp_state = \<lparr>frames = [], actions = (\<lambda>_. SIG_DFL), blocked = {}, out = []\<rparr>"

lemma sample_unblocked: "unblocked sample_excp_state"
  by (simp add: unblocked_def sample_excp_state_def)

theorem try_contains_witness:
  "\<exists>st1. same sample_excp_state st1 \<and>
     (exec (Try (Seq (Try (Raise_Sig SIGFPE) (\<lambda>e. Raise_Excp RCU_EXCP_INVPARAM)) (Print ''not reached'')) (\<lambda>e. Print (snd e))) sample_excp_state = (Normal, st1) \<or>
      (\<exists>e. exec (Try (Seq (Try (Raise_Sig SIGFPE) (\<lambda>e. Raise_Excp RCU_EXCP_INVPARAM)) (Print ''not reached'')) (\<lambda>e. Print (snd e))) sample_excp_state =
            exec (Print (snd e)) st1))"
  using try_contains [of "Seq (Try (Raise_Sig SIGFPE) (\<lambda>e. Raise_Excp RCU_EXCP_INVPARAM)) (Print ''not reached'')" sample_excp_state "\<lambda>e. Print (snd e)"]
    sample_unblocked by (simp del: exec.simps)

text \<open>C37. The optional exception by which the runner of tests is described is what the mechanism does: user code that
  runs inside \<open>RCU_TRY\<close> in a test context ends normally exactly when \<open>call\<close> returns no exception, and otherwise the
  \<open>RCU_CATCH\<close> gets the table entry of the exception that \<open>call\<close> returns, for failed assertions, thrown exceptions
  and signals alike; the frames, signal actions and blocked signals are those before the \<open>RCU_TRY\<close>.\<close>

theorem call_is_try:
  assumes "ctx (mach e) = c" "c \<noteq> RCU_RUN_CTX_UNKNOWN" "Crash Other_Signal \<notin> set b" "unblocked st"
  shows "exec (Try (body_prog c b) h) st =
     (case snd (call mem b e) of None \<Rightarrow> (Normal, st) | Some x \<Rightarrow> exec (h (rcu_lookup_excp_by_id x)) st)"
proof (cases "snd (call mem b e)")
  case None
  then have "exec (body_prog c b) (rcu_try st) = (Normal, rcu_try st)"
    using body_outcome [OF assms(1-3) try_armed [OF assms(4)], of mem] by simp
  moreover have "same (rcu_try st) (rcu_try st)" by (simp add: same_def)
  moreover have "(rcu_try st)\<lparr>frames := frames st, actions := actions st\<rparr> = st" by (simp add: rcu_try_def rcu_sig_catch_def Let_def)
  ultimately show ?thesis using None try_ended [of "body_prog c b" st "rcu_try st" h] by (simp del: exec.simps)
next
  case (Some x)
  obtain j st1 where s: "exec (body_prog c b) (rcu_try st) = (Jump j, st1)" "sent (rcu_try st) x st1"
    using body_outcome [OF assms(1-3) try_armed [OF assms(4)], of mem] Some by auto
  have "jumped (rcu_try st) st1" using s(2) jumpedI [OF try_frames(1)] try_frames(1) [of st] unfolding sent_def by (metis list.sel(3))
  then obtain y where y: "excp (hd (frames st1)) = Some y"
      "exec (Try (body_prog c b) h) st = exec (h y) (st1\<lparr>blocked := blocked st, frames := frames st, actions := actions st\<rparr>)"
    using try_caught [OF s(1)] by metis
  have "st1\<lparr>blocked := blocked st, frames := frames st, actions := actions st\<rparr> = st"
    using s(2) try_frames(4) [of st] by (simp add: sent_def)
  then show ?thesis using Some s(2) y by (simp add: sent_def del: exec.simps)
qed

theorem call_is_try_witness:
  "exec (Try (body_prog RCU_RUN_CTX_FUNC [Assert True ''t'' ''a'', Crash SIGSEGV, Assert False ''t'' ''b'']) (\<lambda>e. Print (snd e))) sample_excp_state =
   (Normal, sample_excp_state\<lparr>out := [''segmentation violation'']\<rparr>)"
proof -
  define e where "e = set_ctx RCU_RUN_CTX_FUNC (sample_engine RCU_RUN_LEVEL_MACH None)"
  have "snd (call True [Assert True ''t'' ''a'', Crash SIGSEGV, Assert False ''t'' ''b''] e) = Some RCU_EXCP_SIGSEGV"
    by (simp add: e_def set_ctx_def sample_engine_def sample_test_def rcu_assert_impl_def lookup_excp Let_def)
  then have "exec (Try (body_prog RCU_RUN_CTX_FUNC [Assert True ''t'' ''a'', Crash SIGSEGV, Assert False ''t'' ''b'']) (\<lambda>e. Print (snd e))) sample_excp_state =
      exec (Print (snd (rcu_lookup_excp_by_id RCU_EXCP_SIGSEGV))) sample_excp_state"
    using call_is_try [of e RCU_RUN_CTX_FUNC "[Assert True ''t'' ''a'', Crash SIGSEGV, Assert False ''t'' ''b'']" sample_excp_state "\<lambda>e. Print (snd e)" True]
      sample_unblocked
    by (simp add: e_def del: exec.simps body_prog.simps)
  then show ?thesis by (simp add: sample_excp_state_def rcu_lookup_excp_by_id_def excp_num_def g_rcu_excp_tbl_def del: exec.simps(8))
qed

end
