(* ===== verification/Rcu_Report.thy ===== *)
theory Rcu_Report
  imports Rcu_Run LibC
begin

text \<open>
  Around a run: the run of a whole machine adds up, the runs by name (\<^verbatim>\<open>src/rcunit/src/rcunit_module.c\<close>,
  \<^verbatim>\<open>rcunit_registry.c\<close>), the hooks and the failure records (\<^verbatim>\<open>rcunit.c\<close>, \<^verbatim>\<open>rcunit_assert.c\<close>) and the report
  (\<^verbatim>\<open>rcunit_report.c\<close>, \<^verbatim>\<open>rcunit_report_plaintext.c\<close>). The report is the text written to its file; the time of day
  and the version, which the build generates, are arguments.
\<close>

section \<open>Hooks and failure records\<close>

definition rcu_set_run_hook :: "bool \<Rightarrow> rcu_test_machine \<Rightarrow> rcu_test_machine" where
  "rcu_set_run_hook hook m = m\<lparr>has_run_hook := hook\<rparr>"

definition rcu_set_assert_hook :: "bool \<Rightarrow> rcu_test_machine \<Rightarrow> rcu_test_machine" where
  "rcu_set_assert_hook hook m = (if hook then m\<lparr>has_assert_hook := True\<rparr> else m)"

definition rcu_have_asserts :: "rcu_test_machine \<Rightarrow> bool" where
  "rcu_have_asserts m \<longleftrightarrow> assert_list m \<noteq> []"

text \<open>The text of a failure record: the message after the place of the assertion, cut to the size of the buffer.\<close>

definition RCU_TEMP_BUFF_SIZE :: nat where "RCU_TEMP_BUFF_SIZE = 1024"

text \<open>\<open>%d\<close>\<close>

definition show_int :: "int \<Rightarrow> string" where
  "show_int n = (if n < 0 then ''-'' @ dec (nat (- n)) else dec (nat n))"

definition rcu_cre_fail_rec :: "bool \<Rightarrow> string \<Rightarrow> string \<Rightarrow> int \<Rightarrow> string option" where
  "rcu_cre_fail_rec mem info filename line_no =
     (if mem then Some (take (RCU_TEMP_BUFF_SIZE - 1) (filename @ ''('' @ show_int line_no @ '') : '' @ info)) else None)"

text \<open>
  The loop that unlinks and frees every record of a list leaves it empty (\<open>free_all_ring\<close> of \<open>Rcu_List\<close>). The name of the
  source file, which is never \<open>NULL\<close>, comes from the assertion macros.
\<close>

definition rcu_del_all_fail_rec_impl :: "string list \<Rightarrow> string list" where
  "rcu_del_all_fail_rec_impl recs = []"

definition rcu_del_all_fail_rec :: "rcu_test_machine \<Rightarrow> rcu_test_machine" where
  "rcu_del_all_fail_rec m =
     m\<lparr>reg_list := map (\<lambda>reg. reg\<lparr>mod_list := map (\<lambda>md.
           md\<lparr>func_list := map (\<lambda>f. f\<lparr>t_fail_recs := rcu_del_all_fail_rec_impl (t_fail_recs f)\<rparr>) (func_list md),
              m_fail_recs := rcu_del_all_fail_rec_impl (m_fail_recs md)\<rparr>) (mod_list reg)\<rparr>) (reg_list m),
       assert_list := rcu_del_all_fail_rec_impl (assert_list m)\<rparr>"

section \<open>The report\<close>

fun rcu_get_stat_str :: "run_stat \<Rightarrow> string" where
  "rcu_get_stat_str RCU_RUN_STAT_NOTTESTED = ''Ignored''"
| "rcu_get_stat_str RCU_RUN_STAT_TEST_SUCC = ''Passed''"
| "rcu_get_stat_str RCU_RUN_STAT_TEST_FAILED = ''Failed''"

definition newline :: char where "newline = CHR 0x0A"

definition quote :: char where "quote = CHR 0x22"

fun rcu_print_char :: "char \<Rightarrow> nat \<Rightarrow> string" where
  "rcu_print_char ch 0 = []"
| "rcu_print_char ch (Suc n) = ch # rcu_print_char ch n"

fun rcu_indent :: "nat \<Rightarrow> string" where
  "rcu_indent 0 = []"
| "rcu_indent (Suc n) = CHR '' '' # rcu_indent n"

definition RCU_PLAINTEXT_LINE_WIDTH :: nat where "RCU_PLAINTEXT_LINE_WIDTH = 80"

definition RCU_LINE_MARKER_1 :: string where "RCU_LINE_MARKER_1 = ''========================================''"

definition centred :: "string \<Rightarrow> string" where
  "centred t = rcu_print_char (CHR '' '') ((RCU_PLAINTEXT_LINE_WIDTH - length t) div 2) @ t @ [newline]"

definition report_head :: string where
  "report_head = RCU_LINE_MARKER_1 @ RCU_LINE_MARKER_1 @ [newline] @ centred ''RCUNIT Test Run Report'' @
     centred ''http://github.com/jecklgamis/rcunit'' @ RCU_LINE_MARKER_1 @ RCU_LINE_MARKER_1 @ [newline]"

definition report_test :: "rcu_test \<Rightarrow> string" where
  "report_test f = rcu_indent 8 @ ''[test = '' @ [quote] @ t_name f @ [quote] @ '', result = '' @ rcu_get_stat_str (t_run_stat f) @ '']'' @ [newline] @
     (if nr_succ_assert f = 0 \<and> nr_fail_assert f = 0 \<and> t_run_stat f = RCU_RUN_STAT_TEST_SUCC
      then rcu_indent 12 @ ''[failure = No assertions executed!]'' @ [newline] else []) @
     concat (map (\<lambda>info. rcu_indent 12 @ ''[failure = '' @ info @ '']'' @ [newline]) (t_fail_recs f))"

definition report_mod :: "nat \<Rightarrow> nat \<Rightarrow> rcu_module \<Rightarrow> string" where
  "report_mod reg_no mod_no md = rcu_indent 4 @ dec reg_no @ ''.'' @ dec mod_no @ '' [module = '' @ [quote] @ m_name md @ [quote] @ '', '' @
     show_int (m_nr_test md) @ '' tests]'' @ [newline] @
     concat (map (\<lambda>info. rcu_indent 12 @ info @ [newline]) (m_fail_recs md)) @
     concat (map report_test (func_list md))"

definition report_reg :: "nat \<Rightarrow> rcu_registry \<Rightarrow> string" where
  "report_reg reg_no reg = dec reg_no @ ''. [registry = '' @ [quote] @ r_name reg @ [quote] @ '', '' @ show_int (nr_mod reg) @ '' modules]'' @ [newline] @
     concat (map (\<lambda>(mod_no, md). report_mod reg_no mod_no md) (enumerate 0 (mod_list reg)))"

definition report_result :: "rcu_test_machine \<Rightarrow> string" where
  "report_result m = [newline] @ ''Test Run Results: Passed : '' @ show_int (nr_succ_test m) @ ''  Failed : '' @ show_int (nr_failed_test m) @ [newline] @
     (if nr_failed_test m = 0 then ''Test successful!'' else ''Test failed!'') @ [newline]"

text \<open>\<open>ok\<close>: the file can be opened. The second result is what is written.\<close>

definition rcu_gen_plaintext_report :: "bool \<Rightarrow> string \<Rightarrow> string \<Rightarrow> rcu_test_machine \<Rightarrow> rcu_error \<times> string option" where
  "rcu_gen_plaintext_report ok now version m =
     (if \<not> ok then (RCU_E_NG, None)
      else (RCU_E_OK, Some (report_head @ concat (map (\<lambda>(reg_no, reg). report_reg reg_no reg) (enumerate 0 (reg_list m))) @ report_result m @
             [newline] @ RCU_LINE_MARKER_1 @ RCU_LINE_MARKER_1 @ [newline] @
             ''Generated last '' @ now @ '' by RCUNIT version '' @ version @ ''.'' @ [newline, newline])))"

text \<open>The generators of the other formats are stubs.\<close>

definition rcu_gen_html_report :: "rcu_test_machine \<Rightarrow> rcu_error" where "rcu_gen_html_report m = RCU_E_OK"

definition rcu_gen_xml_report :: "rcu_test_machine \<Rightarrow> rcu_error" where "rcu_gen_xml_report m = RCU_E_OK"

definition rcu_gen_json_report :: "rcu_test_machine \<Rightarrow> rcu_error" where "rcu_gen_json_report m = RCU_E_OK"

text \<open>
  The time stamp is the text of \<open>ctime\<close>, which is not empty, cut to the buffer and without its last character,
  the end of the line.
\<close>

definition RCU_TSTAMP_BUFF_SIZE :: nat where "RCU_TSTAMP_BUFF_SIZE = 32"

definition rcu_get_timestamp :: "string \<Rightarrow> nat \<Rightarrow> rcu_error \<times> string option" where
  "rcu_get_timestamp ctime ts_buff_len =
     (if ts_buff_len < RCU_TSTAMP_BUFF_SIZE then (RCU_E_NG, None) else (RCU_E_OK, Some (butlast (take (ts_buff_len - 1) ctime))))"

text \<open>The lines (without their level) that the functions for looking at the database and at failed assertions log.\<close>

definition rcu_dump_test_reg :: "rcu_registry \<Rightarrow> string list" where
  "rcu_dump_test_reg reg = (''|   +- registry [name = '' @ r_name reg @ '']'') #
     concat (map (\<lambda>md. (''|   |   +- module [name = '' @ m_name md @ '']'') #
       map (\<lambda>f. ''|   |   |   +- test [name = '' @ t_name f @ '']'') (func_list md)) (mod_list reg))"

definition rcu_dump_test_dbase_impl :: "rcu_test_machine \<Rightarrow> string list" where
  "rcu_dump_test_dbase_impl m = ''+- Test Entity Database'' # concat (map rcu_dump_test_reg (reg_list m))"

definition rcu_dump_asserts :: "rcu_test_machine \<Rightarrow> string list" where
  "rcu_dump_asserts m = (if \<not> rcu_have_asserts m then [''No assertions to dump found''] else []) @
     [''[ NON TEST RUN ASSERTIONS DUMP START]''] @ assert_list m @ [''[ NON TEST RUN ASSERTIONS DUMP END]'']"

section \<open>Runs by name\<close>

text \<open>
  The module or registry to run is given by its place in the lists of the machine. The current module is taken out of
  the machine, run, and written back, as in the loops of the runners. The error number that is set for a name that is
  not known belongs to the database (\<open>Rcu_Dbase\<close>), and the report each run ends with is \<open>rcu_gen_plaintext_report\<close> of the
  resulting machine.
\<close>

definition get_mod :: "nat \<times> nat \<Rightarrow> rcu_test_machine \<Rightarrow> rcu_module" where
  "get_mod p m = mod_list (reg_list m ! fst p) ! snd p"

definition put_mod :: "nat \<times> nat \<Rightarrow> rcu_module \<Rightarrow> rcu_test_machine \<Rightarrow> rcu_test_machine" where
  "put_mod p md m = (let reg = reg_list m ! fst p
     in m\<lparr>reg_list := (reg_list m)[fst p := reg\<lparr>mod_list := (mod_list reg)[snd p := md]\<rparr>]\<rparr>)"

definition all_places :: "rcu_test_machine \<Rightarrow> (nat \<times> nat) list" where
  "all_places m = concat (map (\<lambda>i. map (\<lambda>j. (i, j)) [0..<length (mod_list (reg_list m ! i))]) [0..<length (reg_list m)])"

definition rcu_run_test_mod :: "bool \<Rightarrow> nat \<times> nat \<Rightarrow> engine \<Rightarrow> rcu_error \<times> engine" where
  "rcu_run_test_mod mem p e =
     (let m = rcu_reset_all_run_stat ((mach e)\<lparr>level := RCU_RUN_LEVEL_MOD\<rparr>);
          e1 = snd (rcu_run_test_mod_impl mem (e\<lparr>mach := m, curr_mod := get_mod p m\<rparr>))
      in (RCU_E_OK, e1\<lparr>mach := put_mod p (curr_mod e1) (mach e1)\<rparr>))"

text \<open>The first registry and module of the machine are the default ones. A name that is not known is an error.\<close>

definition rcu_run_test_mod_by_name :: "bool \<Rightarrow> string option \<Rightarrow> engine \<Rightarrow> rcu_error \<times> engine" where
  "rcu_run_test_mod_by_name mem name e =
     (case name of
        None \<Rightarrow> rcu_run_test_mod mem (0, 0) e
      | Some n \<Rightarrow>
          case find (\<lambda>p. m_name (get_mod p (mach e)) = n) (all_places (mach e)) of
            None \<Rightarrow> (RCU_E_NG, e)
          | Some p \<Rightarrow> rcu_run_test_mod mem p e)"

definition rcu_run_test_reg_unsupported :: "bool \<Rightarrow> nat \<Rightarrow> engine \<Rightarrow> rcu_error \<times> engine" where
  "rcu_run_test_reg_unsupported mem i e =
     (let m = (mach e)\<lparr>level := RCU_RUN_LEVEL_REG\<rparr>;
          (reg, e1) = rcu_run_test_reg_impl mem (reg_list m ! i) (e\<lparr>mach := m\<rparr>)
      in (RCU_E_OK, e1\<lparr>mach := (mach e1)\<lparr>reg_list := (reg_list (mach e1))[i := reg]\<rparr>\<rparr>))"

definition rcu_run_test_reg_by_name :: "bool \<Rightarrow> string option \<Rightarrow> engine \<Rightarrow> rcu_error \<times> engine" where
  "rcu_run_test_reg_by_name mem name e =
     (case name of
        None \<Rightarrow> rcu_run_test_reg_unsupported mem 0 e
      | Some n \<Rightarrow>
          case find (\<lambda>i. r_name (reg_list (mach e) ! i) = n) [0..<length (reg_list (mach e))] of
            None \<Rightarrow> (RCU_E_NG, e)
          | Some i \<Rightarrow> rcu_run_test_reg_unsupported mem i e)"

section \<open>A run adds up\<close>

text \<open>A module that has not been run and whose setup and teardown are clean.\<close>

definition ready :: "rcu_module \<Rightarrow> bool" where
  "ready md \<longleftrightarrow> (case m_init md of None \<Rightarrow> True | Some b \<Rightarrow> clean b) \<and> (case m_destroy md of None \<Rightarrow> True | Some b \<Rightarrow> clean b) \<and>
     list_all (\<lambda>f. \<not> t_init_failed f \<and> \<not> t_destroy_failed f) (func_list md) \<and> m_nr_failed_test md = 0 \<and> m_nr_succ_test md = 0 \<and>
     \<not> m_init_failed md \<and> \<not> m_destroy_failed md"

abbreviation nr_pass :: "rcu_test list \<Rightarrow> int" where "nr_pass fs \<equiv> int (length (filter passes fs))"

abbreviation nr_fail :: "rcu_test list \<Rightarrow> int" where "nr_fail fs \<equiv> int (length (filter (\<lambda>f. \<not> passes f) fs))"

lemma ready_mod:
  assumes "ready (curr_mod e)" "level (mach e) \<noteq> RCU_RUN_LEVEL_MOD" "rcu_run_test_mod_impl mem e = (r, e')"
  defines "fs \<equiv> func_list (curr_mod e)"
  shows "m_run_stat (curr_mod e') = (if list_all passes fs then RCU_RUN_STAT_TEST_SUCC else RCU_RUN_STAT_TEST_FAILED) \<and>
     \<not> m_init_failed (curr_mod e') \<and> \<not> m_destroy_failed (curr_mod e') \<and>
     counters (mach e') = counters ((mach e)\<lparr>nr_failed_test := nr_failed_test (mach e) + nr_fail fs, nr_succ_test := nr_succ_test (mach e) + nr_pass fs\<rparr>)"
proof -
  obtain e2 x2 where i: "(case m_init (curr_mod e) of None \<Rightarrow> (e, None)
      | Some b \<Rightarrow> call mem b (set_ctx RCU_RUN_CTX_MOD_INIT e)) = (e2, x2)" by (metis surj_pair)
  have 2: "x2 = None" "curr_mod e2 = curr_mod e" "counters (mach e2) = counters (mach e)"
    using fixture_mod [OF disjI1 [OF refl] i] fixture_counters [OF i] assms(1) by (simp_all add: ready_def)
  obtain fs' e3 where f: "run_funcs mem (func_list (curr_mod e2)) e2 = (fs', e3)" by (metis surj_pair)
  obtain e5 x5 where d: "(case m_destroy (curr_mod e3) of None \<Rightarrow> (upd_mod (\<lambda>m. m\<lparr>func_list := fs'\<rparr>) e3, None)
      | Some b \<Rightarrow> call mem b (set_ctx RCU_RUN_CTX_MOD_DESTROY (upd_mod (\<lambda>m. m\<lparr>func_list := fs'\<rparr>) e3))) = (e5, x5)"
    by (metis surj_pair)
  have "list_all (\<lambda>f. \<not> t_init_failed f \<and> \<not> t_destroy_failed f) (func_list (curr_mod e2))"
    using assms(1) 2(2) by (simp add: ready_def)
  note 3 = run_funcs_tally [OF this f]
  have 5: "x5 = None" "curr_mod e5 = (curr_mod e3)\<lparr>func_list := fs'\<rparr>" "counters (mach e5) = counters (mach e)"
    using fixture_mod [OF disjI2 [OF refl] d] fixture_counters [OF d] 3 2 assms(1) by (simp_all add: ready_def)
  have l: "level (mach e5) \<noteq> RCU_RUN_LEVEL_MOD" using 5(3) assms(2) by (simp add: counters_def)
  have e': "e' = e5\<lparr>curr_mod := (curr_mod e5)\<lparr>m_run_stat := (if m_nr_failed_test (curr_mod e5) = 0 then RCU_RUN_STAT_TEST_SUCC else RCU_RUN_STAT_TEST_FAILED)\<rparr>,
      mach := (mach e5)\<lparr>nr_failed_test := nr_failed_test (mach e5) + m_nr_failed_test (curr_mod e5),
        nr_succ_test := nr_succ_test (mach e5) + m_nr_succ_test (curr_mod e5)\<rparr>\<rparr>"
    using assms(2,3) i f d 2(1) 5(1) l by (simp add: rcu_run_test_mod_impl_def run_hook_def Let_def)
  have "filter (\<lambda>f. \<not> passes f) fs = [] \<longleftrightarrow> list_all passes fs" by (auto simp: filter_empty_conv list_all_iff)
  then show ?thesis using 3 5 2(2) assms(1) by (simp add: e' fs_def ready_def counters_def)
qed

lemma ready_mods:
  assumes "list_all ready mds" "level (mach e) = RCU_RUN_LEVEL_MACH" "run_mods mem mds reg e = (mds', reg', e')"
  defines "fs \<equiv> concat (map func_list mds)"
  shows "nr_failed_mod reg \<le> nr_failed_mod reg' \<and> (nr_failed_mod reg' = nr_failed_mod reg \<longleftrightarrow> list_all passes fs) \<and>
     counters (mach e') = counters ((mach e)\<lparr>nr_failed_test := nr_failed_test (mach e) + nr_fail fs, nr_succ_test := nr_succ_test (mach e) + nr_pass fs\<rparr>)"
  using assms(1-3) unfolding fs_def
proof (induction mds arbitrary: reg e mds' reg' e')
  case (Cons md mds)
  obtain r e1 where m: "rcu_run_test_mod_impl mem (e\<lparr>curr_mod := md\<rparr>) = (r, e1)" by (metis surj_pair)
  obtain md1 reg1 where c: "count_mod (curr_mod e1) reg = (md1, reg1)" by (metis surj_pair)
  obtain mds2 where r: "run_mods mem mds reg1 e1 = (mds2, reg', e')"
    using Cons.prems(3) m c by (auto simp: Let_def split: prod.splits)
  note 1 = ready_mod [OF _ _ m, simplified]
  have reg1: "nr_failed_mod reg1 = nr_failed_mod reg + (if list_all passes (func_list md) then 0 else 1)"
    using 1 Cons.prems(1,2) c by (auto simp: count_mod_def split: if_splits)
  have "level (mach e1) = RCU_RUN_LEVEL_MACH" using 1 Cons.prems(1,2) by (simp add: counters_def)
  then show ?case using Cons.IH [OF _ _ r] Cons.prems(1,2) 1 reg1 by (auto simp: counters_def split: if_splits)
qed (simp add: counters_def)

lemma ready_regs:
  assumes "list_all (\<lambda>reg. nr_failed_mod reg = 0 \<and> list_all ready (mod_list reg)) regs"
    and "level (mach e) = RCU_RUN_LEVEL_MACH" "run_regs mem regs e = (regs', e')"
  defines "fs \<equiv> concat (map func_list (concat (map mod_list regs)))"
  shows "nr_failed_reg (mach e) \<le> nr_failed_reg (mach e') \<and> (nr_failed_reg (mach e') = nr_failed_reg (mach e) \<longleftrightarrow> list_all passes fs) \<and>
     nr_failed_test (mach e') = nr_failed_test (mach e) + nr_fail fs \<and> nr_succ_test (mach e') = nr_succ_test (mach e) + nr_pass fs"
  using assms(1-3) unfolding fs_def
proof (induction regs arbitrary: e regs' e')
  case (Cons reg regs)
  obtain mds reg1 e1 where m: "run_mods mem (mod_list reg) reg e = (mds, reg1, e1)" by (metis surj_pair)
  note 1 = ready_mods [OF _ _ m]
  define e2 where "e2 = e1\<lparr>mach := (if nr_failed_mod reg1 > 0 then (mach e1)\<lparr>nr_failed_reg := nr_failed_reg (mach e1) + 1\<rparr>
      else (mach e1)\<lparr>nr_succ_reg := nr_succ_reg (mach e1) + 1\<rparr>)\<rparr>"
  have l: "level (mach e1) = RCU_RUN_LEVEL_MACH" using 1 Cons.prems(1,2) by (simp add: counters_def)
  have 2: "rcu_run_test_reg_impl mem reg e = (reg1\<lparr>mod_list := mds\<rparr>, e2)"
    using Cons.prems(2) m l by (simp add: rcu_run_test_reg_impl_def run_hook_def Let_def e2_def)
  obtain regs2 where r: "run_regs mem regs e2 = (regs2, e')"
    using Cons.prems(3) 2 by (auto simp: Let_def split: prod.splits)
  have l2: "level (mach e2) = RCU_RUN_LEVEL_MACH" using l by (simp add: e2_def)
  have 3: "nr_failed_reg (mach e2) = nr_failed_reg (mach e) + (if list_all passes (concat (map func_list (mod_list reg))) then 0 else 1)"
      "nr_failed_test (mach e2) = nr_failed_test (mach e) + nr_fail (concat (map func_list (mod_list reg)))"
      "nr_succ_test (mach e2) = nr_succ_test (mach e) + nr_pass (concat (map func_list (mod_list reg)))"
    using 1 Cons.prems(1,2) by (auto simp: e2_def counters_def)
  show ?case using Cons.IH [OF _ l2 r] Cons.prems(1) 3 by (auto split: if_splits)
qed simp

lemma machine_tally:
  assumes "nr_failed_reg (mach e) = 0" "nr_failed_test (mach e) = 0" "nr_succ_test (mach e) = 0"
    and "list_all (\<lambda>reg. nr_failed_mod reg = 0 \<and> list_all ready (mod_list reg)) (reg_list (mach e))"
    and "rcu_run_test_mach mem e = (r, e')"
  defines "fs \<equiv> concat (map func_list (concat (map mod_list (reg_list (mach e)))))"
  shows "nr_succ_test (mach e') = nr_pass fs" "nr_failed_test (mach e') = nr_fail fs" "r = (if list_all passes fs then RCU_E_OK else RCU_E_NG)"
proof -
  define e0 where "e0 = call_hook RCU_TEST_RUN_STARTED (e\<lparr>mach := (mach e)\<lparr>level := RCU_RUN_LEVEL_MACH\<rparr>\<rparr>)"
  have 0: "reg_list (mach e0) = reg_list (mach e)" "level (mach e0) = RCU_RUN_LEVEL_MACH"
      "nr_failed_reg (mach e0) = 0" "nr_failed_test (mach e0) = 0" "nr_succ_test (mach e0) = 0"
    using assms(1-3) by (simp_all add: e0_def call_hook_def)
  obtain regs e1 where g: "run_regs mem (reg_list (mach e0)) e0 = (regs, e1)" by (metis surj_pair)
  have "list_all (\<lambda>reg. nr_failed_mod reg = 0 \<and> list_all ready (mod_list reg)) (reg_list (mach e0))" using assms(4) 0(1) by simp
  note t = ready_regs [OF this 0(2) g, unfolded 0(1) fs_def [symmetric], simplified 0]
  have "e' = call_hook RCU_TEST_RUN_FINISHED (e1\<lparr>mach := (mach e1)\<lparr>reg_list := regs\<rparr>\<rparr>)"
      "r = (if nr_failed_reg (mach e') > 0 then RCU_E_NG else RCU_E_OK)"
    using assms(5) g by (auto simp: rcu_run_test_mach_def rcu_run_tests_impl_def e0_def [symmetric] Let_def)
  then show "nr_succ_test (mach e') = nr_pass fs" "nr_failed_test (mach e') = nr_fail fs" "r = (if list_all passes fs then RCU_E_OK else RCU_E_NG)"
    using t by (auto simp: call_hook_def)
qed

section \<open>What the report says of a test\<close>

lemma entry_succ_asserts:
  assumes "t_run_stat (curr_func e) = RCU_RUN_STAT_TEST_FAILED" "t_run_stat (curr_func (run_entry mem e)) = RCU_RUN_STAT_TEST_SUCC"
  shows "nr_succ_assert (curr_func (run_entry mem e)) \<noteq> 0 \<or> nr_fail_assert (curr_func (run_entry mem e)) \<noteq> 0"
proof -
  obtain e1 x where c: "call mem (t_entry (curr_func e)) (set_ctx RCU_RUN_CTX_FUNC e) = (e1, x)" by (metis surj_pair)
  have "ctx (mach (set_ctx RCU_RUN_CTX_FUNC e)) = RCU_RUN_CTX_FUNC" by simp
  from call_entry [OF this c] show ?thesis using assms by (cases x) (auto simp: run_entry_def c split: if_splits)
qed

lemma func_succ_asserts:
  assumes "rcu_run_test_func_impl mem e = (r, e')" "t_run_stat (curr_func e') = RCU_RUN_STAT_TEST_SUCC"
  shows "nr_succ_assert (curr_func e') \<noteq> 0 \<or> nr_fail_assert (curr_func e') \<noteq> 0"
proof -
  define e0 where "e0 = upd_func (\<lambda>f. f\<lparr>t_run_stat := RCU_RUN_STAT_TEST_FAILED, nr_fail_assert := 0, nr_succ_assert := 0\<rparr>) e"
  obtain e1 x1 where i: "(case t_init (curr_func e0) of None \<Rightarrow> (e0, None)
      | Some b \<Rightarrow> call mem b (set_ctx RCU_RUN_CTX_FUNC_INIT e0)) = (e1, x1)" by (metis surj_pair)
  have 1: "t_run_stat (curr_func e1) = RCU_RUN_STAT_TEST_FAILED"
    using i call_fixture [of "set_ctx RCU_RUN_CTX_FUNC_INIT e0"] by (auto simp: e0_def split: option.splits)
  obtain e3 x3 where d: "(case t_destroy (curr_func (run_entry mem e1)) of None \<Rightarrow> (run_entry mem e1, None)
      | Some b \<Rightarrow> call mem b (set_ctx RCU_RUN_CTX_FUNC_DESTROY (run_entry mem e1))) = (e3, x3)" by (metis surj_pair)
  have 3: "t_run_stat (curr_func e3) = t_run_stat (curr_func (run_entry mem e1))"
      "nr_succ_assert (curr_func e3) = nr_succ_assert (curr_func (run_entry mem e1))"
      "nr_fail_assert (curr_func e3) = nr_fail_assert (curr_func (run_entry mem e1))"
    using d call_fixture [of "set_ctx RCU_RUN_CTX_FUNC_DESTROY (run_entry mem e1)"] by (auto split: option.splits)
  have "e' = (if x1 \<noteq> None then e1 else e3)"
    using assms(1) i d by (auto simp: rcu_run_test_func_impl_def e0_def [symmetric] Let_def split: if_splits)
  then show ?thesis using assms(2) 1 3 entry_succ_asserts [OF 1] by (auto split: if_splits)
qed

section \<open>Properties\<close>

text \<open>C39. A run of the whole machine adds up and is reported: when no module has been run before and the setups and
  teardowns of the modules are clean, the numbers of passed and failed tests are the numbers of registered
  tests that pass and do not pass, the run returns \<open>RCU_E_OK\<close> exactly when every test passes, and the
  report prints these numbers and says that the run was successful exactly when every test passes.\<close>

theorem machine_run_reported:
  assumes "nr_failed_reg (mach e) = 0" "nr_failed_test (mach e) = 0" "nr_succ_test (mach e) = 0"
    and "list_all (\<lambda>reg. nr_failed_mod reg = 0 \<and> list_all ready (mod_list reg)) (reg_list (mach e))"
    and "rcu_run_test_mach mem e = (r, e')"
  defines "fs \<equiv> concat (map func_list (concat (map mod_list (reg_list (mach e)))))"
  shows "nr_succ_test (mach e') = nr_pass fs \<and> nr_failed_test (mach e') = nr_fail fs \<and>
     r = (if list_all passes fs then RCU_E_OK else RCU_E_NG) \<and>
     report_result (mach e') = [newline] @ ''Test Run Results: Passed : '' @ show_int (nr_pass fs) @ ''  Failed : '' @ show_int (nr_fail fs) @
       [newline] @ (if list_all passes fs then ''Test successful!'' else ''Test failed!'') @ [newline]"
proof -
  have "nr_fail fs = 0 \<longleftrightarrow> list_all passes fs" by (auto simp: filter_empty_conv list_all_iff)
  then show ?thesis unfolding report_result_def machine_tally [OF assms(1-5), folded fs_def] by simp
qed

theorem machine_run_reported_witness:
  "nr_failed_test (mach (snd (rcu_run_test_mach True (sample_engine RCU_RUN_LEVEL_MACH None)))) = 2 \<and>
   fst (rcu_run_test_mach True (sample_engine RCU_RUN_LEVEL_MACH None)) = RCU_E_NG"
  using machine_run_reported [of "sample_engine RCU_RUN_LEVEL_MACH None" True, OF _ _ _ _ prod.collapse [symmetric]]
  by (simp add: sample_engine_def sample_module_def sample_test_def passes_def ready_def)

text \<open>The note about missing assertions is never written: a test that makes no assertion is marked as failed, while
  the report writes the note only for a test marked as passed, so that after a run the report of a test is its result line
  and its failure records, and a test that failed because it asserts nothing is reported without a reason.\<close>

theorem no_assertions_note_dead:
  fixes mem e f
  defines "f' \<equiv> curr_func (count_test (snd (rcu_run_test_func_impl mem (e\<lparr>curr_func := f\<rparr>))))"
  shows "report_test f' = rcu_indent 8 @ ''[test = '' @ [quote] @ t_name f' @ [quote] @ '', result = '' @ rcu_get_stat_str (t_run_stat f') @ '']'' @ [newline] @
     concat (map (\<lambda>info. rcu_indent 12 @ ''[failure = '' @ info @ '']'' @ [newline]) (t_fail_recs f'))"
proof -
  obtain r e1 where c: "rcu_run_test_func_impl mem (e\<lparr>curr_func := f\<rparr>) = (r, e1)" by (metis surj_pair)
  have "\<not> (nr_succ_assert f' = 0 \<and> nr_fail_assert f' = 0 \<and> t_run_stat f' = RCU_RUN_STAT_TEST_SUCC)"
    using func_succ_asserts [OF c] by (auto simp: f'_def c count_test_def split: if_splits)
  then show ?thesis by (simp only: report_test_def if_False append_Nil)
qed

end
