(* ===== verification/Rcu_Examples.thy ===== *)
theory Rcu_Examples
  imports Rcu_Dbase_Props Rcu_Exception Rcu_Report
begin

text \<open>
  Whole test programs: \<open>rcu_run_tests\<close> on the database a program has built, the assertion macros
  (\<^verbatim>\<open>src/rcunit/src/rcunit_assert.h\<close>) and the example programs (\<^verbatim>\<open>src/rcunit/examples\<close>), each as the sequence of its
  calls. A function pointer is the number of a function of the example, and \<open>\<dots>_code\<close> says what each of them does.
\<close>

section \<open>Running a program\<close>

definition start_engine :: "(nat \<Rightarrow> body) \<Rightarrow> bool \<Rightarrow> dbase \<Rightarrow> engine" where
  "start_engine code hook db = \<lparr>mach = machine_view code hook db, curr_mod = mod_view code db Def_Mod, curr_func = test_view code zero_func\<rparr>"

text \<open>
  \<open>rcu_destroy\<close> at the end deletes the failure records of the machine before it destroys the database. The program has run
  nothing before, so that all counters are zero (\<open>machine_view\<close>).
\<close>

definition rcu_run_tests :: "(nat \<Rightarrow> body) \<Rightarrow> bool \<Rightarrow> bool \<Rightarrow> dbase \<Rightarrow> (rcu_error \<times> rcu_test_machine \<times> dbase) option" where
  "rcu_run_tests code hook mem db = do {
     db \<leftarrow> rcu_init db;
     let (r, e) = rcu_run_test_mach mem (start_engine code hook db);
     db' \<leftarrow> rcu_destroy db;
     Some (r, rcu_del_all_fail_rec (mach e), db')
   }"

text \<open>All failure records of a machine.\<close>

definition fail_recs :: "rcu_test_machine \<Rightarrow> string list" where
  "fail_recs m = assert_list m @ concat (map (\<lambda>reg. concat (map (\<lambda>md. m_fail_recs md @ concat (map t_fail_recs (func_list md))) (mod_list reg))) (reg_list m))"

lemma del_all_fail_rec_simps [simp]:
  "nr_succ_test (rcu_del_all_fail_rec m) = nr_succ_test m" "nr_failed_test (rcu_del_all_fail_rec m) = nr_failed_test m"
  "hook_log (rcu_del_all_fail_rec m) = hook_log m" "fail_recs (rcu_del_all_fail_rec m) = []"
  by (simp_all add: rcu_del_all_fail_rec_def fail_recs_def rcu_del_all_fail_rec_impl_def comp_def)

text \<open>The tests that are registered in a database, in the order in which they run.\<close>

definition registered :: "(nat \<Rightarrow> body) \<Rightarrow> dbase \<Rightarrow> rcu_test list" where
  "registered code db = concat (map (\<lambda>r. concat (map (\<lambda>m. map (\<lambda>p. test_view code (db_func db p)) (dm_funcs (db_mod db m)))
     (dr_mods (db_reg db r)))) (db_regs db))"

definition clean_fixtures :: "(nat \<Rightarrow> body) \<Rightarrow> dbase \<Rightarrow> ptr \<Rightarrow> bool" where
  "clean_fixtures code db m \<longleftrightarrow> list_all (\<lambda>h. case h of None \<Rightarrow> True | Some f \<Rightarrow> clean (code f)) [dm_init (db_mod db m), dm_destroy (db_mod db m)]"

section \<open>Assertion macros\<close>

text \<open>Where an assertion stands; the texts of its arguments are those the preprocessor makes of them.\<close>

record place =
  at_file :: string
  at_func :: string
  at_line :: int

definition assert_at :: "place \<Rightarrow> bool \<Rightarrow> string \<Rightarrow> step" where
  "assert_at p cond msg = Assert cond (at_func p) (the (rcu_cre_fail_rec True (take (RCU_TEMP_BUFF_SIZE - 1) msg) (at_file p) (at_line p)))"

definition RCU_ASSERT :: "place \<Rightarrow> bool \<Rightarrow> string \<Rightarrow> step" where
  "RCU_ASSERT p cond txt = assert_at p cond txt"

definition RCU_ASSERT_TRUE :: "place \<Rightarrow> bool \<Rightarrow> string \<Rightarrow> step" where
  "RCU_ASSERT_TRUE p cond txt = assert_at p cond (txt @ '' is false but expected to be true'')"

definition RCU_ASSERT_FALSE :: "place \<Rightarrow> bool \<Rightarrow> string \<Rightarrow> step" where
  "RCU_ASSERT_FALSE p cond txt = assert_at p (\<not> cond) (txt @ '' is true but expected to be false'')"

definition RCU_ASSERT_NULL :: "place \<Rightarrow> nat \<Rightarrow> step" where
  "RCU_ASSERT_NULL p a = assert_at p (a = 0) ''expecting null pointer''"

definition RCU_ASSERT_NOT_NULL :: "place \<Rightarrow> nat \<Rightarrow> step" where
  "RCU_ASSERT_NOT_NULL p a = assert_at p (a \<noteq> 0) ''expecting non-null pointer''"

definition RCU_ASSERT_EQUAL :: "place \<Rightarrow> 64 word \<Rightarrow> string \<Rightarrow> 64 word \<Rightarrow> string \<Rightarrow> step" where
  "RCU_ASSERT_EQUAL p expected etxt actual atxt =
     assert_at p (expected = actual) (atxt @ '' expected to be '' @ etxt @ '' but got '' @ show_int (sint actual))"

definition RCU_ASSERT_NOT_EQUAL :: "place \<Rightarrow> 64 word \<Rightarrow> string \<Rightarrow> 64 word \<Rightarrow> string \<Rightarrow> step" where
  "RCU_ASSERT_NOT_EQUAL p expected etxt actual atxt =
     assert_at p (expected \<noteq> actual) (atxt @ '' not expected to be '' @ etxt @ '' but got '' @ show_int (sint actual))"

definition RCU_ASSERT_EQUAL_STRING :: "place \<Rightarrow> string \<Rightarrow> string \<Rightarrow> string \<Rightarrow> string \<Rightarrow> step" where
  "RCU_ASSERT_EQUAL_STRING p expected etxt actual atxt =
     assert_at p (expected = actual) (atxt @ '' expected to be '' @ [quote] @ etxt @ [quote] @ '' but got '' @ [quote] @ actual @ [quote])"

definition RCU_FAIL :: "place \<Rightarrow> string \<Rightarrow> step" where
  "RCU_FAIL p msg = assert_at p False (''failed explicitly : '' @ [quote] @ msg @ [quote])"

definition RCU_ASSERT_SAME_BYTE_ARRAY :: "place \<Rightarrow> 8 word list \<Rightarrow> 8 word list \<Rightarrow> nat \<Rightarrow> step" where
  "RCU_ASSERT_SAME_BYTE_ARRAY p a b n = assert_at p (take n a = take n b) ''arrays are not the same''"

definition RCU_ASSERT_NOT_SAME_BYTE_ARRAY :: "place \<Rightarrow> 8 word list \<Rightarrow> 8 word list \<Rightarrow> nat \<Rightarrow> step" where
  "RCU_ASSERT_NOT_SAME_BYTE_ARRAY p a b n = assert_at p (take n a \<noteq> take n b) ''byte arrays are the same''"

text \<open>The position is below 32; shifting by more is undefined. The data is printed as an unsigned \<open>long\<close>.\<close>

definition RCU_ASSERT_BIT_SET :: "place \<Rightarrow> 32 word \<Rightarrow> nat \<Rightarrow> step" where
  "RCU_ASSERT_BIT_SET p data pos =
     assert_at p (and data (push_bit pos 1) \<noteq> 0) (''bit '' @ dec pos @ '' is not set in '' @ dec (unat (signed_take_bit 31 (ucast data) :: 64 word)))"

definition RCU_ASSERT_BIT_NOT_SET :: "place \<Rightarrow> 32 word \<Rightarrow> nat \<Rightarrow> step" where
  "RCU_ASSERT_BIT_NOT_SET p data pos =
     assert_at p (and data (push_bit pos 1) = 0) (''bit '' @ dec pos @ '' is set in '' @ dec (unat (signed_take_bit 31 (ucast data) :: 64 word)))"

text \<open>\<open>show_ptr\<close> is what \<open>%p\<close> prints.\<close>

definition RCU_ASSERT_EQUAL_PTRS :: "(nat \<Rightarrow> string) \<Rightarrow> place \<Rightarrow> nat \<Rightarrow> string \<Rightarrow> nat \<Rightarrow> string \<Rightarrow> step" where
  "RCU_ASSERT_EQUAL_PTRS show_ptr p expected etxt actual atxt =
     assert_at p (expected = actual) (atxt @ '' expected to be '' @ etxt @ '' but got '' @ show_ptr actual)"

section \<open>Table macros\<close>

definition RCU_INC_TEST :: "string \<Rightarrow> nat \<Rightarrow> rcu_test_function_entry" where
  "RCU_INC_TEST name f = \<lparr>fe_name = name, fe_entry = Some f, fe_init = None, fe_destroy = None\<rparr>"

definition RCU_INC_TEST_FXT :: "string \<Rightarrow> nat \<Rightarrow> fptr \<Rightarrow> fptr \<Rightarrow> rcu_test_function_entry" where
  "RCU_INC_TEST_FXT name f setup teardown = \<lparr>fe_name = name, fe_entry = Some f, fe_init = setup, fe_destroy = teardown\<rparr>"

definition RCU_INC_MOD :: "string \<Rightarrow> rcu_test_function_entry list option \<Rightarrow> rcu_module_entry" where
  "RCU_INC_MOD name tbl = \<lparr>me_name = name, me_init = None, me_destroy = None, me_func_tbl = tbl\<rparr>"

definition RCU_INC_MOD_FXT :: "string \<Rightarrow> fptr \<Rightarrow> fptr \<Rightarrow> rcu_test_function_entry list option \<Rightarrow> rcu_module_entry" where
  "RCU_INC_MOD_FXT name setup teardown tbl = \<lparr>me_name = name, me_init = setup, me_destroy = teardown, me_func_tbl = tbl\<rparr>"

section \<open>The examples\<close>

subsection \<open>\<^verbatim>\<open>rcunit_sample_app_simple.c\<close>\<close>

definition test_something :: body where
  "test_something = [RCU_ASSERT \<lparr>at_file = ''rcunit_sample_app_simple.c'', at_func = ''test_something'', at_line = 5\<rparr> True ''1'']"

definition simple_main :: "(nat \<Rightarrow> nat option) \<Rightarrow> (nat \<Rightarrow> string) \<Rightarrow> (rcu_error \<times> rcu_test_machine \<times> dbase) option" where
  "simple_main M sp = do {
     (_, db) \<leftarrow> rcu_add_test M sp (Some 1) db_start;
     rcu_run_tests (\<lambda>_. test_something) False True db
   }"

subsection \<open>\<^verbatim>\<open>rcunit_sample_app_function_table.c\<close>\<close>

definition calc_sum :: "32 word \<Rightarrow> 32 word \<Rightarrow> 32 word" where "calc_sum x y = x + y"

definition calc_diff :: "32 word \<Rightarrow> 32 word \<Rightarrow> 32 word" where "calc_diff x y = x - y"

definition test_calc_sum :: body where
  "test_calc_sum = [RCU_ASSERT_EQUAL \<lparr>at_file = ''rcunit_sample_app_function_table.c'', at_func = ''test_calc_sum'', at_line = 13\<rparr>
     3 ''3'' (scast (calc_sum 1 2)) ''calc_sum(1, 2)'']"

definition test_calc_diff :: body where
  "test_calc_diff = [RCU_ASSERT_EQUAL \<lparr>at_file = ''rcunit_sample_app_function_table.c'', at_func = ''test_calc_diff'', at_line = 17\<rparr>
     (-1) ''-1'' (scast (calc_diff 1 2)) ''calc_diff(1, 2)'']"

definition calc_tests_table :: "rcu_test_function_entry list" where
  "calc_tests_table = [RCU_INC_TEST ''test_calc_sum'' 1, RCU_INC_TEST ''test_calc_diff'' 2]"

definition function_table_main :: "(nat \<Rightarrow> nat option) \<Rightarrow> (nat \<Rightarrow> string) \<Rightarrow> (rcu_error \<times> rcu_test_machine \<times> dbase) option" where
  "function_table_main M sp = do {
     (m, db) \<leftarrow> rcu_get_default_mod db_start;
     (_, db) \<leftarrow> rcu_add_test_func_tbl M sp m (Some calc_tests_table) db;
     rcu_run_tests (\<lambda>n. if n = 1 then test_calc_sum else test_calc_diff) False True db
   }"

subsection \<open>\<^verbatim>\<open>rcunit_sample_app_module.c\<close>\<close>

definition module_main :: "(nat \<Rightarrow> nat option) \<Rightarrow> (rcu_error \<times> rcu_test_machine \<times> dbase) option" where
  "module_main M = do {
     (_, db) \<leftarrow> rcu_get_mod M (Some ''math'') db_start;
     rcu_run_tests (\<lambda>_. []) False True db
   }"

subsection \<open>\<^verbatim>\<open>rcunit_sample_app_run_hook.c\<close>\<close>

text \<open>What the hook of the example prints for an event.\<close>

fun run_hook_line :: "run_event \<Rightarrow> string" where
  "run_hook_line RCU_TEST_RUN_STARTED = ''Test started''"
| "run_hook_line RCU_TEST_RUN_FINISHED = ''Test finished''"

definition run_hook_main :: "(rcu_error \<times> rcu_test_machine \<times> dbase) option" where
  "run_hook_main = do { db \<leftarrow> rcu_init db_start; rcu_run_tests (\<lambda>_. []) True True db }"

subsection \<open>\<^verbatim>\<open>rcunit_sample_app_signal.c\<close>\<close>

definition my_test :: body where
  "my_test = [RCU_ASSERT_NULL \<lparr>at_file = ''rcunit_sample_app_signal.c'', at_func = ''my_test'', at_line = 12\<rparr> 0, Crash SIGSEGV]"

definition signal_main :: "(nat \<Rightarrow> nat option) \<Rightarrow> (nat \<Rightarrow> string) \<Rightarrow> (rcu_error \<times> rcu_test_machine \<times> dbase) option" where
  "signal_main M sp = do {
     (_, db) \<leftarrow> rcu_add_test M sp (Some 1) db_start;
     rcu_run_tests (\<lambda>_. my_test) False True db
   }"

subsection \<open>\<^verbatim>\<open>rcunit_sample_app_demo.c\<close>\<close>

definition demo_at :: "string \<Rightarrow> int \<Rightarrow> place" where
  "demo_at f n = \<lparr>at_file = ''rcunit_sample_app_demo.c'', at_func = f, at_line = n\<rparr>"

definition demo_code :: "nat \<Rightarrow> body" where
  "demo_code n =
     (if n = 1 then [RCU_ASSERT (demo_at ''successful_test'' 6) True ''RCU_TRUE'']
      else if n = 2 then []
      else if n = 3 then [RCU_FAIL (demo_at ''failed_test'' 13) ''failed_test'']
      else if n = 4 then [RCU_FAIL (demo_at ''failed_setup'' 17) ''failed_setup'']
      else if n = 5 then [RCU_FAIL (demo_at ''failed_teardown'' 21) ''failed_teardown'']
      else [])"

definition test_table_with_all_kinds_test_failures :: "rcu_test_function_entry list" where
  "test_table_with_all_kinds_test_failures =
    [RCU_INC_TEST ''test_without_asserts'' 2, RCU_INC_TEST ''failed_test'' 3, RCU_INC_TEST_FXT ''successful_test'' 1 (Some 4) None,
     RCU_INC_TEST_FXT ''successful_test'' 1 None (Some 5)]"

definition test_table_with_successful_tests :: "rcu_test_function_entry list" where
  "test_table_with_successful_tests = [RCU_INC_TEST ''successful_test'' 1]"

definition module_table :: "rcu_module_entry list" where
  "module_table = [RCU_INC_MOD_FXT ''m1'' (Some 6) (Some 7) (Some test_table_with_successful_tests)]"

definition demo_main :: "(nat \<Rightarrow> nat option) \<Rightarrow> (nat \<Rightarrow> string) \<Rightarrow> (rcu_error \<times> rcu_test_machine \<times> dbase) option" where
  "demo_main M sp = do {
     (_, db) \<leftarrow> rcu_get_reg M (Some ''empty-registry'') db_start;
     (m, db) \<leftarrow> rcu_get_default_mod db;
     (_, db) \<leftarrow> rcu_add_test_func_tbl M sp m (Some test_table_with_all_kinds_test_failures) db;
     (r, db) \<leftarrow> rcu_get_default_reg db;
     (_, db) \<leftarrow> rcu_add_test_mod_tbl M sp r (Some module_table) db;
     rcu_run_tests demo_code False True db
   }"

subsection \<open>\<^verbatim>\<open>rcunit_sample_app_non_test_assertions.c\<close>\<close>

definition sample_test_codes_7_non_test_func :: body where
  "sample_test_codes_7_non_test_func =
     (let x = 100 :: int; p = (\<lambda>n. \<lparr>at_file = ''rcunit_sample_app_non_test_assertions.c'', at_func = ''sample_test_codes_7_non_test_func'', at_line = n\<rparr>)
      in [RCU_ASSERT (p 5) (x = 100) ''x == 100'', RCU_ASSERT (p 6) (x = 101) ''x == 101'', RCU_ASSERT (p 7) (x = 102) ''x == 102'',
          RCU_ASSERT (p 8) (x = 103) ''x == 103'', RCU_ASSERT (p 9) (x = 104) ''x == 104''])"

text \<open>The lines the hook of the example prints, and the database at the end.\<close>

definition sample_test_codes_7 :: "bool \<Rightarrow> (string list \<times> dbase) option" where
  "sample_test_codes_7 mem = do {
     db \<leftarrow> rcu_init db_start;
     let e = start_engine (\<lambda>_. []) False db;
     let e1 = e\<lparr>mach := rcu_set_assert_hook True (mach e)\<rparr>;
     let (e2, _) = call mem sample_test_codes_7_non_test_func e1;
     db' \<leftarrow> rcu_destroy db;
     Some (map (\<lambda>info. ''Assertion failure : '' @ info) (assert_log (mach e2)), db')
   }"

subsection \<open>\<^verbatim>\<open>rcunit_sample_app_exception.c\<close>\<close>

definition sample_test_codes_6_1 :: "bool \<Rightarrow> prog" where
  "sample_test_codes_6_1 null = Seq (Print ''sample_test_codes_6_1 : invoked!'')
     (if null then Seq (Print ''sample_test_codes_6_1: Throwing exception'') (Raise_Excp RCU_EXCP_NULLPOINTER) else Skip)"

text \<open>The value that is printed is the one \<open>sample_test_codes_6_1\<close> stores.\<close>

definition sample_test_codes_6_2 :: "bool \<Rightarrow> prog" where
  "sample_test_codes_6_2 flag = Seq (Print ''sample_test_codes_6_2 : invoked!'')
     (Seq (Try (Call (sample_test_codes_6_1 (\<not> flag)))
            (\<lambda>e. Seq (Print (''sample_test_codes_6_2 : sample_test_codes_6_1 threw an exception : '' @ snd e))
                  (Seq (Print ''sample_test_codes_6_2 : Throwing exception'') (Raise_Excp RCU_EXCP_INVPARAM))))
       (Seq (Print ''sample_test_codes_6_2 : sample_test_codes_6_1 is successful :0xdababe'') Return))"

text \<open>After an exception the returned value is not initialised; \<open>junk\<close> is how it is printed.\<close>

definition sample_test_codes_6 :: "string \<Rightarrow> bool \<Rightarrow> prog" where
  "sample_test_codes_6 junk flag = Seq (Print ''sample_test_codes_6 : invoked!'')
     (Seq (Try (Call (sample_test_codes_6_2 flag)) (\<lambda>e. Print (''sample_test_codes_6 : sample_test_codes_6_2 threw an exception : '' @ snd e)))
       (Seq (Print (''sample_test_codes_6 : sample_test_codes_6_2 returned : 0x'' @ (if flag then ''dababe'' else junk))) Return))"

definition exception_main :: "string \<Rightarrow> bool \<Rightarrow> prog" where
  "exception_main junk flag = Seq (Print ''Running sample_test_codes_6...'') (Seq (Call (sample_test_codes_6 junk flag)) Return)"

section \<open>Results\<close>

text \<open>What a program is told: the value of \<open>rcu_run_tests\<close> and the numbers of passed and failed tests.\<close>

definition result_of :: "(rcu_error \<times> rcu_test_machine \<times> dbase) option \<Rightarrow> (rcu_error \<times> int \<times> int) option" where
  "result_of x = map_option (\<lambda>(r, m, db). (r, nr_succ_test m, nr_failed_test m)) x"

lemma view_ready:
  "clean_fixtures code db m \<Longrightarrow> ready (mod_view code db m)"
  by (auto simp: ready_def mod_view_def clean_fixtures_def test_view_def list_all_iff split: option.splits)

lemma concat_concat_map: "concat (concat (map f xs)) = concat (map (\<lambda>x. concat (f x)) xs)"
  by (induction xs) auto

lemma view_registered:
  "concat (map func_list (concat (map mod_list (reg_list (machine_view code hook db))))) = registered code db"
  by (simp add: machine_view_def reg_view_def mod_view_def registered_def map_concat comp_def concat_concat_map)

lemma program_run:
  assumes "db_ok db" "rcu_init db = Some db1" "list_all (\<lambda>r. list_all (clean_fixtures code db1) (dr_mods (db_reg db1 r))) (db_regs db1)"
  defines "fs \<equiv> registered code db1"
  shows "\<exists>m db'. rcu_run_tests code hook mem db = Some (if list_all passes fs then RCU_E_OK else RCU_E_NG, m, db') \<and>
     nr_succ_test m = nr_pass fs \<and> nr_failed_test m = nr_fail fs \<and> fail_recs m = [] \<and> db_ok db' \<and> \<not> init_done db' \<and> db_regs db' = [] \<and>
     (\<forall>a. db_block db' a = (if Heap a \<in> linked db1 (db_regs db1) then None else db_block db1 a))"
proof -
  let ?e = "start_engine code hook db1"
  obtain r e where e: "rcu_run_test_mach mem ?e = (r, e)" by (metis surj_pair)
  have "list_all (\<lambda>reg. nr_failed_mod reg = 0 \<and> list_all ready (mod_list reg)) (reg_list (mach ?e))"
    using assms(3) view_ready by (auto simp: start_engine_def machine_view_def reg_view_def list_all_iff)
  note t = machine_tally [OF _ _ _ this e]
  have fs: "concat (map func_list (concat (map mod_list (reg_list (mach ?e))))) = fs"
    by (simp add: start_engine_def view_registered fs_def)
  have "nr_failed_reg (mach ?e) = 0" "nr_failed_test (mach ?e) = 0" "nr_succ_test (mach ?e) = 0"
    by (simp_all add: start_engine_def machine_view_def)
  note t = t [OF this, unfolded fs]
  have "db_ok db1" using init_spec [OF assms(1)] assms(2) by auto
  then obtain db' where "rcu_destroy db1 = Some db'" "db_ok db'" "\<not> init_done db'" "db_regs db' = []"
      "\<forall>a. db_block db' a = (if Heap a \<in> linked db1 (db_regs db1) then None else db_block db1 a)" using destroy_releases by blast
  then show ?thesis using assms(2) e t by (simp add: rcu_run_tests_def)
qed

lemma program_result:
  assumes "db_ok db" "init_done db" "list_all (\<lambda>r. list_all (clean_fixtures code db) (dr_mods (db_reg db r))) (db_regs db)" "registered code db = fs"
  shows "result_of (rcu_run_tests code hook mem db) = Some (if list_all passes fs then RCU_E_OK else RCU_E_NG, nr_pass fs, nr_fail fs)"
proof -
  obtain m db' where "rcu_run_tests code hook mem db = Some (if list_all passes fs then RCU_E_OK else RCU_E_NG, m, db')"
      "nr_succ_test m = nr_pass fs" "nr_failed_test m = nr_fail fs"
    using program_run [OF assms(1) init_again [OF assms(2)] assms(3), of hook mem] assms(4) by blast
  then show ?thesis by (simp add: result_of_def)
qed

lemmas db_build = db_run rcu_get_default_mod_def rcu_get_default_reg_def rcu_add_test_def rcu_add_test_func_def rcu_alloc_test_func_def
  rcu_add_test_func_tbl_def rcu_add_test_mod_tbl_def rcu_cre_test_mod_def rcu_alloc_test_mod_def rcu_add_mod_to_reg_def rcu_get_mod_def
  rcu_add_test_mod_def rcu_srch_mod_by_name_global_def all_mods_def upd_test_def zero_func_def test_view_def registered_def clean_fixtures_def
  RCU_INC_TEST_def RCU_INC_TEST_FXT_def RCU_INC_MOD_FXT_def

lemma simple_db:
  "\<exists>r db. rcu_add_test Some sp (Some 1) db_start = Some (r, db) \<and> init_done db \<and>
     registered code db = [test_view code \<lparr>df_name = sp 1, df_entry = Some 1, df_init = None, df_destroy = None, df_in = Def_Mod\<rparr>] \<and>
     list_all (\<lambda>r. list_all (clean_fixtures code db) (dr_mods (db_reg db r))) (db_regs db)"
  by (simp add: db_build)

lemma function_table_db:
  "\<exists>db1 r db. rcu_get_default_mod db_start = Some (Def_Mod, db1) \<and> rcu_add_test_func_tbl Some sp Def_Mod (Some calc_tests_table) db1 = Some (r, db) \<and>
     init_done db \<and> registered code db = map (test_view code \<circ> entry_test Def_Mod) calc_tests_table \<and>
     list_all (\<lambda>r. list_all (clean_fixtures code db) (dr_mods (db_reg db r))) (db_regs db)"
  by (simp add: db_build calc_tests_table_def entry_test_def RCU_TEST_FUNCTION_NAME_LENGTH_def)

lemma module_db:
  "\<exists>r db. rcu_get_mod Some (Some ''math'') db_start = Some (r, db) \<and> init_done db \<and> registered code db = [] \<and>
     list_all (\<lambda>r. list_all (clean_fixtures code db) (dr_mods (db_reg db r))) (db_regs db)"
  by (simp add: db_build)

lemma demo_db:
  "\<exists>r1 db1 r2 db2 r3 db3. rcu_get_reg Some (Some ''empty-registry'') db_start = Some (r1, db1) \<and>
     rcu_add_test_func_tbl Some sp Def_Mod (Some test_table_with_all_kinds_test_failures) db1 = Some (r2, db2) \<and>
     rcu_add_test_mod_tbl Some sp Def_Reg (Some module_table) db2 = Some (r3, db3) \<and> init_done db1 \<and> init_done db2 \<and> init_done db3 \<and>
     registered demo_code db3 = map (test_view demo_code \<circ> entry_test Def_Mod) test_table_with_all_kinds_test_failures @
       map (test_view demo_code \<circ> entry_test (Heap 5)) test_table_with_successful_tests \<and>
     list_all (\<lambda>r. list_all (clean_fixtures demo_code db3) (dr_mods (db_reg db3 r))) (db_regs db3)"
  by (simp add: db_build test_table_with_all_kinds_test_failures_def test_table_with_successful_tests_def module_table_def entry_test_def
      RCU_TEST_FUNCTION_NAME_LENGTH_def demo_code_def)

lemma fine_ok: "fine P res \<Longrightarrow> res = Some (x, db) \<Longrightarrow> db_ok db"
  by (simp add: fine_def)

lemma default_mod_ok: "db_ok db \<Longrightarrow> rcu_get_default_mod db = Some (m, db') \<Longrightarrow> db_ok db' \<and> m = Def_Mod"
  using init_spec [of db] by (auto simp: rcu_get_default_mod_def)

lemma add_test_ok:
  assumes "db_ok db" "rcu_add_test M sp t db = Some (r, db')"
  shows "db_ok db'"
proof -
  obtain m db1 where 1: "rcu_get_default_mod db = Some (m, db1)" "rcu_add_test_func M sp m t None None None db1 = Some (r, db')"
    using assms(2) by (auto simp: rcu_add_test_def split: bind_splits)
  then show ?thesis using fine_ok [OF add_func_fine 1(2)] default_mod_ok [OF assms(1) 1(1)] by simp
qed

lemmas assert_run = RCU_ASSERT_def RCU_ASSERT_EQUAL_def RCU_ASSERT_NULL_def RCU_FAIL_def assert_at_def passes_def test_view_def entry_test_def
  RCU_INC_TEST_def RCU_INC_TEST_FXT_def

lemma simple_result: "result_of (simple_main Some sp) = Some (RCU_E_OK, 1, 0)"
proof -
  obtain r db where db: "rcu_add_test Some sp (Some 1) db_start = Some (r, db)" "init_done db"
      "registered (\<lambda>_. test_something) db = [test_view (\<lambda>_. test_something) \<lparr>df_name = sp 1, df_entry = Some 1, df_init = None, df_destroy = None, df_in = Def_Mod\<rparr>]"
      "list_all (\<lambda>r. list_all (clean_fixtures (\<lambda>_. test_something) db) (dr_mods (db_reg db r))) (db_regs db)"
    using simple_db by blast
  from program_result [OF add_test_ok [OF start_ok db(1)] db(2,4,3)] show ?thesis
    using db(1) by (simp add: simple_main_def test_something_def assert_run)
qed

lemma signal_result: "result_of (signal_main Some sp) = Some (RCU_E_NG, 0, 1)"
proof -
  obtain r db where db: "rcu_add_test Some sp (Some 1) db_start = Some (r, db)" "init_done db"
      "registered (\<lambda>_. my_test) db = [test_view (\<lambda>_. my_test) \<lparr>df_name = sp 1, df_entry = Some 1, df_init = None, df_destroy = None, df_in = Def_Mod\<rparr>]"
      "list_all (\<lambda>r. list_all (clean_fixtures (\<lambda>_. my_test) db) (dr_mods (db_reg db r))) (db_regs db)"
    using simple_db by blast
  from program_result [OF add_test_ok [OF start_ok db(1)] db(2,4,3)] show ?thesis
    using db(1) by (simp add: signal_main_def my_test_def assert_run)
qed

lemma function_table_result: "result_of (function_table_main Some sp) = Some (RCU_E_OK, 2, 0)"
proof -
  let ?code = "\<lambda>n. if n = 1 then test_calc_sum else test_calc_diff"
  obtain db1 r db where db: "rcu_get_default_mod db_start = Some (Def_Mod, db1)" "rcu_add_test_func_tbl Some sp Def_Mod (Some calc_tests_table) db1 = Some (r, db)"
      "init_done db" "registered ?code db = map (test_view ?code \<circ> entry_test Def_Mod) calc_tests_table"
      "list_all (\<lambda>r. list_all (clean_fixtures ?code db) (dr_mods (db_reg db r))) (db_regs db)"
    using function_table_db by blast
  have "db_ok db" using fine_ok [OF func_tbl_fine db(2)] default_mod_ok [OF start_ok db(1)] by simp
  from program_result [OF this db(3,5,4)] show ?thesis using db(1,2)
    by (simp add: function_table_main_def calc_tests_table_def test_calc_sum_def test_calc_diff_def calc_sum_def calc_diff_def assert_run)
qed

lemma module_result: "result_of (module_main Some) = Some (RCU_E_OK, 0, 0)"
proof -
  obtain r db where db: "rcu_get_mod Some (Some ''math'') db_start = Some (r, db)" "init_done db" "registered (\<lambda>_. []) db = []"
      "list_all (\<lambda>r. list_all (clean_fixtures (\<lambda>_. []) db) (dr_mods (db_reg db r))) (db_regs db)"
    using module_db by blast
  from program_result [OF fine_ok [OF get_mod_fine [OF start_ok] db(1)] db(2,4,3)] show ?thesis using db(1) by (simp add: module_main_def)
qed

lemma demo_result: "result_of (demo_main Some sp) = Some (RCU_E_NG, 1, 4)"
proof -
  obtain r1 db1 r2 db2 r3 db where db: "rcu_get_reg Some (Some ''empty-registry'') db_start = Some (r1, db1)"
      "rcu_add_test_func_tbl Some sp Def_Mod (Some test_table_with_all_kinds_test_failures) db1 = Some (r2, db2)"
      "rcu_add_test_mod_tbl Some sp Def_Reg (Some module_table) db2 = Some (r3, db)" "init_done db1" "init_done db2" "init_done db"
      "registered demo_code db = map (test_view demo_code \<circ> entry_test Def_Mod) test_table_with_all_kinds_test_failures @
         map (test_view demo_code \<circ> entry_test (Heap 5)) test_table_with_successful_tests"
      "list_all (\<lambda>r. list_all (clean_fixtures demo_code db) (dr_mods (db_reg db r))) (db_regs db)"
    using demo_db by blast
  have "db_ok db2" using fine_ok [OF func_tbl_fine db(2)] fine_ok [OF get_reg_fine [OF start_ok] db(1)] by simp
  then have "db_ok db" using fine_ok [OF mod_tbl_fine db(3)] by simp
  from program_result [OF this db(6,8,7)] show ?thesis using db(1-3) init_again [OF db(4)] init_again [OF db(5)]
    by (simp add: demo_main_def rcu_get_default_mod_def rcu_get_default_reg_def test_table_with_all_kinds_test_failures_def
        test_table_with_successful_tests_def demo_code_def assert_run)
qed

lemma run_hook_result: "map_option (\<lambda>(r, m, db). map run_hook_line (hook_log m)) run_hook_main = Some [''Test started'', ''Test finished'']"
proof -
  obtain db where "rcu_destroy (the (rcu_init db_start)) = Some db" using destroy_ok init_spec [OF start_ok] by fastforce
  then show ?thesis
    by (simp add: run_hook_main_def rcu_run_tests_def start_engine_def machine_view_def reg_view_def mod_view_def db_build
      rcu_run_test_mach_def rcu_run_tests_impl_def rcu_run_test_reg_impl_def rcu_run_test_mod_impl_def run_hook_def call_hook_def count_mod_def)
qed

lemma one_digit: "dec 6 = ''6''" "dec 7 = ''7''" "dec 8 = ''8''" "dec 9 = ''9''"
  by code_simp+

lemma non_test_result:
  "map_option fst (sample_test_codes_7 True) = Some
     [''Assertion failure : rcunit_sample_app_non_test_assertions.c(6) : x == 101'', ''Assertion failure : rcunit_sample_app_non_test_assertions.c(7) : x == 102'',
      ''Assertion failure : rcunit_sample_app_non_test_assertions.c(8) : x == 103'', ''Assertion failure : rcunit_sample_app_non_test_assertions.c(9) : x == 104'']"
proof -
  obtain db where "rcu_destroy (the (rcu_init db_start)) = Some db" using destroy_ok init_spec [OF start_ok] by fastforce
  then show ?thesis
    by (simp add: sample_test_codes_7_def start_engine_def machine_view_def db_build rcu_set_assert_hook_def sample_test_codes_7_non_test_func_def
      RCU_ASSERT_def assert_at_def rcu_assert_impl_def rcu_add_fail_rec_impl_def rcu_cre_fail_rec_def RCU_TEMP_BUFF_SIZE_def show_int_def one_digit)
qed

lemmas exec_run = rcu_throw_def rcu_try_def rcu_sig_save_def rcu_sig_catch_def rcu_catch_def rcu_sig_restore_def Let_def

section \<open>Properties\<close>

text \<open>C15. A test program runs what it registered and releases it: for every database that the calls of a program can build
  before it runs anything, if the setups and teardowns of its modules are clean (no failing assertion, exception or
  signal), \<open>rcu_run_tests\<close> ends without undefined behaviour, every registered test is counted, as passed or failed by its own
  verdict, and the value returned is \<open>RCU_E_OK\<close> exactly when every registered test passes. After it no failure record is
  left, the machine is no longer initialised and has no registries, and of the memory exactly the registries of the
  machine, the modules in them and the tests of these modules have been freed: a module or registry that
  was created but never added is leaked.\<close>

theorem program_runs_registered:
  assumes "db_reach M sp db" "rcu_init db = Some db1"
    and "list_all (\<lambda>r. list_all (clean_fixtures code db1) (dr_mods (db_reg db1 r))) (db_regs db1)"
  defines "fs \<equiv> registered code db1"
  shows "\<exists>m db'. rcu_run_tests code hook mem db = Some (if list_all passes fs then RCU_E_OK else RCU_E_NG, m, db') \<and>
     nr_succ_test m = nr_pass fs \<and> nr_failed_test m = nr_fail fs \<and> fail_recs m = [] \<and> db_ok db' \<and> \<not> init_done db' \<and> db_regs db' = [] \<and>
     (\<forall>a. db_block db' a = (if Heap a \<in> linked db1 (db_regs db1) then None else db_block db1 a))"
  unfolding fs_def using program_run [OF reach_ok [OF assms(1)] assms(2,3)] .

theorem program_runs_registered_witness:
  "\<exists>db m db'. db_exec Some (\<lambda>_. ''0x1'') (Add_Test Null (Some 1) None None (Some ''t'')) db_start = Some db \<and> db_block db 0 = Some Func_Block \<and>
     rcu_run_tests sample_code False True db = Some (RCU_E_OK, m, db') \<and> nr_succ_test m = 1 \<and> db_block db' 0 = None"
proof -
  obtain db where db: "db_exec Some (\<lambda>_. ''0x1'') (Add_Test Null (Some 1) None None (Some ''t'')) db_start = Some db" "init_done db"
      "registered sample_code db = [test_view sample_code \<lparr>df_name = ''t'', df_entry = Some 1, df_init = None, df_destroy = None, df_in = Def_Mod\<rparr>]"
      "list_all (\<lambda>r. list_all (clean_fixtures sample_code db) (dr_mods (db_reg db r))) (db_regs db)"
      "db_block db 0 = Some Func_Block" "Heap 0 \<in> linked db (db_regs db)"
    by (simp add: db_build RCU_TEST_FUNCTION_NAME_LENGTH_def linked_def)
  have "db_reach Some (\<lambda>_. ''0x1'') db" by (rule db_reach.step [OF db_reach.start _ db(1)]) simp
  from program_runs_registered [OF this init_again [OF db(2)] db(4), of False True] db(1,3,5,6) show ?thesis
    by (auto simp: test_view_def sample_code_def passes_def)
qed

text \<open>The example programs do what they demonstrate: the simple one and the table of calculator tests pass, the module example
  runs no test at all because it never adds its test to the module, the signal example survives the segmentation fault and
  reports one failed test, the demo reports one passed and four failed tests, the run hook is called at the
  start and at the end, and the hook for assertions outside tests sees the four failed ones.\<close>

theorem example_programs:
  "result_of (simple_main Some sp) = Some (RCU_E_OK, 1, 0) \<and> result_of (function_table_main Some sp) = Some (RCU_E_OK, 2, 0) \<and>
   result_of (module_main Some) = Some (RCU_E_OK, 0, 0) \<and> result_of (signal_main Some sp) = Some (RCU_E_NG, 0, 1) \<and>
   result_of (demo_main Some sp) = Some (RCU_E_NG, 1, 4) \<and>
   map_option (\<lambda>(r, m, db). map run_hook_line (hook_log m)) run_hook_main = Some [''Test started'', ''Test finished''] \<and>
   map_option fst (sample_test_codes_7 True) = Some
     [''Assertion failure : rcunit_sample_app_non_test_assertions.c(6) : x == 101'', ''Assertion failure : rcunit_sample_app_non_test_assertions.c(7) : x == 102'',
      ''Assertion failure : rcunit_sample_app_non_test_assertions.c(8) : x == 103'', ''Assertion failure : rcunit_sample_app_non_test_assertions.c(9) : x == 104'']"
  by (intro conjI simple_result function_table_result module_result signal_result demo_result run_hook_result non_test_result)

text \<open>An exception thrown by a handler goes to the block around it: the nested blocks of the exception example, when the
  inner function throws, print the two handlers from the inside out, and leave frames and signals as they were.\<close>

theorem rethrow_reaches_outer:
  "exec (exception_main junk False) sample_excp_state = (Returned, sample_excp_state\<lparr>out :=
    [''Running sample_test_codes_6...'', ''sample_test_codes_6 : invoked!'', ''sample_test_codes_6_2 : invoked!'',
     ''sample_test_codes_6_1 : invoked!'', ''sample_test_codes_6_1: Throwing exception'',
     ''sample_test_codes_6_2 : sample_test_codes_6_1 threw an exception : '' @ snd (rcu_lookup_excp_by_id RCU_EXCP_NULLPOINTER),
     ''sample_test_codes_6_2 : Throwing exception'',
     ''sample_test_codes_6 : sample_test_codes_6_2 threw an exception : '' @ snd (rcu_lookup_excp_by_id RCU_EXCP_INVPARAM),
     ''sample_test_codes_6 : sample_test_codes_6_2 returned : 0x'' @ junk]\<rparr>)"
  by (simp add: exception_main_def sample_test_codes_6_def sample_test_codes_6_2_def sample_test_codes_6_1_def exec_run sample_excp_state_def fun_eq_iff)

end
