(* ===== verification/Spec2Isabelle.thy ===== *)
theory Spec2Isabelle
  imports Replay Hex Handshake Loop_Props Buffers Config Startup Rcu_Mtrace Rcu_Thread Rcu_Examples
begin

text \<open>
  A verification of the lanecove tunnel (\<^verbatim>\<open>src/src\<close>) and of the RCUNIT test framework that comes with it
  (\<^verbatim>\<open>src/rcunit\<close>).

  \<^bold>\<open>The program.\<close> \<^verbatim>\<open>peer.c\<close> reads a YAML file, opens a TUN device and a UDP socket and runs one event loop. A packet
  from the device is routed by longest prefix to a session, numbered, sealed with AES-GCM and sent; a datagram is a
  handshake packet or a data packet, which is opened, checked against a replay window and written to the device or
  relayed. Handshakes, key changes, time-outs and keepalives are driven by the periodic work of the loop.
  \<^verbatim>\<open>common.c\<close> and \<^verbatim>\<open>common.h\<close> hold the codec, the cryptography, the handshake and the replay window. RCUNIT keeps
  registries of modules of tests, runs them with setups and teardowns under its own exception mechanism, traces
  memory and writes a report.

  \<^bold>\<open>Shared ground.\<close>
  \<^item> \<open>Tunnel_Prelude\<close>: machine types, the sizes of \<^verbatim>\<open>common.h\<close>, scans over array prefixes, and the interfaces \<open>codec\<close>
    (encode and decode) and \<open>inv_machine\<close> (a step function with an invariant).
  \<^item> \<open>Env\<close>: OpenSSL, clock, sockets and resolver as the record \<open>env\<close>, an argument of every definition that uses them; their
    documented laws are named predicates, hypotheses of the theorems that need them. \<open>Sample_Env\<close> is an instance on
    which the laws hold together.
  \<^item> \<open>LibC\<close>: \<open>strchr\<close>, \<open>atoi\<close>, \<open>inet_pton\<close> and decimal numerals.

  \<^bold>\<open>The tunnel.\<close>
  \<^item> \<open>Replay\<close> (\<open>check_replay\<close>): the 2048-bit window with its in-place shift loop refines the filter that accepts exactly the
    unseen numbers above the window; the contract is the interface \<open>replay_filter\<close>, from which it follows that no
    number is accepted twice.
  \<^item> \<open>Hex\<close> (\<open>bytes_to_hex\<close>, \<open>hex_to_bytes\<close>): round trip, and which other strings are accepted.
  \<^item> \<open>Crypto\<close>, \<open>Handshake\<close> (\<open>encrypt_packet\<close>, \<open>decrypt_packet\<close>, key files, \<open>handshake_client_send\<close>, \<open>handshake_server_respond\<close>,
    \<open>handshake_client_recv\<close>): both sides of a handshake get the same key and the right identities, a responder stays silent
    unless the packet is authentic, a client takes only the answer of the configured responder, a handshake in which
    no call fails completes, and initiations under another PSK are rejected unless the HMAC collides on their bytes.
    \<open>load_or_generate_static_key\<close> reads back the key it stored; \<open>main\<close> does not call it.
  \<^item> \<open>Sessions\<close> (tables, look-ups, \<open>alloc_session\<close>, \<open>session_init\<close>, \<open>route_lookup\<close>): a pointer into an array is an index. The
    invariant \<open>peer_inv\<close> and the operations that keep it; longest prefix routing; connecting a peer.
  \<^item> \<open>Event_Loop\<close>, \<open>Loop_Invariant\<close>, \<open>Data_Path\<close>, \<open>Loop_Props\<close>, \<open>Buffers\<close> (\<open>event_loop\<close> and its handlers): the loop is a fold of \<open>loop_step\<close> over
    the answers of \<open>epoll_wait\<close>, \<open>read\<close> and \<open>recvfrom\<close>. It keeps the invariant over every run; a packet is delivered
    once; nothing leaves the tunnel or is relayed that the peer of a session did not seal, and a relayed
    datagram carries the same payload; everything sent fits its buffer; waiting is
    bounded; a signal ends the loop. Four theorems state behaviour that the code shows and should not:
    replays under the previous key, forged packets that keep a session alive, a tie-break that cannot run, and
    a key that survives a change of owner.
  \<^item> \<open>Config\<close>, \<open>Startup\<close> (\<open>load_config\<close>, \<open>parse_cidr\<close>, \<open>open_tunnel\<close>, \<open>start_peer\<close>, \<open>main\<close>): the state machine over YAML events keeps the tables well
    formed and reads back what it should; the loop is entered only after all checks, and a refused start sends nothing; the invariant holds for the whole program
    from \<open>main\<close> on.

  \<^bold>\<open>The test framework.\<close>
  \<^item> \<open>Rcu_List\<close> (\<^verbatim>\<open>rcunit_list.c\<close>, \<^verbatim>\<open>rcunit_queue.c\<close>): linked lists on a heap refine sequences (interface \<open>node_list\<close>); the loops
    over a list, partial functions, are shown to end on every list, and not to end when a node is in two lists.
  \<^item> \<open>Rcu_Tables\<close> (error codes, exceptions, hashes) and \<open>Rcu_Mtrace\<close> (\<^verbatim>\<open>rcunit_mtrace.c\<close>, \<^verbatim>\<open>rcunit_mem.c\<close>): over programs that call
    the allocator and the tracing macros, the leak reports are exact while the tracer gets its tables, and count only
    outstanding blocks when it does not.
  \<^item> \<open>Rcu_Run\<close>, \<open>Rcu_Report\<close> (assertions, runners, report): user code is the list of assertions, exceptions and signals it
    gets to. The verdict on a test, the counts of a module and of a whole run, and what the report says.
  \<^item> \<open>Rcu_Exception\<close> (\<open>RCU_TRY\<close>, \<open>RCU_CATCH\<close>, \<open>RCU_THROW\<close>, signal handlers): a stack of frames. A block restores frames, signal actions
    and mask, and the mechanism does what \<open>Rcu_Run\<close> takes it to do.
  \<^item> \<open>Rcu_Dbase\<close>, \<open>Rcu_Dbase_Inv\<close>, \<open>Rcu_Dbase_Props\<close> (registries, modules and tests with their memory): undefined behaviour is \<open>None\<close>. The
    invariant \<open>db_ok\<close>, kept by every call, under which no call is undefined; the tests of a table are what runs.
  \<^item> \<open>Rcu_Thread\<close> (\<^verbatim>\<open>rcunit_thread.c\<close>): look-up by name is stable until a thread is destroyed, and undefined after.
  \<^item> \<open>Rcu_Examples\<close> (assertion macros, \<^verbatim>\<open>src/rcunit/examples\<close>): a program runs exactly the tests it registered and then
    frees exactly the blocks it linked, and what each example prints and returns.

  \<^bold>\<open>Conventions and bounds.\<close> No definition uses fuel: recursion follows the data, and the two loops of \<open>Rcu_List\<close> that may not
  end are partial functions with \<open>None\<close> for not returning. Sequence numbers, window words, addresses and the 32-bit
  expression of the rekey time are words and wrap as in the code; times, counters of tests and sizes that cannot reach
  their limits are integers. \<open>malloc\<close>, \<open>pthread_create\<close> and the calls in \<open>env\<close> answer by the number of the call, so nothing is assumed about
  their order of success and failure.

  \<^bold>\<open>Not modelled.\<close> OpenSSL, libyaml, the C library beyond the functions above and the kernel are parameters. Log output is left out,
  except for the functions whose purpose is to print. Of RCUNIT, \<open>rcu_prepare_report\<close> and \<open>rcu_restart_assert_engine\<close> are never called,
  \<open>rcu_cmpct_ptr_tble\<close> is switched off and its call does not match its parameters, the two assertion macros for floating
  point numbers and \<^verbatim>\<open>rcunit_random.c\<close> compute with floating point numbers, and what a thread does while the program
  runs is the business of its routine. Headers that only declare, build files and scripts have no behaviour of their own.
\<close>

end
